theory Spec2Isabelle
  imports Complex_Main
begin

section \<open>Errors\<close>

text \<open>
  Every failure of the Python source is a value. The source raises three exception
  classes itself (\<open>RuntimeError\<close>, \<open>NotImplementedError\<close>, \<open>ValueError\<close>); the
  interpreter and torch add \<open>AttributeError\<close>, \<open>IndexError\<close>, \<open>ZeroDivisionError\<close>,
  \<open>TypeError\<close> and \<open>OverflowError\<close>. A \<open>RuntimeError\<close> carries which message it was
  raised with:
  \<^item> \<open>BaseSamplesSize expected actual\<close>: "The size of base_samples (minus sample shape
    dimensions) should agree with the size of self.loc. Expected ...{} but got {}", with
    its two format arguments (the specification's \<open>ShapeMismatch\<close> of \<open>rsample\<close>);
  \<^item> \<open>IncompatibleDimension\<close>: "Incompatible dimension of `base_samples`" (the
    specification's \<open>DimensionMismatch\<close>);
  \<^item> \<open>UnsupportedAddition\<close>, \<open>OnlyScalars\<close>: the two messages of the arithmetic
    operators (the specification's \<open>UnsupportedOperand\<close>);
  \<^item> \<open>NotBroadcastable\<close>, \<open>InvalidShape\<close>: raised inside the tensor library when two
    shapes do not broadcast, or a view, permutation, product or expansion is given a
    shape it cannot produce (the specification's \<open>ShapeMismatch\<close> elsewhere);
  \<^item> \<open>ScalarOverflow\<close>: raised inside the tensor library when a Python int does not
    fit the integer type of its scalars ("Overflow when unpacking long");
  \<^item> \<open>AmbiguousTruth\<close>: raised by the tensor library when a tensor that does not
    have exactly one element is used as a condition.
  \<open>NonFinite\<close> marks a floating-point operation that raises nothing and whose result
  (an infinity or a NaN) has no counterpart among the real numbers used here.
\<close>

datatype message =
    BaseSamplesSize "nat list" "nat list"
  | IncompatibleDimension
  | UnsupportedAddition
  | OnlyScalars
  | NotBroadcastable
  | InvalidShape
  | ScalarOverflow
  | AmbiguousTruth

datatype error =
    RuntimeError message
  | NotImplementedError
  | ValueError
  | AttributeError
  | IndexError
  | ZeroDivisionError
  | TypeError
  | OverflowError
  | NonFinite

definition ebind :: "error + 'a \<Rightarrow> ('a \<Rightarrow> error + 'b) \<Rightarrow> error + 'b" where
  "ebind m f = (case m of Inl e \<Rightarrow> Inl e | Inr x \<Rightarrow> f x)"

section \<open>Python slices of a shape\<close>

text \<open>
  \<open>xs[-1:]\<close>, \<open>xs[-2:]\<close>, \<open>xs[-k:]\<close> and \<open>xs[:n]\<close> as Python evaluates them: a start
  before the beginning is clamped, \<open>xs[-0:]\<close> is the whole sequence, a negative stop
  counts from the end. \<open>xs[:-1]\<close> is \<open>butlast xs\<close> and \<open>xs[:-2]\<close> is
  \<open>butlast (butlast xs)\<close>.
\<close>

definition py_suffix :: "nat \<Rightarrow> 'a list \<Rightarrow> 'a list" where
  "py_suffix k xs = (if k = 0 then xs else drop (length xs - k) xs)"

definition py_prefix :: "int \<Rightarrow> 'a list \<Rightarrow> 'a list" where
  "py_prefix n xs = (if n < 0 then take (length xs - nat (- n)) xs else take (nat n) xs)"

definition size_at :: "nat list \<Rightarrow> int \<Rightarrow> error + nat" where
  \<comment> \<open>\<open>shape[i]\<close> for a possibly negative \<open>i\<close>\<close>
  "size_at s i =
     (if 0 \<le> i \<and> i < int (length s) then Inr (s ! nat i)
      else if i < 0 \<and> - i \<le> int (length s) then Inr (s ! nat (int (length s) + i))
      else Inl IndexError)"

section \<open>Dense tensors\<close>

text \<open>
  A tensor is its shape and its entries in row-major order; entries are real numbers
  (floating-point rounding is not modelled). Inputs are taken as contiguous. The
  operations below are the ones of the tensor library that the source calls, each with
  the failure it raises.
\<close>

datatype tensor = Tensor (shape: "nat list") (elems: "real list")

definition ndim :: "tensor \<Rightarrow> nat" where
  "ndim t = length (shape t)"

definition numel :: "tensor \<Rightarrow> nat" where
  "numel t = prod_list (shape t)"

definition wf_tensor :: "tensor \<Rightarrow> bool" where
  "wf_tensor t = (length (elems t) = prod_list (shape t))"

fun ravel :: "nat list \<Rightarrow> nat list \<Rightarrow> nat" where
  "ravel (n # ns) (i # is) = i * prod_list ns + ravel ns is"
| "ravel _ _ = 0"

fun indices :: "nat list \<Rightarrow> nat list list" where
  "indices [] = [[]]"
| "indices (n # ns) = concat (map (\<lambda>i. map ((#) i) (indices ns)) [0..<n])"

definition entry :: "tensor \<Rightarrow> nat list \<Rightarrow> real" where
  "entry t idx = elems t ! ravel (shape t) idx"

definition tabulate :: "nat list \<Rightarrow> (nat list \<Rightarrow> real) \<Rightarrow> tensor" where
  "tabulate s f = Tensor s (map f (indices s))"

definition tmap :: "(real \<Rightarrow> real) \<Rightarrow> tensor \<Rightarrow> tensor" where
  "tmap f t = Tensor (shape t) (map f (elems t))"

definition scalar :: "real \<Rightarrow> tensor" where
  "scalar x = Tensor [] [x]"

fun bc_rev :: "nat list \<Rightarrow> nat list \<Rightarrow> nat list option" where
  "bc_rev [] ys = Some ys"
| "bc_rev xs [] = Some xs"
| "bc_rev (x # xs) (y # ys) =
     (if x = y \<or> y = 1 then map_option ((#) x) (bc_rev xs ys)
      else if x = 1 then map_option ((#) y) (bc_rev xs ys)
      else None)"

definition broadcast_shape :: "nat list \<Rightarrow> nat list \<Rightarrow> error + nat list" where
  \<comment> \<open>shapes are aligned at the right; two sizes agree when equal or when one is 1\<close>
  "broadcast_shape a b =
     (case bc_rev (rev a) (rev b) of
        None \<Rightarrow> Inl (RuntimeError NotBroadcastable)
      | Some r \<Rightarrow> Inr (rev r))"

definition bidx :: "nat list \<Rightarrow> nat list \<Rightarrow> nat list" where
  \<comment> \<open>the index into a tensor of shape \<open>s\<close> that index \<open>idx\<close> of a broadcast reads\<close>
  "bidx s idx = map2 (\<lambda>n i. if n = 1 then 0 else i) s (drop (length idx - length s) idx)"

definition tbinop :: "(real \<Rightarrow> real \<Rightarrow> real) \<Rightarrow> tensor \<Rightarrow> tensor \<Rightarrow> error + tensor" where
  "tbinop f a b =
     ebind (broadcast_shape (shape a) (shape b)) (\<lambda>s.
       Inr (tabulate s (\<lambda>idx. f (entry a (bidx (shape a) idx)) (entry b (bidx (shape b) idx)))))"

definition tadd :: "tensor \<Rightarrow> tensor \<Rightarrow> error + tensor" where
  "tadd = tbinop (+)"

definition tsub :: "tensor \<Rightarrow> tensor \<Rightarrow> error + tensor" where
  "tsub = tbinop (-)"

definition expandable :: "nat list \<Rightarrow> nat list \<Rightarrow> bool" where
  \<comment> \<open>a tensor of shape \<open>s\<close> can be expanded to \<open>target\<close>\<close>
  "expandable s target =
     (length s \<le> length target \<and>
      list_all2 (\<lambda>n m. n = m \<or> n = 1) s (drop (length target - length s) target))"

definition tensor_expand :: "tensor \<Rightarrow> nat list \<Rightarrow> error + tensor" where
  "tensor_expand t target =
     (if expandable (shape t) target
      then Inr (tabulate target (\<lambda>idx. entry t (bidx (shape t) idx)))
      else Inl (RuntimeError InvalidShape))"

definition unsqueeze_first :: "tensor \<Rightarrow> tensor" where
  "unsqueeze_first t = Tensor (1 # shape t) (elems t)"

definition unsqueeze_last :: "tensor \<Rightarrow> tensor" where
  "unsqueeze_last t = Tensor (shape t @ [1]) (elems t)"

definition view :: "tensor \<Rightarrow> nat list \<Rightarrow> error + tensor" where
  "view t s =
     (if prod_list s = numel t then Inr (Tensor s (elems t))
      else Inl (RuntimeError InvalidShape))"

definition view_infer :: "tensor \<Rightarrow> nat list \<Rightarrow> error + tensor" where
  \<comment> \<open>\<open>t.view(-1, *s)\<close>: the first size is inferred; it is ambiguous when \<open>s\<close> has no entries\<close>
  "view_infer t s =
     (if prod_list s = 0 \<or> numel t mod prod_list s \<noteq> 0 then Inl (RuntimeError InvalidShape)
      else Inr (Tensor ((numel t div prod_list s) # s) (elems t)))"

definition norm_dims :: "nat \<Rightarrow> int list \<Rightarrow> nat list option" where
  \<comment> \<open>the dimensions of a permutation, negative ones counted from the end\<close>
  "norm_dims n ds =
     (let js = map (\<lambda>d. if d < 0 then int n + d else d) ds
      in if length js = n \<and> distinct js \<and> list_all (\<lambda>j. 0 \<le> j \<and> j < int n) js
         then Some (map nat js) else None)"

definition position :: "nat \<Rightarrow> nat list \<Rightarrow> nat" where
  "position j ds = length (takeWhile (\<lambda>d. d \<noteq> j) ds)"

definition permute :: "tensor \<Rightarrow> int list \<Rightarrow> error + tensor" where
  "permute t ds =
     (case norm_dims (ndim t) ds of
        None \<Rightarrow> Inl (RuntimeError InvalidShape)
      | Some js \<Rightarrow>
          Inr (tabulate (map (\<lambda>j. shape t ! j) js)
                 (\<lambda>idx. entry t (map (\<lambda>j. idx ! position j js) [0..<ndim t]))))"

definition narrow_rows :: "tensor \<Rightarrow> nat \<Rightarrow> error + tensor" where
  \<comment> \<open>\<open>t[..., :r, :]\<close>\<close>
  "narrow_rows t r =
     (if ndim t < 2 then Inl IndexError
      else let s = shape t; b = butlast (butlast s)
           in Inr (tabulate (b @ [min r (s ! (length s - 2)), last s]) (entry t)))"

definition matmul :: "tensor \<Rightarrow> tensor \<Rightarrow> error + tensor" where
  \<comment> \<open>batched matrix product of operands with at least two dimensions\<close>
  "matmul a b =
     (if ndim a < 2 \<or> ndim b < 2 then Inl (RuntimeError InvalidShape)
      else let sa = shape a; sb = shape b;
               ba = butlast (butlast sa); bb = butlast (butlast sb);
               n = sa ! (length sa - 2); k = last sa; m = last sb
           in if sb ! (length sb - 2) \<noteq> k then Inl (RuntimeError InvalidShape)
              else ebind (broadcast_shape ba bb) (\<lambda>bs.
                Inr (tabulate (bs @ [n, m])
                  (\<lambda>idx. let bi = take (length bs) idx; i = idx ! length bs; c = idx ! (length bs + 1)
                         in (\<Sum>j\<leftarrow>[0..<k]. entry a (bidx ba bi @ [i, j]) * entry b (bidx bb bi @ [j, c]))))))"

definition cat_last :: "tensor \<Rightarrow> tensor \<Rightarrow> error + tensor" where
  \<comment> \<open>\<open>torch.cat([a, b], -1)\<close>\<close>
  "cat_last a b =
     (if ndim a = 0 \<or> ndim a \<noteq> ndim b \<or> butlast (shape a) \<noteq> butlast (shape b)
      then Inl (RuntimeError InvalidShape)
      else let la = last (shape a)
           in Inr (tabulate (butlast (shape a) @ [la + last (shape b)])
                 (\<lambda>idx. if last idx < la then entry a idx
                        else entry b (butlast idx @ [last idx - la]))))"

definition sum_all :: "tensor \<Rightarrow> tensor" where
  \<comment> \<open>\<open>t.sum()\<close>\<close>
  "sum_all t = scalar (sum_list (elems t))"

definition sum_last :: "tensor \<Rightarrow> tensor" where
  \<comment> \<open>\<open>t.sum(-1)\<close>; a tensor without dimensions is returned as it is\<close>
  "sum_last t =
     (if ndim t = 0 then t
      else tabulate (butlast (shape t))
             (\<lambda>idx. (\<Sum>j\<leftarrow>[0..<last (shape t)]. entry t (idx @ [j]))))"

definition zeros_like :: "tensor \<Rightarrow> tensor" where
  "zeros_like t = tmap (\<lambda>_. 0) t"

definition add_inplace :: "tensor \<Rightarrow> tensor \<Rightarrow> error + tensor" where
  \<comment> \<open>\<open>a.add_(b)\<close>: \<open>b\<close> is broadcast to \<open>a\<close>, whose shape cannot change\<close>
  "add_inplace a b =
     ebind (broadcast_shape (shape a) (shape b)) (\<lambda>s.
       if s = shape a then tadd a b else Inl (RuntimeError InvalidShape))"

definition div_scalar :: "tensor \<Rightarrow> real \<Rightarrow> error + tensor" where
  \<comment> \<open>\<open>t.div(c)\<close>\<close>
  "div_scalar t c = (if c = 0 then Inl NonFinite else Inr (tmap (\<lambda>x. x / c) t))"

definition tensor_repeat :: "tensor \<Rightarrow> nat list \<Rightarrow> error + tensor" where
  \<comment> \<open>\<open>t.repeat(*sizes)\<close>: the tensor is tiled \<open>sizes\<close> times along each dimension\<close>
  "tensor_repeat t sizes =
     (if length sizes < ndim t then Inl (RuntimeError InvalidShape)
      else let k = length sizes - ndim t; ps = replicate k 1 @ shape t
           in Inr (tabulate (map2 (*) sizes ps)
                 (\<lambda>idx. entry t (drop k (map2 (\<lambda>i n. i mod n) idx ps)))))"

section \<open>The structured linear operator\<close>

text \<open>
  Modelled from the spec: the structured linear operator (\<open>gpytorch.lazy\<close>:
  \<open>LazyTensor\<close>, \<open>lazify\<close>, \<open>delazify\<close>), which is not among the source files. The
  specification describes it as an implicit representation of a (possibly batched)
  covariance matrix with dense materialization, expand, scalar multiply, add, and the
  numeric primitives \<open>inv_quad_logdet\<close>, \<open>logdet\<close>, \<open>root_decomposition\<close> and
  \<open>zero_mean_mvn_samples\<close>, consumed as black boxes. An operator is modelled by the
  dense matrix it represents. The shape bookkeeping of each primitive is written out;
  the numbers a primitive returns are parameters (\<open>numerics\<close>), one value per entry of
  its result, so nothing is assumed about how they are computed.
\<close>

datatype lazy_tensor = LazyTensor (evaluate: tensor)

definition lazify :: "tensor \<Rightarrow> lazy_tensor" where
  "lazify t = LazyTensor t"

definition lazy_shape :: "lazy_tensor \<Rightarrow> nat list" where
  "lazy_shape c = shape (evaluate c)"

definition lazy_batch_shape :: "lazy_tensor \<Rightarrow> nat list" where
  "lazy_batch_shape c = butlast (butlast (lazy_shape c))"

definition lazy_expand :: "lazy_tensor \<Rightarrow> nat list \<Rightarrow> error + lazy_tensor" where
  "lazy_expand c target = ebind (tensor_expand (evaluate c) target) (\<lambda>t. Inr (LazyTensor t))"

definition lazy_repeat :: "lazy_tensor \<Rightarrow> nat list \<Rightarrow> error + lazy_tensor" where
  \<comment> \<open>only batches are repeated: the last two sizes must be 1\<close>
  "lazy_repeat c sizes =
     (if length sizes < 3 \<or> py_suffix 2 sizes \<noteq> [1, 1] then Inl (RuntimeError InvalidShape)
      else ebind (tensor_repeat (evaluate c) sizes) (\<lambda>t. Inr (LazyTensor t)))"

definition lazy_add :: "lazy_tensor \<Rightarrow> lazy_tensor \<Rightarrow> error + lazy_tensor" where
  "lazy_add a b = ebind (tadd (evaluate a) (evaluate b)) (\<lambda>t. Inr (LazyTensor t))"

definition lazy_mul_scalar :: "lazy_tensor \<Rightarrow> real \<Rightarrow> lazy_tensor" where
  "lazy_mul_scalar c k = LazyTensor (tmap (\<lambda>x. x * k) (evaluate c))"

definition lazy_matmul :: "lazy_tensor \<Rightarrow> tensor \<Rightarrow> error + tensor" where
  "lazy_matmul c t = matmul (evaluate c) t"

record numerics =
  inv_quad_logdet_at :: "tensor \<Rightarrow> tensor \<Rightarrow> nat \<Rightarrow> real \<times> real"
  logdet_at :: "tensor \<Rightarrow> nat \<Rightarrow> real"
  root_rank :: "tensor \<Rightarrow> nat"
  root_at :: "tensor \<Rightarrow> nat \<Rightarrow> real"
  noise_at :: "tensor \<Rightarrow> nat \<Rightarrow> nat \<Rightarrow> real"
  torch_accepts :: "tensor \<Rightarrow> tensor \<Rightarrow> bool \<Rightarrow> bool"
  torch_log_prob :: "tensor \<Rightarrow> tensor \<Rightarrow> tensor \<Rightarrow> error + tensor"
  torch_validate_sample :: "nat list \<Rightarrow> nat list \<Rightarrow> tensor \<Rightarrow> bool"
  torch_accepts_int :: "int \<Rightarrow> bool"
  lazy_accepts_int :: "int \<Rightarrow> bool"

text \<open>
  \<open>inv_quad_logdet_at ops m rhs i\<close> is the pair (quadratic form, log-determinant) that
  the fused call returns for batch element \<open>i\<close> of the operator \<open>m\<close> and right-hand side
  \<open>rhs\<close>; \<open>logdet_at\<close>, \<open>root_at\<close> (with the rank \<open>root_rank\<close> of the root factor) and
  \<open>noise_at\<close> (the zero-mean draws) likewise. The last three fields stand for the dense
  Gaussian of the tensor library: whether its constructor accepts the arguments, its
  log-density, and its sample validation. \<open>torch_accepts_int i\<close> tells whether the
  tensor library takes the Python int \<open>i\<close> as the scalar operand of \<open>tensor + i\<close> and
  \<open>tensor * i\<close> (it raises for an int outside the range of its integer scalars), and
  \<open>lazy_accepts_int i\<close> whether the structured operator takes it as the factor of
  \<open>operator * i\<close>; the bounds themselves belong to the two libraries.
\<close>

definition inv_quad_logdet :: "numerics \<Rightarrow> lazy_tensor \<Rightarrow> tensor \<Rightarrow> error + tensor \<times> tensor" where
  \<comment> \<open>the operator and the right-hand side must have the same batch shape\<close>
  "inv_quad_logdet ops c rhs =
     (let s = lazy_shape c; bs = lazy_batch_shape c; n = prod_list bs
      in if length s < 2 \<or> last s \<noteq> last (butlast s) then Inl (RuntimeError InvalidShape)
         else if length s = 2 \<and> ndim rhs = 1 \<and> last s \<noteq> numel rhs then Inl (RuntimeError InvalidShape)
         else if \<not> (length s = 2 \<and> ndim rhs = 1) \<and> length s \<noteq> ndim rhs then Inl (RuntimeError InvalidShape)
         else if \<not> (length s = 2 \<and> ndim rhs = 1) \<and>
                 (bs \<noteq> butlast (butlast (shape rhs)) \<or> last s \<noteq> last (butlast (shape rhs)))
              then Inl (RuntimeError InvalidShape)
         else Inr (Tensor bs (map (\<lambda>i. fst (inv_quad_logdet_at ops (evaluate c) rhs i)) [0..<n]),
                   Tensor bs (map (\<lambda>i. snd (inv_quad_logdet_at ops (evaluate c) rhs i)) [0..<n])))"

definition logdet :: "numerics \<Rightarrow> lazy_tensor \<Rightarrow> tensor" where
  "logdet ops c =
     Tensor (lazy_batch_shape c)
       (map (logdet_at ops (evaluate c)) [0..<prod_list (lazy_batch_shape c)])"

definition root_decomposition :: "numerics \<Rightarrow> lazy_tensor \<Rightarrow> lazy_tensor" where
  \<comment> \<open>\<open>c.root_decomposition().root\<close>: as many rows as \<open>c\<close>, \<open>root_rank\<close> columns\<close>
  "root_decomposition ops c =
     (let s = butlast (lazy_shape c) @ [root_rank ops (evaluate c)]
      in LazyTensor (Tensor s (map (root_at ops (evaluate c)) [0..<prod_list s])))"

definition zero_mean_mvn_samples :: "numerics \<Rightarrow> lazy_tensor \<Rightarrow> nat \<Rightarrow> tensor" where
  "zero_mean_mvn_samples ops c n =
     (let s = n # butlast (lazy_shape c)
      in Tensor s (map (noise_at ops (evaluate c) n) [0..<prod_list s]))"

definition mul_broadcast_shape :: "nat list \<Rightarrow> nat list \<Rightarrow> error + nat list" where
  \<comment> \<open>Modelled from the spec: \<open>gpytorch.utils.broadcasting._mul_broadcast_shape\<close>, not among
      the source files: the broadcast of two batch shapes, failing when they do not broadcast\<close>
  "mul_broadcast_shape a b = broadcast_shape a b"

text \<open>
  Modelled from the spec: the process-wide setting \<open>settings.fast_computations.log_prob\<close>
  (\<open>gpytorch.settings\<close>, not among the source files); \<open>fast_log_prob\<close> is its \<open>on()\<close>.
\<close>

record settings =
  fast_log_prob :: bool

section \<open>The Gaussian distribution\<close>

text \<open>
  An instance of \<open>_MultivariateNormalBase\<close>. \<open>covar\<close> is the attribute \<open>_covar\<close>, which
  only the structured branch of the constructor assigns; \<open>torch_covariance_matrix\<close> is
  the attribute that the constructor of the dense base class assigns. The memoized
  properties are functions of the instance, which is not mutated after construction.
  The mean is a dense tensor at every call in the source.
\<close>

record mvn =
  islazy :: bool
  loc :: tensor
  covar :: "lazy_tensor option"
  torch_covariance_matrix :: "tensor option"
  validate_args :: bool
  batch_shape :: "nat list"
  event_shape :: "nat list"

datatype covariance = DenseCovariance tensor | LazyCovariance lazy_tensor

definition torch_mvn_init :: "numerics \<Rightarrow> tensor \<Rightarrow> tensor \<Rightarrow> bool \<Rightarrow> error + mvn" where
  \<comment> \<open>the constructor of the dense base class: mean and covariance are broadcast to the
      common batch shape; \<open>torch_accepts\<close> is its factorization and argument validation\<close>
  "torch_mvn_init ops mean cov validate =
     (if ndim mean < 1 then Inl ValueError
      else if ndim cov < 2 then Inl ValueError
      else ebind (broadcast_shape (butlast (butlast (shape cov))) (butlast (shape mean))) (\<lambda>bs.
           ebind (tensor_expand cov (bs @ py_suffix 2 (shape cov))) (\<lambda>cov'.
           ebind (tensor_expand mean (bs @ py_suffix 1 (shape mean))) (\<lambda>mean'.
             if \<not> torch_accepts ops mean cov validate then Inl ValueError
             else Inr \<lparr>islazy = False, loc = mean', covar = None,
                       torch_covariance_matrix = Some cov', validate_args = validate,
                       batch_shape = bs, event_shape = py_suffix 1 (shape mean')\<rparr>))))"

definition mvn_init :: "numerics \<Rightarrow> tensor \<Rightarrow> covariance \<Rightarrow> bool \<Rightarrow> error + mvn" where
  "mvn_init ops mean covariance_matrix validate =
     (case covariance_matrix of
        LazyCovariance c \<Rightarrow>
          if validate then Inl NotImplementedError
          else ebind (mul_broadcast_shape (butlast (shape mean)) (butlast (butlast (lazy_shape c)))) (\<lambda>bs.
                 Inr \<lparr>islazy = True, loc = mean, covar = Some c,
                      torch_covariance_matrix = None, validate_args = validate,
                      batch_shape = bs, event_shape = py_suffix 1 (shape mean)\<rparr>)
      | DenseCovariance c \<Rightarrow> torch_mvn_init ops mean c validate)"

definition get_covar :: "mvn \<Rightarrow> error + lazy_tensor" where
  \<comment> \<open>reading \<open>self._covar\<close>\<close>
  "get_covar self = (case covar self of None \<Rightarrow> Inl AttributeError | Some c \<Rightarrow> Inr c)"

definition torch_covariance :: "mvn \<Rightarrow> error + tensor" where
  \<comment> \<open>\<open>super().covariance_matrix\<close>\<close>
  "torch_covariance self =
     (case torch_covariance_matrix self of None \<Rightarrow> Inl AttributeError | Some t \<Rightarrow> Inr t)"

definition mean :: "mvn \<Rightarrow> tensor" where
  "mean self = loc self"

definition covariance_matrix :: "mvn \<Rightarrow> error + tensor" where
  "covariance_matrix self =
     (if islazy self then ebind (get_covar self) (\<lambda>c. Inr (evaluate c))
      else torch_covariance self)"

definition lazy_covariance_matrix :: "mvn \<Rightarrow> error + lazy_tensor" where
  "lazy_covariance_matrix self =
     (if islazy self then get_covar self
      else ebind (torch_covariance self) (\<lambda>t. Inr (lazify t)))"

definition expand :: "numerics \<Rightarrow> mvn \<Rightarrow> nat list \<Rightarrow> error + mvn" where
  "expand ops self batch_size =
     ebind (tensor_expand (loc self) (batch_size @ py_suffix 1 (shape (loc self)))) (\<lambda>new_loc.
     ebind (get_covar self) (\<lambda>c.
     ebind (lazy_expand c (batch_size @ py_suffix 2 (lazy_shape c))) (\<lambda>new_covar.
       mvn_init ops new_loc (LazyCovariance new_covar) False)))"

subsection \<open>log_prob\<close>

fun floordivs :: "(nat \<times> nat) list \<Rightarrow> error + nat list" where
  \<comment> \<open>\<open>diff_size // covar_size\<close> for every pair, in order\<close>
  "floordivs [] = Inr []"
| "floordivs ((a, b) # ps) =
     (if b = 0 then Inl ZeroDivisionError
      else ebind (floordivs ps) (\<lambda>qs. Inr (a div b # qs)))"

definition padded_batch_shape :: "tensor \<Rightarrow> lazy_tensor \<Rightarrow> nat list" where
  \<comment> \<open>line 122: the batch shape of the operator, padded with ones on the left\<close>
  "padded_batch_shape diff cov =
     replicate (nat (int (ndim diff) + 1 - int (length (lazy_shape cov)))) 1
       @ lazy_batch_shape cov"

definition reconcile :: "tensor \<Rightarrow> lazy_tensor \<Rightarrow> error + tensor \<times> lazy_tensor" where
  \<comment> \<open>lines 117-126: "Repeat the covar to match the batch shape of diff"\<close>
  "reconcile diff cov =
     (if butlast (shape diff) \<noteq> lazy_batch_shape cov then
        if length (butlast (shape diff)) < length (lazy_batch_shape cov)
        then ebind (tensor_expand diff (butlast (lazy_shape cov))) (\<lambda>diff'. Inr (diff', cov))
        else ebind (floordivs (zip (butlast (shape diff)) (padded_batch_shape diff cov))) (\<lambda>reps.
             ebind (lazy_repeat cov (reps @ [1, 1])) (\<lambda>covar'. Inr (diff, covar')))
      else Inr (diff, cov))"

definition base_log_prob :: "numerics \<Rightarrow> mvn \<Rightarrow> tensor \<Rightarrow> error + tensor" where
  \<comment> \<open>\<open>super().log_prob(value)\<close>: the dense formula of the base class\<close>
  "base_log_prob ops self value =
     ebind (covariance_matrix self) (\<lambda>cov. torch_log_prob ops (loc self) cov value)"

definition log_prob :: "numerics \<Rightarrow> settings \<Rightarrow> mvn \<Rightarrow> tensor \<Rightarrow> error + tensor" where
  "log_prob ops st self value =
     (if \<not> fast_log_prob st then base_log_prob ops self value
      else if validate_args self \<and>
              \<not> torch_validate_sample ops (batch_shape self) (event_shape self) value
      then Inl ValueError
      else ebind (lazy_covariance_matrix self) (\<lambda>cov.
           ebind (tsub value (loc self)) (\<lambda>diff.
           ebind (reconcile diff cov) (\<lambda>(diff', covar').
           ebind (inv_quad_logdet ops covar' (unsqueeze_last diff')) (\<lambda>(inv_quad, log_det).
           ebind (size_at (shape diff') (- 1)) (\<lambda>d.
           ebind (tadd (tmap (\<lambda>x. x + 0) inv_quad) log_det) (\<lambda>s.
             Inr (tmap (\<lambda>x. - 0.5 * x) (tmap (\<lambda>x. x + real d * ln (2 * pi)) s)))))))))"

subsection \<open>rsample and sample\<close>

definition adjust_rank :: "lazy_tensor \<Rightarrow> tensor \<Rightarrow> error + tensor" where
  \<comment> \<open>lines 163-166: "If necessary, adjust base_samples for rank of root decomposition"\<close>
  "adjust_rank covar_root base_samples =
     ebind (size_at (lazy_shape covar_root) (- 1)) (\<lambda>r.
     ebind (size_at (shape base_samples) (- 2)) (\<lambda>rows.
       if r < rows then narrow_rows base_samples r
       else if r > rows then Inl (RuntimeError IncompatibleDimension)
       else Inr base_samples))"

definition reparameterize ::
  "mvn \<Rightarrow> nat list \<Rightarrow> lazy_tensor \<Rightarrow> tensor \<Rightarrow> error + tensor" where
  \<comment> \<open>lines 167-171: the product with the root, the mean added, permuted and viewed back\<close>
  "reparameterize self sample_shape covar_root base_samples =
     ebind (lazy_matmul covar_root base_samples) (\<lambda>m.
     ebind (tadd m (unsqueeze_last (loc self))) (\<lambda>res.
     ebind (permute res ((- 1) # map int [0..<ndim (loc self)])) (\<lambda>res'.
       view res' (sample_shape @ shape (loc self)))))"

definition rsample :: "numerics \<Rightarrow> mvn \<Rightarrow> nat list \<Rightarrow> tensor option \<Rightarrow> error + tensor" where
  "rsample ops self sample_shape base_samples =
     ebind (lazy_covariance_matrix self) (\<lambda>cov.
       case base_samples of
         None \<Rightarrow>
           (let num_samples = (if prod_list sample_shape = 0 then 1 else prod_list sample_shape)
            in ebind (tadd (zero_mean_mvn_samples ops cov num_samples) (unsqueeze_first (loc self)))
                 (\<lambda>res. view res (sample_shape @ shape (loc self))))
       | Some bs \<Rightarrow>
           (if shape (loc self) \<noteq> py_suffix (ndim (loc self)) (shape bs)
            then Inl (RuntimeError (BaseSamplesSize (shape (loc self)) (shape bs)))
            else
              (let sample_shape' = py_prefix (int (ndim bs) - int (ndim (loc self))) (shape bs)
               in ebind (view_infer bs (shape (loc self))) (\<lambda>bs1.
                  ebind (permute bs1 (map int [1..<ndim (loc self) + 1] @ [0])) (\<lambda>bs2.
                  (let covar_root = root_decomposition ops cov
                   in ebind (adjust_rank covar_root bs2) (\<lambda>bs3.
                        reparameterize self sample_shape' covar_root bs3)))))))"

definition sample :: "numerics \<Rightarrow> mvn \<Rightarrow> nat list \<Rightarrow> tensor option \<Rightarrow> error + tensor" where
  \<comment> \<open>\<open>rsample\<close> without gradient tracking, which has no effect on the value\<close>
  "sample ops self sample_shape base_samples = rsample ops self sample_shape base_samples"

subsection \<open>Arithmetic operators\<close>

text \<open>
  The operators either return \<open>self\<close> or construct a new instance. To tell the two
  apart, instances live in a store and are named by references; constructing an
  instance appends it to the store and returns the fresh reference.
\<close>

type_synonym ref = nat
type_synonym store = "mvn list"

datatype operand =
    IntOperand int
  | FloatOperand real
  | TensorOperand tensor
  | MvnOperand ref
  | OtherOperand

text \<open>
  The operand of an operator: a Python int (unbounded; a bool is an int), a finite
  Python float (the infinities and NaN, whose products are not real numbers, have no
  operand here), a tensor, another instance of the class, or any other object (one that
  no number equals and that no number divides or multiplies).
\<close>

definition scalar_of :: "operand \<Rightarrow> real option" where
  \<comment> \<open>\<open>isinstance(other, int) or isinstance(other, float)\<close>, with the operand's value\<close>
  "scalar_of other =
     (case other of IntOperand i \<Rightarrow> Some (real_of_int i) | FloatOperand x \<Rightarrow> Some x | _ \<Rightarrow> None)"

definition float_overflows :: "real \<Rightarrow> bool" where
  \<comment> \<open>the exact result \<open>r\<close> of an operation on floats is rounded to an infinity: it is
      at least the largest double plus half the distance to its predecessor\<close>
  "float_overflows r = (2 ^ 1024 - 2 ^ 970 \<le> \<bar>r\<bar>)"

definition construct :: "numerics \<Rightarrow> store \<Rightarrow> tensor \<Rightarrow> covariance \<Rightarrow> error + store \<times> ref" where
  \<comment> \<open>\<open>self.__class__(mean, covariance_matrix)\<close>\<close>
  "construct ops st m c = ebind (mvn_init ops m c False) (\<lambda>obj. Inr (st @ [obj], length st))"

definition mvn_add :: "numerics \<Rightarrow> store \<Rightarrow> ref \<Rightarrow> operand \<Rightarrow> error + store \<times> ref" where
  "mvn_add ops st self other =
     (case other of
        MvnOperand r \<Rightarrow>
          ebind (tadd (mean (st ! self)) (mean (st ! r))) (\<lambda>m.
          ebind (lazy_covariance_matrix (st ! self)) (\<lambda>a.
          ebind (lazy_covariance_matrix (st ! r)) (\<lambda>b.
          ebind (lazy_add a b) (\<lambda>c. construct ops st m (LazyCovariance c)))))
      | IntOperand i \<Rightarrow>
          if \<not> torch_accepts_int ops i then Inl (RuntimeError ScalarOverflow)
          else ebind (lazy_covariance_matrix (st ! self)) (\<lambda>c.
                 construct ops st (tmap (\<lambda>y. y + real_of_int i) (mean (st ! self))) (LazyCovariance c))
      | FloatOperand x \<Rightarrow>
          ebind (lazy_covariance_matrix (st ! self)) (\<lambda>c.
            construct ops st (tmap (\<lambda>y. y + x) (mean (st ! self))) (LazyCovariance c))
      | _ \<Rightarrow> Inl (RuntimeError UnsupportedAddition))"

definition mvn_radd :: "numerics \<Rightarrow> store \<Rightarrow> ref \<Rightarrow> operand \<Rightarrow> error + store \<times> ref" where
  \<comment> \<open>\<open>if other == 0\<close> comes before any test of the type: a tensor is compared entry by
      entry, and the result is a condition only when it has exactly one element\<close>
  "mvn_radd ops st self other =
     (case other of
        IntOperand i \<Rightarrow> if i = 0 then Inr (st, self) else mvn_add ops st self other
      | FloatOperand x \<Rightarrow> if x = 0 then Inr (st, self) else mvn_add ops st self other
      | TensorOperand t \<Rightarrow>
          (case elems t of
             [x] \<Rightarrow> if x = 0 then Inr (st, self) else mvn_add ops st self other
           | _ \<Rightarrow> Inl (RuntimeError AmbiguousTruth))
      | _ \<Rightarrow> mvn_add ops st self other)"

definition mvn_mul :: "numerics \<Rightarrow> store \<Rightarrow> ref \<Rightarrow> operand \<Rightarrow> error + store \<times> ref" where
  \<comment> \<open>the arguments of the constructor are evaluated from the left: \<open>self.mean * other\<close>,
      \<open>self.lazy_covariance_matrix\<close>, \<open>other ** 2\<close> (exact for an int, raising
      \<open>OverflowError\<close> for a float whose square is out of range), then the product of the
      operator\<close>
  "mvn_mul ops st self other =
     (case other of
        IntOperand i \<Rightarrow>
          if i = 1 then Inr (st, self)
          else if \<not> torch_accepts_int ops i then Inl (RuntimeError ScalarOverflow)
          else ebind (lazy_covariance_matrix (st ! self)) (\<lambda>cov.
                 if \<not> lazy_accepts_int ops (i ^ 2) then Inl (RuntimeError ScalarOverflow)
                 else construct ops st (tmap (\<lambda>x. x * real_of_int i) (mean (st ! self)))
                        (LazyCovariance (lazy_mul_scalar cov (real_of_int (i ^ 2)))))
      | FloatOperand c \<Rightarrow>
          if c = 1 then Inr (st, self)
          else ebind (lazy_covariance_matrix (st ! self)) (\<lambda>cov.
                 if float_overflows (c ^ 2) then Inl OverflowError
                 else construct ops st (tmap (\<lambda>x. x * c) (mean (st ! self)))
                        (LazyCovariance (lazy_mul_scalar cov (c ^ 2))))
      | _ \<Rightarrow> Inl (RuntimeError OnlyScalars))"

definition mvn_truediv :: "numerics \<Rightarrow> store \<Rightarrow> ref \<Rightarrow> operand \<Rightarrow> error + store \<times> ref" where
  \<comment> \<open>\<open>1.0 / other\<close> is evaluated first: an int is converted to a float, which raises
      \<open>OverflowError\<close> when it is out of range; the quotient by a float is not checked,
      so that a quotient out of range is an infinity; the quotient by a tensor is a
      tensor, which \<open>__mul__\<close> then refuses; no other operand divides a float\<close>
  "mvn_truediv ops st self other =
     (case other of
        IntOperand i \<Rightarrow>
          if float_overflows (real_of_int i) then Inl OverflowError
          else if i = 0 then Inl ZeroDivisionError
          else mvn_mul ops st self (FloatOperand (1 / real_of_int i))
      | FloatOperand c \<Rightarrow>
          if c = 0 then Inl ZeroDivisionError
          else if float_overflows (1 / c) then Inl NonFinite
          else mvn_mul ops st self (FloatOperand (1 / c))
      | TensorOperand t \<Rightarrow> mvn_mul ops st self (TensorOperand (tmap (\<lambda>x. 1 / x) t))
      | _ \<Rightarrow> Inl TypeError)"

definition mvn_rmul :: "numerics \<Rightarrow> store \<Rightarrow> operand \<Rightarrow> ref \<Rightarrow> error + store \<times> ref" where
  \<comment> \<open>\<open>other * self\<close>, the instance on the right: the class defines \<open>__mul__\<close> only, no
      \<open>__rmul__\<close>, so the product is that of the left operand, and a number, a tensor or
      another object has none with an instance\<close>
  "mvn_rmul ops st other self =
     (case other of
        MvnOperand r \<Rightarrow> mvn_mul ops st r (MvnOperand self)
      | _ \<Rightarrow> Inl TypeError)"

section \<open>KL divergence\<close>

definition kl_mvn_mvn :: "numerics \<Rightarrow> mvn \<Rightarrow> mvn \<Rightarrow> error + tensor" where
  "kl_mvn_mvn ops p_dist q_dist =
     ebind (mul_broadcast_shape (batch_shape p_dist) (batch_shape q_dist)) (\<lambda>output_shape.
     ebind (if output_shape \<noteq> batch_shape p_dist then expand ops p_dist output_shape
            else Inr p_dist) (\<lambda>p_dist.
     ebind (if output_shape \<noteq> batch_shape q_dist then expand ops q_dist output_shape
            else Inr q_dist) (\<lambda>q_dist.
     ebind (lazy_covariance_matrix q_dist) (\<lambda>q_covar.
     ebind (lazy_covariance_matrix p_dist) (\<lambda>p_covar.
     (let root_p_covar = evaluate (root_decomposition ops p_covar)
      in ebind (tsub (loc p_dist) (loc q_dist)) (\<lambda>mean_diffs.
         ebind (cat_last (unsqueeze_last mean_diffs) root_p_covar) (\<lambda>inv_quad_rhs.
         (let logdet_p_covar = logdet ops p_covar
          in ebind (inv_quad_logdet ops q_covar inv_quad_rhs) (\<lambda>(trace_plus_inv_quad_form, logdet_q_covar).
             ebind (size_at (shape mean_diffs) (- 1)) (\<lambda>d.
             ebind (tadd (tmap (\<lambda>x. x + 0) logdet_q_covar) (tmap (\<lambda>x. x * (- 1)) logdet_p_covar)) (\<lambda>s1.
             ebind (tadd s1 trace_plus_inv_quad_form) (\<lambda>s2.
               Inr (tmap (\<lambda>x. 0.5 * x) (tmap (\<lambda>x. x + (- real d)) s2)))))))))))))))"

section \<open>The approximate marginal log likelihood\<close>

text \<open>
  \<open>gp_model\<close> holds what \<open>forward\<close> reads from the model: the two distributions of its
  variational strategy and the values \<open>loss()\<close> of its added loss terms, in order.
  \<open>named_priors\<close> holds the value \<open>prior.log_prob(closure())\<close> of every registered
  prior; \<open>log_likelihood_term\<close> is the abstract method a subclass implements.
\<close>

record gp_model =
  prior_distribution :: mvn
  variational_distribution :: mvn
  added_loss_terms :: "tensor list"

record mll =
  model :: gp_model
  num_data :: real
  beta :: real
  combine_terms :: bool
  named_priors :: "tensor list"
  log_likelihood_term :: "mvn \<Rightarrow> tensor \<Rightarrow> error + tensor"

datatype elbo = Combined tensor | Terms "tensor list"

definition kl_divergence :: "numerics \<Rightarrow> mll \<Rightarrow> error + tensor" where
  \<comment> \<open>\<open>_kl_divergence\<close>; the preconditioner setting only concerns the numeric primitives\<close>
  "kl_divergence ops self =
     kl_mvn_mvn ops (variational_distribution (model self)) (prior_distribution (model self))"

fun accumulate :: "tensor \<Rightarrow> tensor list \<Rightarrow> error + tensor" where
  \<comment> \<open>\<open>for x in xs: acc.add_(x)\<close>\<close>
  "accumulate acc [] = Inr acc"
| "accumulate acc (x # xs) = ebind (add_inplace acc x) (\<lambda>acc'. accumulate acc' xs)"

fun accumulate_priors :: "real \<Rightarrow> tensor \<Rightarrow> tensor list \<Rightarrow> error + tensor" where
  \<comment> \<open>\<open>for ... in self.named_priors(): log_prior.add_(prior.log_prob(closure()).sum().div(self.num_data))\<close>\<close>
  "accumulate_priors n acc [] = Inr acc"
| "accumulate_priors n acc (p # ps) =
     ebind (div_scalar (sum_all p) n) (\<lambda>t.
     ebind (add_inplace acc t) (\<lambda>acc'. accumulate_priors n acc' ps))"

definition forward :: "numerics \<Rightarrow> mll \<Rightarrow> mvn \<Rightarrow> tensor \<Rightarrow> error + elbo" where
  "forward ops self approximate_dist_f target =
     (let num_batch = prod_list (event_shape approximate_dist_f)
      in ebind (log_likelihood_term self approximate_dist_f target) (\<lambda>ll.
         ebind (div_scalar ll (real num_batch)) (\<lambda>log_likelihood.
         ebind (kl_divergence ops self) (\<lambda>kl.
         ebind (if beta self = 0 then Inl ZeroDivisionError
                else div_scalar kl (num_data self / beta self)) (\<lambda>kl.
         (let kl_divergence =
                (if numel log_likelihood = 1 then sum_all kl
                 else if ndim kl > ndim log_likelihood then sum_last kl
                 else kl)
          in ebind (accumulate (zeros_like log_likelihood) (added_loss_terms (model self))) (\<lambda>added_loss.
             (let had_added_losses = (added_loss_terms (model self) \<noteq> [])
              in ebind (accumulate_priors (num_data self) (zeros_like log_likelihood)
                          (named_priors self)) (\<lambda>log_prior.
                   if combine_terms self
                   then ebind (tsub log_likelihood kl_divergence) (\<lambda>a.
                        ebind (tadd a log_prior) (\<lambda>b.
                        ebind (tsub b added_loss) (\<lambda>c. Inr (Combined c))))
                   else ebind (div_scalar log_prior (num_data self)) (\<lambda>lp.
                          if had_added_losses
                          then Inr (Terms [log_likelihood, kl_divergence, lp, added_loss])
                          else Inr (Terms [log_likelihood, kl_divergence, lp])))))))))))"

section \<open>Contract of the numeric primitives\<close>

text \<open>
  Modelled from the spec: what the primitives of the structured operator compute. The
  root factor \<open>R\<close> of an operator \<open>S\<close> satisfies \<open>S = R R\<^sup>T\<close> (\<open>is_root\<close>). For an
  identity operator the inverse quadratic form of a right-hand side, summed over its
  columns, is the sum of the squares of its entries, and the log-determinant is 0
  (\<open>exact_at_identity\<close>, stated for an operator without batch dimensions). These
  predicates are hypotheses of the statements that need them; the code is not defined
  in terms of them.
\<close>

definition transpose_last :: "tensor \<Rightarrow> error + tensor" where
  \<comment> \<open>\<open>t.transpose(-1, -2)\<close>\<close>
  "transpose_last t =
     permute t (map int [0..<ndim t - 2] @ [int (ndim t) - 1, int (ndim t) - 2])"

definition is_root :: "numerics \<Rightarrow> lazy_tensor \<Rightarrow> bool" where
  "is_root ops c =
     (let r = evaluate (root_decomposition ops c)
      in ebind (transpose_last r) (matmul r) = Inr (evaluate c))"

definition exact_at_identity :: "numerics \<Rightarrow> tensor \<Rightarrow> bool" where
  "exact_at_identity ops i =
     ((\<forall>rhs. inv_quad_logdet_at ops i rhs 0 = (sum_list (map (\<lambda>x. x * x) (elems rhs)), 0))
      \<and> logdet_at ops i 0 = 0)"

section \<open>Example instances\<close>

text \<open>
  Concrete inputs for the examples below. \<open>unit_numerics\<close> are primitives that are
  exact for the identity operator of size one: the quadratic form is the sum of the
  squares of the right-hand side, the log-determinant is 0 and the root factor is the
  one-column matrix of ones. Both libraries take the ints of 64 bits as scalars.
\<close>

definition unit_numerics :: numerics where
  "unit_numerics =
     \<lparr>inv_quad_logdet_at = (\<lambda>m rhs i. (sum_list (map (\<lambda>x. x * x) (elems rhs)), 0)),
      logdet_at = (\<lambda>m i. 0),
      root_rank = (\<lambda>m. 1),
      root_at = (\<lambda>m i. 1),
      noise_at = (\<lambda>m n i. 0),
      torch_accepts = (\<lambda>m c v. True),
      torch_log_prob = (\<lambda>m c v. Inr (scalar 0)),
      torch_validate_sample = (\<lambda>b e v. True),
      torch_accepts_int = (\<lambda>i. - (2 ^ 63) \<le> i \<and> i < 2 ^ 63),
      lazy_accepts_int = (\<lambda>i. - (2 ^ 63) \<le> i \<and> i < 2 ^ 63)\<rparr>"

definition example_mean :: tensor where
  "example_mean = Tensor [2] [10, 20]"

definition example_covar :: lazy_tensor where
  "example_covar = LazyTensor (Tensor [2, 2] [1, 0, 0, 1])"

definition example_mvn :: mvn where
  "example_mvn =
     \<lparr>islazy = True, loc = example_mean, covar = Some example_covar,
      torch_covariance_matrix = None, validate_args = False,
      batch_shape = [], event_shape = [2]\<rparr>"

definition wide_numerics :: numerics where
  "wide_numerics = unit_numerics\<lparr>root_rank := (\<lambda>m. 3)\<rparr>"

definition batched_mean :: tensor where
  "batched_mean = Tensor [2, 1] [0, 0]"

definition batched_covar :: lazy_tensor where
  "batched_covar = LazyTensor (Tensor [2, 1, 1] [1, 1])"

definition batched_mvn :: mvn where
  "batched_mvn =
     \<lparr>islazy = True, loc = batched_mean, covar = Some batched_covar,
      torch_covariance_matrix = None, validate_args = False,
      batch_shape = [2], event_shape = [1]\<rparr>"

definition dense_mvn :: mvn where
  "dense_mvn =
     \<lparr>islazy = False, loc = example_mean, covar = None,
      torch_covariance_matrix = Some (Tensor [2, 2] [1, 0, 0, 1]), validate_args = False,
      batch_shape = [], event_shape = [2]\<rparr>"

definition unit_mvn :: mvn where
  "unit_mvn =
     \<lparr>islazy = True, loc = Tensor [1] [0], covar = Some (LazyTensor (Tensor [1, 1] [1])),
      torch_covariance_matrix = None, validate_args = False,
      batch_shape = [], event_shape = [1]\<rparr>"

definition example_mll :: "bool \<Rightarrow> mll" where
  "example_mll combine =
     \<lparr>model = \<lparr>prior_distribution = unit_mvn, variational_distribution = unit_mvn,
                added_loss_terms = []\<rparr>,
      num_data = 2, beta = 1, combine_terms = combine,
      named_priors = [scalar 4],
      log_likelihood_term = (\<lambda>d y. Inr (scalar 0))\<rparr>"

definition origin_mvn :: mvn where
  "origin_mvn =
     \<lparr>islazy = True, loc = Tensor [2] [0, 0], covar = Some example_covar,
      torch_covariance_matrix = None, validate_args = False,
      batch_shape = [], event_shape = [2]\<rparr>"

definition paired_covar :: lazy_tensor where
  "paired_covar = LazyTensor (Tensor [2, 2, 2] [1, 0, 0, 1, 2, 0, 0, 2])"

definition tiled_covar :: lazy_tensor where
  "tiled_covar = LazyTensor (Tensor [4, 2, 2] [1, 0, 0, 1, 2, 0, 0, 2, 1, 0, 0, 1, 2, 0, 0, 2])"

definition four_diffs :: tensor where
  "four_diffs = Tensor [4, 2] [1, 2, 3, 4, 5, 6, 7, 8]"

definition pair_diff :: tensor where
  "pair_diff = Tensor [2] [1, 2]"

definition paired_mvn :: mvn where
  "paired_mvn =
     \<lparr>islazy = True, loc = Tensor [2] [0, 0], covar = Some paired_covar,
      torch_covariance_matrix = None, validate_args = False,
      batch_shape = [2], event_shape = [2]\<rparr>"

definition row_mvn :: mvn where
  "row_mvn =
     \<lparr>islazy = True, loc = Tensor [1, 2] [0, 0], covar = Some paired_covar,
      torch_covariance_matrix = None, validate_args = False,
      batch_shape = [2], event_shape = [2]\<rparr>"

definition dense_normal :: "real \<Rightarrow> mvn" where
  "dense_normal x =
     \<lparr>islazy = False, loc = Tensor [1] [x], covar = None,
      torch_covariance_matrix = Some (Tensor [1, 1] [1]), validate_args = False,
      batch_shape = [], event_shape = [1]\<rparr>"

definition dense_pair :: mvn where
  "dense_pair =
     \<lparr>islazy = False, loc = Tensor [2, 1] [1, 1], covar = None,
      torch_covariance_matrix = Some (Tensor [2, 1, 1] [1, 1]), validate_args = False,
      batch_shape = [2], event_shape = [1]\<rparr>"

definition lazy_pair :: mvn where
  "lazy_pair =
     \<lparr>islazy = True, loc = Tensor [2, 1] [1, 1], covar = Some batched_covar,
      torch_covariance_matrix = None, validate_args = False,
      batch_shape = [2], event_shape = [1]\<rparr>"

section \<open>Basic facts\<close>

lemma ebind_Inl [simp]: "ebind (Inl e) f = Inl e"
  by (simp add: ebind_def)

lemma ebind_Inr [simp]: "ebind (Inr x) f = f x"
  by (simp add: ebind_def)

lemma ebind_eq_Inr: "ebind m f = Inr y \<longleftrightarrow> (\<exists>x. m = Inr x \<and> f x = Inr y)"
  by (cases m) simp_all

lemma ebind_eq_Inl: "ebind m f = Inl e \<longleftrightarrow> m = Inl e \<or> (\<exists>x. m = Inr x \<and> f x = Inl e)"
  by (cases m) simp_all

lemma shape_tabulate [simp]: "shape (tabulate s f) = s"
  by (simp add: tabulate_def)

lemma shape_tmap [simp]: "shape (tmap f t) = shape t"
  by (simp add: tmap_def)

lemma elems_tmap [simp]: "elems (tmap f t) = map f (elems t)"
  by (simp add: tmap_def)

lemma tmap_tmap: "tmap f (tmap g t) = tmap (\<lambda>x. f (g x)) t"
  by (simp add: tmap_def)

lemma tmap_ident: "(\<And>x. f x = x) \<Longrightarrow> tmap f t = t"
  by (cases t) (simp add: tmap_def map_idI)

lemma bc_rev_same: "bc_rev xs xs = Some xs"
  by (induction xs) simp_all

lemma broadcast_shape_same [simp]: "broadcast_shape s s = Inr s"
  by (simp add: broadcast_shape_def bc_rev_same)

lemma py_suffix_1_nonempty: "s \<noteq> [] \<Longrightarrow> py_suffix 1 s = [last s]"
  by (cases s rule: rev_cases) (simp_all add: py_suffix_def)

lemma butlast_append_py_suffix_1: "s \<noteq> [] \<Longrightarrow> butlast (bs @ py_suffix 1 s) = bs"
  using py_suffix_1_nonempty[of s] by (simp add: butlast_append)

lemma py_suffix_2_length: "2 \<le> length s \<Longrightarrow> length (py_suffix 2 s) = 2"
  by (simp add: py_suffix_def)

lemma butlast2_append: "length e = 2 \<Longrightarrow> butlast (butlast (bs @ e)) = bs"
proof -
  assume "length e = 2"
  then obtain x y where "e = [x, y]"
    by (cases e; cases "tl e"; auto)
  then show ?thesis by (simp add: butlast_append)
qed

lemma tensor_expand_shape: "tensor_expand t target = Inr t' \<Longrightarrow> shape t' = target"
  by (auto simp: tensor_expand_def split: if_splits)

text \<open>What either branch of the constructor establishes.\<close>

lemma mvn_init_covariance:
  assumes "mvn_init ops m cv va = Inr A"
  shows "\<exists>lc. lazy_covariance_matrix A = Inr lc \<and> covariance_matrix A = Inr (evaluate lc)
           \<and> mul_broadcast_shape (butlast (shape (loc A))) (lazy_batch_shape lc) = Inr (batch_shape A)"
proof (cases cv)
  case (LazyCovariance c)
  with assms show ?thesis
    by (auto simp: mvn_init_def ebind_eq_Inr lazy_covariance_matrix_def covariance_matrix_def
        get_covar_def lazy_batch_shape_def split: if_splits)
next
  case (DenseCovariance c)
  with assms have init: "torch_mvn_init ops m c va = Inr A"
    by (simp add: mvn_init_def)
  then obtain bs cov' mean' where
    d: "1 \<le> ndim m" "2 \<le> ndim c"
    and c': "tensor_expand c (bs @ py_suffix 2 (shape c)) = Inr cov'"
    and m': "tensor_expand m (bs @ py_suffix 1 (shape m)) = Inr mean'"
    and A: "A = \<lparr>islazy = False, loc = mean', covar = None,
                 torch_covariance_matrix = Some cov', validate_args = va,
                 batch_shape = bs, event_shape = py_suffix 1 (shape mean')\<rparr>"
    by (auto simp: torch_mvn_init_def ebind_eq_Inr split: if_splits)
  have s1: "shape mean' = bs @ py_suffix 1 (shape m)" using m' by (rule tensor_expand_shape)
  have s2: "shape cov' = bs @ py_suffix 2 (shape c)" using c' by (rule tensor_expand_shape)
  have "shape m \<noteq> []" using d by (auto simp: ndim_def)
  then have b1: "butlast (shape mean') = bs" unfolding s1 by (rule butlast_append_py_suffix_1)
  have "length (py_suffix 2 (shape c)) = 2" using d by (simp add: py_suffix_2_length ndim_def)
  then have b2: "butlast (butlast (shape cov')) = bs" by (simp add: s2 butlast2_append)
  show ?thesis
    by (simp add: A lazy_covariance_matrix_def covariance_matrix_def torch_covariance_def
        lazify_def lazy_batch_shape_def lazy_shape_def b1 b2 mul_broadcast_shape_def)
qed

lemma mvn_init_scaled:
  assumes "mvn_init ops m cv va = Inr A" "lazy_covariance_matrix A = Inr lc"
  shows "\<exists>B. mvn_init ops (tmap f (mean A)) (LazyCovariance (lazy_mul_scalar lc k)) False = Inr B
          \<and> mean B = tmap f (mean A) \<and> covariance_matrix B = Inr (tmap (\<lambda>x. x * k) (evaluate lc))"
proof -
  from mvn_init_covariance[OF assms(1)] assms(2)
  have "mul_broadcast_shape (butlast (shape (loc A))) (lazy_batch_shape lc) = Inr (batch_shape A)"
    by auto
  then show ?thesis
    by (simp add: mvn_init_def mean_def lazy_batch_shape_def lazy_shape_def lazy_mul_scalar_def
        covariance_matrix_def get_covar_def)
qed

lemma example_mvn_init:
  "mvn_init unit_numerics example_mean (LazyCovariance example_covar) False = Inr example_mvn"
  by (simp add: mvn_init_def example_mvn_def example_mean_def example_covar_def
      mul_broadcast_shape_def broadcast_shape_def lazy_shape_def py_suffix_def)

subsection \<open>Shapes of the sampling path\<close>

lemma py_suffix_append: "length s = k \<Longrightarrow> py_suffix k (pre @ s) = (if k = 0 then pre @ s else s)"
  by (simp add: py_suffix_def)

lemma py_suffix_eq_imp_append:
  assumes "py_suffix (length s) xs = s"
  shows "\<exists>pre. xs = pre @ s \<and> pre = py_prefix (int (length xs) - int (length s)) xs"
proof (cases "length s = 0")
  case True
  with assms show ?thesis by (simp add: py_suffix_def py_prefix_def)
next
  case False
  with assms have d: "drop (length xs - length s) xs = s" by (simp add: py_suffix_def)
  then have "length xs - (length xs - length s) = length s" by (metis length_drop)
  then have le: "length s \<le> length xs" by arith
  have "xs = take (length xs - length s) xs @ s" using d by (metis append_take_drop_id)
  moreover have "py_prefix (int (length xs) - int (length s)) xs = take (length xs - length s) xs"
    using le by (simp add: py_prefix_def nat_diff_distrib')
  ultimately show ?thesis by metis
qed

lemma view_infer_append:
  assumes "shape bs = pre @ s" and "0 < prod_list s"
  shows "view_infer bs s = Inr (Tensor (prod_list pre # s) (elems bs))"
  using assms by (simp add: view_infer_def numel_def)

lemma norm_dims_rotate:
  "norm_dims (Suc k) (map int [1..<k + 1] @ [0]) = Some ([1..<k + 1] @ [0])"
proof -
  have a: "map (\<lambda>d. if d < 0 then int (Suc k) + d else d) (map int [1..<k + 1] @ [0]) = map int [1..<k + 1] @ [0]"
    by (simp add: comp_def)
  have b: "distinct (map int [1..<k + 1] @ [0])"
    by (auto simp: distinct_map)
  have c: "list_all (\<lambda>j. 0 \<le> j \<and> j < int (Suc k)) (map int [1..<k + 1] @ [0])"
    by (auto simp: list_all_iff)
  have d: "map nat (map int [1..<k + 1] @ [0]) = [1..<k + 1] @ [0]"
    by (simp add: comp_def)
  have e: "length (map int [1..<k + 1] @ [0]) = Suc k"
    by simp
  show ?thesis
    by (simp only: norm_dims_def Let_def a b c d e simp_thms if_True)
qed

lemma map_nth_Cons_upt: "map (\<lambda>j. (n # s) ! j) [1..<length s + 1] = s"
proof -
  have "[1..<length s + 1] = [Suc 0..<Suc (length s)]"
    by simp
  also have "\<dots> = map Suc [0..<length s]"
    by (rule map_Suc_upt[symmetric])
  finally have "map (\<lambda>j. (n # s) ! j) [1..<length s + 1] = map (\<lambda>j. s ! j) [0..<length s]"
    by (simp only: map_map comp_def nth_Cons_Suc)
  then show ?thesis by (simp only: map_nth)
qed

lemma permute_rotate:
  assumes "shape t = n # s"
  shows "permute t (map int [1..<length s + 1] @ [0])
         = Inr (tabulate (s @ [n])
             (\<lambda>idx. entry t (map (\<lambda>j. idx ! position j ([1..<length s + 1] @ [0])) [0..<ndim t])))"
proof -
  have n: "ndim t = Suc (length s)" using assms by (simp add: ndim_def)
  have m: "map (\<lambda>j. shape t ! j) ([1..<length s + 1] @ [0]) = s @ [n]"
    using map_nth_Cons_upt[of n s] assms by simp
  show ?thesis
    unfolding permute_def n norm_dims_rotate option.case m[unfolded n] using m by simp
qed

lemma view_error: "view t s = Inl e \<Longrightarrow> e = RuntimeError InvalidShape"
  by (auto simp: view_def split: if_splits)

lemma view_shape: "view t s = Inr t' \<Longrightarrow> shape t' = s"
  by (auto simp: view_def split: if_splits)

lemma view_infer_error: "view_infer t s = Inl e \<Longrightarrow> e = RuntimeError InvalidShape"
  by (auto simp: view_infer_def split: if_splits)

lemma permute_error: "permute t ds = Inl e \<Longrightarrow> e = RuntimeError InvalidShape"
  by (auto simp: permute_def split: option.splits)

lemma broadcast_shape_error: "broadcast_shape a b = Inl e \<Longrightarrow> e = RuntimeError NotBroadcastable"
  by (auto simp: broadcast_shape_def split: option.splits)

lemma tbinop_error: "tbinop f a b = Inl e \<Longrightarrow> e = RuntimeError NotBroadcastable"
  by (auto simp: tbinop_def ebind_eq_Inl dest: broadcast_shape_error)

lemma matmul_error:
  "matmul a b = Inl e \<Longrightarrow> e = RuntimeError InvalidShape \<or> e = RuntimeError NotBroadcastable"
  by (auto simp: matmul_def Let_def ebind_eq_Inl dest: broadcast_shape_error split: if_splits)

lemma narrow_rows_error: "narrow_rows t r = Inl e \<Longrightarrow> e = IndexError"
  by (auto simp: narrow_rows_def Let_def split: if_splits)

lemma size_at_error: "size_at s i = Inl e \<Longrightarrow> e = IndexError"
  by (auto simp: size_at_def split: if_splits)

lemma reparameterize_error:
  "reparameterize self S rt bs = Inl e \<Longrightarrow>
     e = RuntimeError InvalidShape \<or> e = RuntimeError NotBroadcastable"
  by (auto simp: reparameterize_def lazy_matmul_def tadd_def ebind_eq_Inl
      dest: matmul_error tbinop_error permute_error view_error)

lemma reparameterize_shape:
  "reparameterize self S rt bs = Inr t \<Longrightarrow> shape t = S @ shape (loc self)"
  by (auto simp: reparameterize_def ebind_eq_Inr dest: view_shape)

lemma adjust_rank_error:
  "adjust_rank rt bs = Inl e \<Longrightarrow> e = IndexError \<or> e = RuntimeError IncompatibleDimension"
  by (auto simp: adjust_rank_def ebind_eq_Inl dest: size_at_error narrow_rows_error split: if_splits)

lemma rsample_base_samples:
  assumes "lazy_covariance_matrix A = Inr lc"
  shows "rsample ops A S (Some bs) =
     (if shape (loc A) \<noteq> py_suffix (ndim (loc A)) (shape bs)
      then Inl (RuntimeError (BaseSamplesSize (shape (loc A)) (shape bs)))
      else ebind (view_infer bs (shape (loc A))) (\<lambda>bs1.
           ebind (permute bs1 (map int [1..<ndim (loc A) + 1] @ [0])) (\<lambda>bs2.
           ebind (adjust_rank (root_decomposition ops lc) bs2) (\<lambda>bs3.
             reparameterize A (py_prefix (int (ndim bs) - int (ndim (loc A))) (shape bs))
               (root_decomposition ops lc) bs3))))"
  using assms by (simp add: rsample_def Let_def)

lemma rsample_base_samples_not_size_error:
  assumes "lazy_covariance_matrix A = Inr lc"
    and "shape (loc A) = py_suffix (ndim (loc A)) (shape bs)"
  shows "rsample ops A S (Some bs) \<noteq> Inl (RuntimeError (BaseSamplesSize e a))"
proof
  assume "rsample ops A S (Some bs) = Inl (RuntimeError (BaseSamplesSize e a))"
  then have "ebind (view_infer bs (shape (loc A))) (\<lambda>bs1.
           ebind (permute bs1 (map int [1..<ndim (loc A) + 1] @ [0])) (\<lambda>bs2.
           ebind (adjust_rank (root_decomposition ops lc) bs2) (\<lambda>bs3.
             reparameterize A (py_prefix (int (ndim bs) - int (ndim (loc A))) (shape bs))
               (root_decomposition ops lc) bs3))) = Inl (RuntimeError (BaseSamplesSize e a))"
    using assms by (simp add: rsample_base_samples)
  then show False
    by (auto simp: ebind_eq_Inl
        dest: view_infer_error permute_error adjust_rank_error reparameterize_error)
qed

lemma size_at_last: "size_at (xs @ [x]) (- 1) = Inr x"
  by (simp add: size_at_def nth_append)

lemma size_at_penultimate: "xs \<noteq> [] \<Longrightarrow> size_at (xs @ [x]) (- 2) = Inr (last xs)"
  by (cases xs rule: rev_cases) (simp_all add: size_at_def nth_append)

lemma py_prefix_append: "py_prefix (int (length (pre @ s)) - int (length s)) (pre @ s) = pre"
  by (simp add: py_prefix_def)

lemma narrow_rows_append:
  assumes "shape t = s @ [n]" and "s \<noteq> []"
  shows "narrow_rows t r = Inr (tabulate (butlast s @ [min r (last s), n]) (entry t))"
proof -
  obtain b d where s: "s = b @ [d]" using assms(2) by (cases s rule: rev_cases) auto
  show ?thesis using assms(1)
    by (simp add: narrow_rows_def ndim_def s Let_def butlast_append nth_append)
qed

lemma adjust_rank_cases:
  assumes "shape bs2 = s @ [n]" and "s \<noteq> []"
  shows "adjust_rank (root_decomposition ops lc) bs2 =
     (let r = root_rank ops (evaluate lc) in
      if r < last s then Inr (tabulate (butlast s @ [r, n]) (entry bs2))
      else if last s < r then Inl (RuntimeError IncompatibleDimension)
      else Inr bs2)"
  using assms
  by (simp add: adjust_rank_def root_decomposition_def lazy_shape_def Let_def size_at_last
      size_at_penultimate narrow_rows_append min_def)

subsection \<open>Evaluation on concrete inputs\<close>

lemmas tensor_eval =
  tabulate_def entry_def bidx_def tbinop_def tadd_def tsub_def tmap_def ndim_def numel_def
  view_def view_infer_def permute_def norm_dims_def position_def narrow_rows_def matmul_def
  broadcast_shape_def unsqueeze_first_def unsqueeze_last_def py_suffix_def py_prefix_def
  size_at_def upt_rec Let_def

lemmas mvn_eval =
  mvn_init_def mul_broadcast_shape_def lazy_shape_def lazy_batch_shape_def
  lazy_covariance_matrix_def covariance_matrix_def get_covar_def lazy_matmul_def
  root_decomposition_def zero_mean_mvn_samples_def rsample_def adjust_rank_def
  reparameterize_def

lemma batched_mvn_init:
  "mvn_init unit_numerics batched_mean (LazyCovariance batched_covar) False = Inr batched_mvn"
  by (simp add: mvn_eval tensor_eval batched_mvn_def batched_mean_def batched_covar_def)

lemma wide_example_mvn_init:
  "mvn_init wide_numerics example_mean (LazyCovariance example_covar) False = Inr example_mvn"
  by (simp add: mvn_eval tensor_eval example_mvn_def example_mean_def example_covar_def)

lemma rsample_example_value:
  "rsample unit_numerics example_mvn [] (Some (Tensor [3, 2] [1, 2, 3, 4, 5, 6]))
     = Inr (Tensor [3, 2] [11, 21, 13, 23, 15, 25])"
  by (simp add: mvn_eval tensor_eval example_mvn_def example_mean_def example_covar_def
      unit_numerics_def)

subsection \<open>expand\<close>

lemma expandable_snoc: "expandable (s @ [d]) (bs @ [d]) \<longleftrightarrow> expandable s bs"
proof -
  have "length s \<le> length bs \<Longrightarrow>
      drop (Suc (length bs) - Suc (length s)) (bs @ [d]) = drop (length bs - length s) bs @ [d]"
    by simp
  then show ?thesis
    by (auto simp: expandable_def list_all2_append)
qed

lemma expandable_snoc2: "expandable (s @ [d, e]) (bs @ [d, e]) \<longleftrightarrow> expandable s bs"
  using expandable_snoc[of "s @ [d]" e "bs @ [d]"] expandable_snoc[of s d bs] by simp

lemma expand_structured:
  assumes "islazy A" and "covar A = Some c"
    and "shape (loc A) = mb @ [d]" and "lazy_shape c = cb @ [n, n']"
  shows "(\<exists>B. expand ops A bs = Inr B) \<longleftrightarrow> expandable mb bs \<and> expandable cb bs"
    and "expand ops A bs = Inr B \<Longrightarrow>
           islazy B \<and> tensor_expand (loc A) (bs @ [d]) = Inr (loc B)
           \<and> (\<exists>c'. covar B = Some c' \<and> tensor_expand (evaluate c) (bs @ [n, n']) = Inr (evaluate c'))
           \<and> shape (loc B) = bs @ [d] \<and> batch_shape B = bs \<and> event_shape B = [d]"
    and "\<not> (expandable mb bs \<and> expandable cb bs) \<Longrightarrow> expand ops A bs = Inl (RuntimeError InvalidShape)"
proof -
  have p1: "py_suffix (Suc 0) (shape (loc A)) = [d]" and p2: "py_suffix 2 (lazy_shape c) = [n, n']"
    using assms(3,4) by (simp_all add: py_suffix_def)
  have e1: "expandable (shape (loc A)) (bs @ [d]) \<longleftrightarrow> expandable mb bs"
    using assms(3) by (simp add: expandable_snoc)
  have e2: "expandable (shape (evaluate c)) (bs @ [n, n']) \<longleftrightarrow> expandable cb bs"
    using assms(4) by (simp add: expandable_snoc2 lazy_shape_def)
  have ex: "expand ops A bs =
      (if expandable mb bs then
         if expandable cb bs then
           mvn_init ops (tabulate (bs @ [d]) (\<lambda>idx. entry (loc A) (bidx (shape (loc A)) idx)))
             (LazyCovariance (LazyTensor (tabulate (bs @ [n, n'])
                (\<lambda>idx. entry (evaluate c) (bidx (shape (evaluate c)) idx))))) False
         else Inl (RuntimeError InvalidShape)
       else Inl (RuntimeError InvalidShape))"
    using assms(2)
    by (simp add: expand_def p1 p2 tensor_expand_def lazy_expand_def e1 e2 get_covar_def)
  have init: "mvn_init ops (tabulate (bs @ [d]) f) (LazyCovariance (LazyTensor (tabulate (bs @ [n, n']) g))) False
      = Inr \<lparr>islazy = True, loc = tabulate (bs @ [d]) f,
              covar = Some (LazyTensor (tabulate (bs @ [n, n']) g)),
              torch_covariance_matrix = None, validate_args = False,
              batch_shape = bs, event_shape = [d]\<rparr>" for f g
    by (simp add: mvn_init_def mul_broadcast_shape_def lazy_shape_def butlast_append py_suffix_def)
  show "(\<exists>B. expand ops A bs = Inr B) \<longleftrightarrow> expandable mb bs \<and> expandable cb bs"
    by (simp add: ex init)
  show "expand ops A bs = Inr B \<Longrightarrow>
           islazy B \<and> tensor_expand (loc A) (bs @ [d]) = Inr (loc B)
           \<and> (\<exists>c'. covar B = Some c' \<and> tensor_expand (evaluate c) (bs @ [n, n']) = Inr (evaluate c'))
           \<and> shape (loc B) = bs @ [d] \<and> batch_shape B = bs \<and> event_shape B = [d]"
    by (auto simp: ex init tensor_expand_def e1 e2 split: if_splits)
  show "\<not> (expandable mb bs \<and> expandable cb bs) \<Longrightarrow> expand ops A bs = Inl (RuntimeError InvalidShape)"
    by (auto simp: ex)
qed

subsection \<open>The objective\<close>

lemma unit_mvn_init:
  "mvn_init unit_numerics (Tensor [1] [0]) (LazyCovariance (LazyTensor (Tensor [1, 1] [1]))) False
     = Inr unit_mvn"
  by code_simp

lemma kl_unit_unit: "kl_mvn_mvn unit_numerics unit_mvn unit_mvn = Inr (scalar 0)"
  by code_simp

lemma forward_uncombined_length:
  assumes "\<not> combine_terms self" and "forward ops self d y = Inr r"
  shows "\<exists>ts. r = Terms ts \<and> length ts = (if added_loss_terms (model self) = [] then 3 else 4)"
  using assms
  by (auto simp: forward_def Let_def ebind_eq_Inr split: if_splits)

lemma forward_shared_terms:
  assumes "forward ops (self\<lparr>combine_terms := False\<rparr>) d y = Inr (Terms (ll # kl # lp # rest))"
  shows "\<exists>log_prior added_loss.
           div_scalar log_prior (num_data self) = Inr lp
           \<and> forward ops (self\<lparr>combine_terms := True\<rparr>) d y
               = ebind (tsub ll kl) (\<lambda>a. ebind (tadd a log_prior) (\<lambda>b.
                   ebind (tsub b added_loss) (\<lambda>c. Inr (Combined c))))"
  using assms
  by (auto simp: forward_def Let_def ebind_eq_Inr kl_divergence_def split: if_splits) blast+

subsection \<open>Shapes of the results of sampling\<close>

lemma bc_rev_prefix: "bc_rev (xs @ a) (xs @ b) = map_option ((@) xs) (bc_rev a b)"
  by (induction xs) (simp_all add: option.map_comp comp_def option.map_ident)

lemma broadcast_shape_Cons_one: "broadcast_shape (n # s) (Suc 0 # s) = Inr (n # s)"
  using bc_rev_prefix[of "rev s" "[n]" "[Suc 0]"] by (simp add: broadcast_shape_def)

lemma broadcast_shape_snoc_one: "broadcast_shape (s @ [n]) (s @ [Suc 0]) = Inr (s @ [n])"
  by (simp add: broadcast_shape_def bc_rev_same)

lemma tbinop_shape: "tbinop f a b = Inr t \<Longrightarrow> broadcast_shape (shape a) (shape b) = Inr (shape t)"
  by (auto simp: tbinop_def ebind_eq_Inr)

lemma tbinop_ok: "broadcast_shape (shape a) (shape b) = Inr s \<Longrightarrow> \<exists>t. tbinop f a b = Inr t \<and> shape t = s"
  by (simp add: tbinop_def)

lemma norm_dims_rotate_back:
  "norm_dims (Suc k) ((- 1) # map int [0..<k]) = Some (k # [0..<k])"
proof -
  have a: "map (\<lambda>d. if d < 0 then int (Suc k) + d else d) ((- 1) # map int [0..<k]) = int k # map int [0..<k]"
    by (simp add: comp_def)
  have b: "distinct (int k # map int [0..<k])"
    by (auto simp: distinct_map)
  have c: "list_all (\<lambda>j. 0 \<le> j \<and> j < int (Suc k)) (int k # map int [0..<k])"
    by (auto simp: list_all_iff)
  have d: "map nat (int k # map int [0..<k]) = k # [0..<k]"
    by (simp add: comp_def)
  have e: "length (int k # map int [0..<k]) = Suc k"
    by simp
  show ?thesis
    by (simp only: norm_dims_def Let_def a b c d e simp_thms if_True)
qed

lemma permute_rotate_back:
  assumes "shape t = s @ [n]"
  shows "\<exists>t'. permute t ((- 1) # map int [0..<length s]) = Inr t' \<and> shape t' = n # s"
proof -
  have n: "ndim t = Suc (length s)" using assms by (simp add: ndim_def)
  have "map (\<lambda>j. (s @ [n]) ! j) [0..<length s] = map (\<lambda>j. s ! j) [0..<length s]"
    by (simp add: nth_append)
  then have m: "map (\<lambda>j. shape t ! j) (length s # [0..<length s]) = n # s"
    using assms by (simp add: map_nth)
  show ?thesis
    unfolding permute_def n norm_dims_rotate_back option.case using m by simp
qed

lemma matmul_ok:
  assumes "shape a = mb @ [d, r]" and "shape b = mb @ [r, n]"
  shows "\<exists>t. matmul a b = Inr t \<and> shape t = mb @ [d, n]"
  using assms by (simp add: matmul_def ndim_def Let_def butlast_append nth_append)

lemma reparameterize_ok:
  assumes "lazy_shape rt = mb @ [d, r]" and "shape bs3 = mb @ [r, n]"
    and "shape (loc A) = mb @ [d]" and "prod_list S' = n"
  shows "\<exists>t. reparameterize A S' rt bs3 = Inr t"
proof -
  obtain p where p: "lazy_matmul rt bs3 = Inr p" "shape p = shape (loc A) @ [n]"
    using matmul_ok[of "evaluate rt" mb d r bs3 n] assms(1,2,3)
    by (auto simp: lazy_matmul_def lazy_shape_def)
  have "broadcast_shape (shape p) (shape (unsqueeze_last (loc A))) = Inr (shape (loc A) @ [n])"
    by (simp add: p unsqueeze_last_def broadcast_shape_snoc_one)
  then obtain res where res: "tadd p (unsqueeze_last (loc A)) = Inr res" "shape res = shape (loc A) @ [n]"
    unfolding tadd_def using tbinop_ok by blast
  obtain res' where res': "permute res ((- 1) # map int [0..<ndim (loc A)]) = Inr res'"
    "shape res' = n # shape (loc A)"
    using permute_rotate_back[OF res(2)] by (auto simp: ndim_def)
  have "\<exists>t. view res' (S' @ shape (loc A)) = Inr t"
    using res'(2) assms(4) by (simp add: view_def numel_def)
  then show ?thesis
    by (auto simp: reparameterize_def p res res')
qed

lemma rsample_valid:
  assumes "lazy_covariance_matrix A = Inr lc"
    and "shape bs = S' @ shape (loc A)" and "shape (loc A) \<noteq> []" and "0 < numel (loc A)"
  shows "\<exists>bs2. shape bs2 = shape (loc A) @ [prod_list S']
           \<and> rsample ops A S (Some bs)
               = ebind (adjust_rank (root_decomposition ops lc) bs2)
                   (reparameterize A S' (root_decomposition ops lc))"
proof -
  let ?s = "shape (loc A)"
  let ?bs1 = "Tensor (prod_list S' # ?s) (elems bs)"
  have v: "view_infer bs ?s = Inr ?bs1"
    using assms(2,4) by (simp add: view_infer_append numel_def)
  obtain bs2 where p: "permute ?bs1 (map int [1..<ndim (loc A) + 1] @ [0]) = Inr bs2"
    and sh: "shape bs2 = ?s @ [prod_list S']"
    using permute_rotate[of ?bs1 "prod_list S'" ?s] by (simp add: ndim_def)
  have chk: "py_suffix (ndim (loc A)) (shape bs) = ?s"
    using assms(2,3) by (simp add: py_suffix_def ndim_def)
  have pre: "py_prefix (int (ndim bs) - int (ndim (loc A))) (shape bs) = S'"
    using py_prefix_append[of S' ?s] assms(2) by (simp add: ndim_def)
  have "rsample ops A S (Some bs) =
      ebind (adjust_rank (root_decomposition ops lc) bs2)
        (reparameterize A S' (root_decomposition ops lc))"
    using chk pre v p by (simp add: rsample_base_samples[OF assms(1)])
  with sh show ?thesis by blast
qed

lemma sample_none:
  assumes "lazy_covariance_matrix A = Inr lc"
  shows "sample ops A S None =
     ebind (tadd (zero_mean_mvn_samples ops lc (if prod_list S = 0 then 1 else prod_list S))
              (unsqueeze_first (loc A)))
       (\<lambda>res. view res (S @ shape (loc A)))"
  using assms by (simp add: sample_def rsample_def Let_def)

subsection \<open>Indices and entries\<close>

lemma length_indices: "length (indices s) = prod_list s"
proof (induction s)
  case Nil
  show ?case by simp
next
  case (Cons n ns)
  have "length (concat (map (\<lambda>i. map ((#) i) (indices ns)) [0..<n])) = n * prod_list ns"
    by (simp add: length_concat comp_def Cons.IH sum_list_triv del: upt_Suc)
  then show ?case by simp
qed

lemma wf_tabulate [simp]: "wf_tensor (tabulate s f)"
  by (simp add: wf_tensor_def tabulate_def length_indices)

lemma indices_valid: "idx \<in> set (indices s) \<Longrightarrow> list_all2 (<) idx s"
  by (induction s arbitrary: idx) auto

lemma ravel_less: "list_all2 (<) idx s \<Longrightarrow> ravel s idx < prod_list s"
proof (induction s arbitrary: idx)
  case Nil
  then show ?case by simp
next
  case (Cons n ns)
  then obtain i js where idx: "idx = i # js" "i < n" "list_all2 (<) js ns"
    by (auto simp: list_all2_Cons2)
  have r: "ravel ns js < prod_list ns" using Cons.IH idx(3) by simp
  have "i * prod_list ns + ravel ns js < i * prod_list ns + prod_list ns" using r by simp
  also have "\<dots> = Suc i * prod_list ns" by simp
  also have "\<dots> \<le> n * prod_list ns" using idx(2) by (intro mult_le_mono1) simp
  finally show ?case by (simp add: idx(1))
qed

lemma entry_in_elems:
  "wf_tensor t \<Longrightarrow> list_all2 (<) idx (shape t) \<Longrightarrow> entry t idx \<in> set (elems t)"
  using ravel_less[of idx "shape t"] by (simp add: entry_def wf_tensor_def)

lemma elems_tabulate_subset:
  assumes "wf_tensor t" and "\<And>idx. list_all2 (<) idx s \<Longrightarrow> list_all2 (<) (g idx) (shape t)"
  shows "set (elems (tabulate s (\<lambda>idx. entry t (g idx)))) \<subseteq> set (elems t)"
  using assms by (auto simp: tabulate_def dest!: indices_valid intro: entry_in_elems)

lemma map2_select_valid:
  assumes "list_all2 (\<lambda>n m. n = m \<or> n = Suc 0) s t" and "list_all2 (<) i t"
  shows "list_all2 (<) (map2 (\<lambda>n i. if n = Suc 0 then 0 else i) s i) s"
  using assms by (auto simp: list_all2_conv_all_nth)

lemma bidx_valid:
  assumes "expandable s target" and "list_all2 (<) idx target"
  shows "list_all2 (<) (bidx s idx) s"
proof -
  have len: "length idx = length target" using assms(2) by (simp add: list_all2_lengthD)
  have "list_all2 (<) (drop (length target - length s) idx) (drop (length target - length s) target)"
    using assms(2) by (rule list_all2_dropI)
  moreover have "list_all2 (\<lambda>n m. n = m \<or> n = Suc 0) s (drop (length target - length s) target)"
    using assms(1) by (simp add: expandable_def)
  ultimately show ?thesis
    unfolding bidx_def len using map2_select_valid by simp
qed

lemma tensor_expand_elems:
  assumes "wf_tensor t" and "tensor_expand t target = Inr t'"
  shows "set (elems t') \<subseteq> set (elems t)"
proof -
  have e: "expandable (shape t) target" and t': "t' = tabulate target (\<lambda>idx. entry t (bidx (shape t) idx))"
    using assms(2) by (auto simp: tensor_expand_def split: if_splits)
  show ?thesis unfolding t'
    by (rule elems_tabulate_subset[OF assms(1)]) (rule bidx_valid[OF e])
qed

lemma mod_valid:
  fixes idx sizes ps :: "nat list"
  assumes "list_all2 (<) idx (map2 (*) sizes ps)" and "length sizes = length ps"
  shows "list_all2 (<) (map2 (\<lambda>i n. i mod n) idx ps) ps"
proof -
  have lt: "idx ! j < sizes ! j * ps ! j" if "j < length ps" for j
    using assms that by (auto simp: list_all2_conv_all_nth)
  have "idx ! j mod ps ! j < ps ! j" if "j < length ps" for j
  proof -
    have "0 < ps ! j" using lt[OF that] by (cases "ps ! j") simp_all
    then show ?thesis by simp
  qed
  then show ?thesis
    using assms by (auto simp: list_all2_conv_all_nth)
qed

lemma tensor_repeat_elems:
  assumes "wf_tensor t" and "tensor_repeat t sizes = Inr t'"
  shows "set (elems t') \<subseteq> set (elems t)"
proof -
  let ?k = "length sizes - ndim t"
  let ?ps = "replicate ?k 1 @ shape t"
  have le: "ndim t \<le> length sizes"
    and t': "t' = tabulate (map2 (*) sizes ?ps) (\<lambda>idx. entry t (drop ?k (map2 (\<lambda>i n. i mod n) idx ?ps)))"
    using assms(2) by (auto simp: tensor_repeat_def Let_def split: if_splits)
  have len: "length sizes = length ?ps" using le by (simp add: ndim_def)
  have v: "list_all2 (<) (drop ?k (map2 (\<lambda>i n. i mod n) idx ?ps)) (shape t)"
    if "list_all2 (<) idx (map2 (*) sizes ?ps)" for idx
  proof -
    have "list_all2 (<) (drop ?k (map2 (\<lambda>i n. i mod n) idx ?ps)) (drop ?k ?ps)"
      using mod_valid[OF that len] by (rule list_all2_dropI)
    then show ?thesis by simp
  qed
  show ?thesis unfolding t'
    by (rule elems_tabulate_subset[OF assms(1)]) (rule v)
qed

lemma concat_blocks: "concat (map (\<lambda>i. map (\<lambda>j. i * p + j) [0..<p]) [0..<n]) = [0..<n * p]"
proof (induction n)
  case 0
  show ?case by simp
next
  case (Suc n)
  have "map (\<lambda>j. n * p + j) [0..<p] = [n * p..<n * p + p]"
    using map_add_upt[of "n * p" p] by (simp add: add.commute)
  moreover have "[0..<n * p + p] = [0..<n * p] @ [n * p..<n * p + p]"
    using upt_add_eq_append[of 0 "n * p" p] by simp
  ultimately show ?case using Suc by (simp add: add.commute)
qed

lemma ravel_indices: "map (ravel s) (indices s) = [0..<prod_list s]"
proof (induction s)
  case Nil
  show ?case by simp
next
  case (Cons n ns)
  have "map (ravel (n # ns)) (indices (n # ns))
      = concat (map (\<lambda>i. map (\<lambda>js. i * prod_list ns + ravel ns js) (indices ns)) [0..<n])"
    by (simp add: map_concat comp_def del: upt_Suc)
  also have "\<dots> = concat (map (\<lambda>i. map (\<lambda>j. i * prod_list ns + j) (map (ravel ns) (indices ns))) [0..<n])"
    by (simp add: comp_def del: upt_Suc)
  also have "\<dots> = [0..<n * prod_list ns]"
    unfolding Cons.IH by (rule concat_blocks)
  finally show ?case by simp
qed

lemma map_entry_indices: "wf_tensor t \<Longrightarrow> map (entry t) (indices (shape t)) = elems t"
proof -
  assume wf: "wf_tensor t"
  have "map (entry t) (indices (shape t)) = map (\<lambda>i. elems t ! i) (map (ravel (shape t)) (indices (shape t)))"
    by (simp add: entry_def comp_def)
  also have "\<dots> = map (\<lambda>i. elems t ! i) [0..<length (elems t)]"
    using wf by (simp add: ravel_indices wf_tensor_def)
  also have "\<dots> = elems t" by (rule map_nth)
  finally show ?thesis .
qed

lemma bidx_same: "list_all2 (<) idx s \<Longrightarrow> bidx s idx = idx"
proof -
  assume v: "list_all2 (<) idx s"
  then have len: "length idx = length s" by (rule list_all2_lengthD)
  have "map2 (\<lambda>n i. if n = Suc 0 then 0 else i) s idx = idx"
    using v by (auto simp: list_all2_conv_all_nth intro!: nth_equalityI)
  then show ?thesis by (simp add: bidx_def len)
qed

lemma tbinop_same_shape:
  assumes "wf_tensor a" and "wf_tensor b" and "shape a = shape b"
  shows "tbinop f a b = Inr (Tensor (shape a) (map2 f (elems a) (elems b)))"
proof -
  let ?s = "shape a"
  have "map (\<lambda>idx. f (entry a (bidx ?s idx)) (entry b (bidx ?s idx))) (indices ?s)
      = map (\<lambda>idx. f (entry a idx) (entry b idx)) (indices ?s)"
    by (rule map_cong) (auto dest!: indices_valid simp: bidx_same)
  also have "\<dots> = map2 f (map (entry a) (indices ?s)) (map (entry b) (indices ?s))"
    by (simp add: zip_map_map zip_same_conv_map comp_def)
  also have "\<dots> = map2 f (elems a) (elems b)"
    using map_entry_indices[OF assms(1)] map_entry_indices[OF assms(2)] assms(3) by simp
  finally show ?thesis
    using assms(3) by (simp add: tbinop_def tabulate_def)
qed

lemma nth_concat_uniform:
  assumes "\<And>xs. xs \<in> set xss \<Longrightarrow> length xs = p" and "i < length xss" and "r < p"
  shows "concat xss ! (i * p + r) = xss ! i ! r"
  using assms
proof (induction xss arbitrary: i)
  case Nil
  then show ?case by simp
next
  case (Cons x xss)
  have lx: "length x = p" using Cons.prems(1) by simp
  show ?case
  proof (cases i)
    case 0
    then show ?thesis using lx Cons.prems(3) by (simp add: nth_append)
  next
    case (Suc j)
    have "concat xss ! (j * p + r) = xss ! j ! r"
      using Cons.IH[of j] Cons.prems Suc by simp
    moreover have "(x @ concat xss) ! (p + (j * p + r)) = concat xss ! (j * p + r)"
      using lx by (simp add: nth_append)
    ultimately show ?thesis using Suc by (simp add: add.assoc)
  qed
qed

lemma indices_nth_ravel: "list_all2 (<) idx s \<Longrightarrow> indices s ! ravel s idx = idx"
proof (induction s arbitrary: idx)
  case Nil
  then show ?case by simp
next
  case (Cons n ns)
  then obtain i js where idx: "idx = i # js" "i < n" "list_all2 (<) js ns"
    by (auto simp: list_all2_Cons2)
  let ?p = "prod_list ns"
  let ?xss = "map (\<lambda>i. map ((#) i) (indices ns)) [0..<n]"
  have r: "ravel ns js < ?p" using ravel_less[OF idx(3)] .
  have "concat ?xss ! (i * ?p + ravel ns js) = ?xss ! i ! ravel ns js"
    by (rule nth_concat_uniform) (use idx(2) r in \<open>auto simp: length_indices\<close>)
  also have "\<dots> = i # (indices ns ! ravel ns js)"
    using idx(2) r by (simp add: length_indices)
  also have "\<dots> = i # js" using Cons.IH[OF idx(3)] by simp
  finally show ?case by (simp add: idx(1))
qed

lemma entry_tabulate: "list_all2 (<) idx s \<Longrightarrow> entry (tabulate s f) idx = f idx"
  using ravel_less[of idx s] indices_nth_ravel[of idx s]
  by (simp add: entry_def tabulate_def length_indices)

lemma tensor_repeat_Inr:
  assumes "tensor_repeat t sizes = Inr t'"
  shows "t' = tabulate (map2 (*) sizes (replicate (length sizes - ndim t) 1 @ shape t))
                (\<lambda>idx. entry t (drop (length sizes - ndim t)
                   (map2 (\<lambda>i n. i mod n) idx (replicate (length sizes - ndim t) 1 @ shape t))))"
  using assms by (auto simp: tensor_repeat_def Let_def split: if_splits)

subsection \<open>log_prob\<close>

lemma floordivs_Inr:
  "floordivs ps = Inr qs \<longleftrightarrow> 0 \<notin> set (map snd ps) \<and> qs = map (\<lambda>(a, b). a div b) ps"
  by (induction ps arbitrary: qs) (fastforce simp: ebind_eq_Inr split: if_splits)+

lemma div_mult_eq_iff_dvd: "(d::nat) div c * c = d \<longleftrightarrow> c dvd d"
  by (metis dvd_div_mult_self dvd_triv_right)

lemma map2_div_mult_eq_iff:
  assumes "length db = length ps"
  shows "map2 (\<lambda>d c. d div c * c) db ps = db \<longleftrightarrow> list_all2 (\<lambda>d (c::nat). c dvd d) db ps"
  using assms
  by (induction db ps rule: list_induct2) (simp_all add: div_mult_eq_iff_dvd)

lemma map2_mult_div:
  "map2 (*) (map2 (div) xs ys) ys = map2 (\<lambda>d c. d div c * c) xs (ys::nat list)"
proof (induction xs arbitrary: ys)
  case Nil
  show ?case by simp
next
  case (Cons x xs)
  then show ?case by (cases ys) simp_all
qed

lemma tensor_repeat_shape:
  "tensor_repeat t sizes = Inr t' \<Longrightarrow>
     shape t' = map2 (*) sizes (replicate (length sizes - ndim t) 1 @ shape t)"
  by (auto simp: tensor_repeat_def Let_def split: if_splits)

lemma lazy_repeat_Inr:
  "lazy_repeat c sizes = Inr c' \<Longrightarrow> tensor_repeat (evaluate c) sizes = Inr (evaluate c')"
  by (auto simp: lazy_repeat_def ebind_eq_Inr split: if_splits)

lemma inv_quad_logdet_batch:
  assumes "inv_quad_logdet ops c rhs = Inr r" and "3 \<le> ndim rhs"
  shows "lazy_batch_shape c = butlast (butlast (shape rhs))"
  using assms by (auto simp: inv_quad_logdet_def Let_def split: if_splits)

lemma inv_quad_logdet_Inr:
  assumes "inv_quad_logdet ops c rhs = Inr (iq, ld)"
  shows "iq = Tensor (lazy_batch_shape c)
               (map (\<lambda>i. fst (inv_quad_logdet_at ops (evaluate c) rhs i)) [0..<prod_list (lazy_batch_shape c)])"
    and "ld = Tensor (lazy_batch_shape c)
               (map (\<lambda>i. snd (inv_quad_logdet_at ops (evaluate c) rhs i)) [0..<prod_list (lazy_batch_shape c)])"
  using assms by (auto simp: inv_quad_logdet_def Let_def split: if_splits)

lemma size_at_minus_one: "size_at s (- 1) = Inr d \<Longrightarrow> s \<noteq> [] \<and> d = last s"
  by (cases s rule: rev_cases) (auto simp: size_at_def nth_append split: if_splits)

lemma wf_tensor_upt [simp]: "wf_tensor (Tensor s (map f [0..<prod_list s]))"
  by (simp add: wf_tensor_def)

lemma tadd_upt:
  "tadd (Tensor s (map f [0..<prod_list s])) (Tensor s (map g [0..<prod_list s]))
     = Inr (Tensor s (map (\<lambda>i. f i + g i) [0..<prod_list s]))"
  using tbinop_same_shape[of "Tensor s (map f [0..<prod_list s])" "Tensor s (map g [0..<prod_list s])" "(+)"]
  by (simp add: tadd_def zip_map_map zip_same_conv_map comp_def del: upt_Suc)

lemma log_prob_fast:
  assumes "fast_log_prob st" and "log_prob ops st A value = Inr res"
  shows "\<exists>lc diff diff' cov'.
            lazy_covariance_matrix A = Inr lc \<and> tsub value (loc A) = Inr diff
            \<and> reconcile diff lc = Inr (diff', cov')
            \<and> res = Tensor (lazy_batch_shape cov')
                 (map (\<lambda>i. - 0.5 * (fst (inv_quad_logdet_at ops (evaluate cov') (unsqueeze_last diff') i)
                                  + snd (inv_quad_logdet_at ops (evaluate cov') (unsqueeze_last diff') i)
                                  + real (last (shape diff')) * ln (2 * pi)))
                    [0..<prod_list (lazy_batch_shape cov')])"
proof -
  from assms obtain lc diff diff' cov' iq ld d s where
    lc: "lazy_covariance_matrix A = Inr lc" and diff: "tsub value (loc A) = Inr diff"
    and rc: "reconcile diff lc = Inr (diff', cov')"
    and iql: "inv_quad_logdet ops cov' (unsqueeze_last diff') = Inr (iq, ld)"
    and d: "size_at (shape diff') (- 1) = Inr d"
    and s: "tadd (tmap (\<lambda>x. x) iq) ld = Inr s"
    and res: "res = tmap ((*) (- (1 / 2))) (tmap (\<lambda>x. x + real d * ln (2 * pi)) s)"
    by (auto simp: log_prob_def ebind_eq_Inr split: if_splits)
  let ?bs = "lazy_batch_shape cov'"
  let ?q = "inv_quad_logdet_at ops (evaluate cov') (unsqueeze_last diff')"
  note iq = inv_quad_logdet_Inr[OF iql]
  have "tmap (\<lambda>x. x) iq = Tensor ?bs (map (\<lambda>i. fst (?q i)) [0..<prod_list ?bs])"
    by (subst iq(1)) (simp add: tmap_def comp_def del: upt_Suc)
  then have "s = Tensor ?bs (map (\<lambda>i. fst (?q i) + snd (?q i)) [0..<prod_list ?bs])"
    using s by (subst (asm) iq(2)) (simp add: tadd_upt)
  moreover have "d = last (shape diff')" using size_at_minus_one[OF d] by simp
  ultimately have "res = Tensor ?bs
      (map (\<lambda>i. - 0.5 * (fst (?q i) + snd (?q i) + real (last (shape diff')) * ln (2 * pi)))
         [0..<prod_list ?bs])"
    by (simp add: res tmap_def comp_def del: upt_Suc)
  with lc diff rc show ?thesis by blast
qed

lemma inv_quad_logdet_ok:
  assumes "lazy_shape c = mb @ [d, d]" and "shape rhs = mb @ [d, k]"
  shows "\<exists>iq ld. inv_quad_logdet ops c rhs = Inr (iq, ld)"
  using assms
  by (simp add: inv_quad_logdet_def Let_def lazy_batch_shape_def ndim_def butlast_append)

lemma log_prob_returns:
  assumes "fast_log_prob st"
    and "validate_args A \<longrightarrow> torch_validate_sample ops (batch_shape A) (event_shape A) value"
    and "lazy_covariance_matrix A = Inr lc" and "shape (loc A) = mb @ [d]"
    and "lazy_shape lc = mb @ [d, d]" and "shape value = mb @ [d]"
  shows "\<exists>res. log_prob ops st A value = Inr res"
proof -
  have "broadcast_shape (shape value) (shape (loc A)) = Inr (mb @ [d])"
    using assms(4,6) by simp
  then obtain diff where diff: "tsub value (loc A) = Inr diff" "shape diff = mb @ [d]"
    unfolding tsub_def using tbinop_ok by blast
  have rc: "reconcile diff lc = Inr (diff, lc)"
    using diff(2) assms(5) by (simp add: reconcile_def lazy_batch_shape_def butlast_append)
  obtain iq ld where iql: "inv_quad_logdet ops lc (unsqueeze_last diff) = Inr (iq, ld)"
    using inv_quad_logdet_ok[OF assms(5), of "unsqueeze_last diff" 1 ops] diff(2)
    by (auto simp: unsqueeze_last_def)
  note iq = inv_quad_logdet_Inr[OF iql]
  have d: "size_at (shape diff) (- 1) = Inr d"
    by (simp add: diff(2) size_at_last)
  have "shape (tmap (\<lambda>x. x + 0) iq) = shape ld"
    by (subst iq(1), subst iq(2)) simp
  then have "broadcast_shape (shape (tmap (\<lambda>x. x + 0) iq)) (shape ld) = Inr (shape ld)"
    by simp
  then obtain s where s: "tadd (tmap (\<lambda>x. x + 0) iq) ld = Inr s"
    unfolding tadd_def using tbinop_ok by blast
  show ?thesis
    using assms(1,2,3) diff(1) rc iql d s by (auto simp: log_prob_def)
qed

lemma origin_mvn_init:
  "mvn_init unit_numerics (Tensor [2] [0, 0]) (LazyCovariance example_covar) False = Inr origin_mvn"
  by code_simp

lemma reconcile_same:
  "butlast (shape diff) = lazy_batch_shape cov \<Longrightarrow> reconcile diff cov = Inr (diff, cov)"
  by (simp add: reconcile_def)

lemma reconcile_expand:
  assumes "lazy_shape cov = cb @ [n, n']" and "butlast (shape diff) \<noteq> cb"
    and "length (butlast (shape diff)) < length cb"
  shows "reconcile diff cov = ebind (tensor_expand diff (cb @ [n])) (\<lambda>diff'. Inr (diff', cov))"
  using assms by (simp add: reconcile_def lazy_batch_shape_def butlast_append)

lemma floordivs_error: "floordivs ps = Inl e \<Longrightarrow> e = ZeroDivisionError"
  by (induction ps) (auto simp: ebind_eq_Inl split: if_splits)

lemma reconcile_tile:
  assumes "lazy_shape cov = cb @ [n, n']" and "butlast (shape diff) = db" and "db \<noteq> cb"
    and "length cb \<le> length db"
  shows "0 \<in> set cb \<Longrightarrow> reconcile diff cov = Inl ZeroDivisionError"
    and "0 \<notin> set cb \<Longrightarrow>
           \<exists>cov'. reconcile diff cov = Inr (diff, cov')
              \<and> lazy_shape cov'
                   = map2 (\<lambda>d c. d div c * c) db (replicate (length db - length cb) 1 @ cb) @ [n, n']"
proof -
  let ?p = "padded_batch_shape diff cov"
  let ?k = "length db - length cb"
  have bs: "lazy_batch_shape cov = cb"
    using assms(1) by (simp add: lazy_batch_shape_def butlast_append)
  have dbne: "db \<noteq> []"
  proof
    assume e: "db = []"
    have "cb = []" using assms(4) unfolding e by simp
    then show False using assms(3) e by simp
  qed
  then have nd: "ndim diff = Suc (length db)"
    using assms(2) by (cases "shape diff") (auto simp: ndim_def)
  have p: "?p = replicate ?k 1 @ cb"
    using assms(1,4) by (simp add: padded_batch_shape_def nd bs nat_diff_distrib')
  have lp: "length ?p = length db" using assms(4) by (simp add: p)
  have rc: "reconcile diff cov
      = ebind (floordivs (zip db ?p)) (\<lambda>reps.
          ebind (lazy_repeat cov (reps @ [1, 1])) (\<lambda>covar'. Inr (diff, covar')))"
    using assms(2,3,4) by (auto simp: reconcile_def bs)
  show "reconcile diff cov = Inl ZeroDivisionError" if z: "0 \<in> set cb"
  proof -
    have "0 \<in> set (map snd (zip db ?p))"
      using z p lp by (simp add: map_snd_zip)
    then have "\<nexists>qs. floordivs (zip db ?p) = Inr qs"
      by (simp add: floordivs_Inr)
    then have "floordivs (zip db ?p) = Inl ZeroDivisionError"
      using floordivs_error[of "zip db ?p"] by (cases "floordivs (zip db ?p)") auto
    then show ?thesis by (simp add: rc)
  qed
  show "\<exists>cov'. reconcile diff cov = Inr (diff, cov')
          \<and> lazy_shape cov' = map2 (\<lambda>d c. d div c * c) db (replicate ?k 1 @ cb) @ [n, n']"
    if z: "0 \<notin> set cb"
  proof -
    let ?reps = "map2 (div) db ?p"
    have "0 \<notin> set (map snd (zip db ?p))"
      using z p lp by (simp add: map_snd_zip)
    then have fd: "floordivs (zip db ?p) = Inr ?reps"
      by (simp add: floordivs_Inr)
    have lr: "length ?reps = length db" using lp by simp
    have "0 < length db" using dbne by simp
    then have a: "\<not> (length (?reps @ [1, 1]) < 3 \<or> py_suffix 2 (?reps @ [1, 1]) \<noteq> [1, 1])"
      using lr by (simp add: py_suffix_def)
    have b: "\<not> length (?reps @ [1, 1]) < ndim (evaluate cov)"
      using assms(1,4) lr by (simp add: ndim_def lazy_shape_def)
    obtain cov' where rp: "lazy_repeat cov (?reps @ [1, 1]) = Inr cov'"
    proof -
      have "\<exists>c. lazy_repeat cov (?reps @ [1, 1]) = Inr c"
        unfolding lazy_repeat_def tensor_repeat_def Let_def
        by (simp only: a b if_False ebind_Inr) blast
      then show ?thesis using that by blast
    qed
    have k: "length (?reps @ [1, 1]) - ndim (evaluate cov) = ?k"
      using assms(1) lp by (simp add: ndim_def lazy_shape_def)
    have k2: "Suc (Suc (length db)) - ndim (evaluate cov) = ?k"
      using assms(1) by (simp add: ndim_def lazy_shape_def)
    have "shape (evaluate cov') = map2 (*) (?reps @ [1, 1]) (?p @ [n, n'])"
      using tensor_repeat_shape[OF lazy_repeat_Inr[OF rp]] assms(1)
      unfolding p by (simp add: lazy_shape_def k2)
    also have "\<dots> = map2 (*) ?reps ?p @ [n, n']"
      using lr lp by simp
    also have "map2 (*) ?reps ?p = map2 (\<lambda>d c. d div c * c) db ?p"
      by (rule map2_mult_div)
    finally have "lazy_shape cov' = map2 (\<lambda>d c. d div c * c) db (replicate ?k 1 @ cb) @ [n, n']"
      unfolding p by (simp add: lazy_shape_def)
    then show ?thesis using fd rp by (auto simp: rc)
  qed
qed

lemma log_prob_reconcile_error:
  assumes "fast_log_prob st"
    and "validate_args A \<longrightarrow> torch_validate_sample ops (batch_shape A) (event_shape A) value"
    and "lazy_covariance_matrix A = Inr lc" and "tsub value (loc A) = Inr diff"
    and "reconcile diff lc = Inl e"
  shows "log_prob ops st A value = Inl e"
  using assms by (auto simp: log_prob_def)

lemma log_prob_fused_error:
  assumes "fast_log_prob st"
    and "validate_args A \<longrightarrow> torch_validate_sample ops (batch_shape A) (event_shape A) value"
    and "lazy_covariance_matrix A = Inr lc" and "tsub value (loc A) = Inr diff"
    and "reconcile diff lc = Inr (diff', cov')"
    and "inv_quad_logdet ops cov' (unsqueeze_last diff') = Inl e"
  shows "log_prob ops st A value = Inl e"
  using assms by (auto simp: log_prob_def)

lemma log_prob_fused_ok:
  assumes "fast_log_prob st"
    and "validate_args A \<longrightarrow> torch_validate_sample ops (batch_shape A) (event_shape A) value"
    and "lazy_covariance_matrix A = Inr lc" and "tsub value (loc A) = Inr diff"
    and "reconcile diff lc = Inr (diff', cov')"
    and "inv_quad_logdet ops cov' (unsqueeze_last diff') = Inr r" and "shape diff' \<noteq> []"
  shows "\<exists>res. log_prob ops st A value = Inr res"
proof -
  obtain iq ld where iql: "inv_quad_logdet ops cov' (unsqueeze_last diff') = Inr (iq, ld)"
    using assms(6) by (cases r) simp
  note iq = inv_quad_logdet_Inr[OF iql]
  obtain pre d where "shape diff' = pre @ [d]"
    using assms(7) by (cases "shape diff'" rule: rev_cases) auto
  then have d: "size_at (shape diff') (- 1) = Inr d"
    by (simp add: size_at_last)
  have "shape (tmap (\<lambda>x. x + 0) iq) = shape ld"
    by (subst iq(1), subst iq(2)) simp
  then have "broadcast_shape (shape (tmap (\<lambda>x. x + 0) iq)) (shape ld) = Inr (shape ld)"
    by simp
  then obtain s where s: "tadd (tmap (\<lambda>x. x + 0) iq) ld = Inr s"
    unfolding tadd_def using tbinop_ok by blast
  show ?thesis
    using assms(1-5) iql d s by (auto simp: log_prob_def)
qed

lemma log_prob_fast_steps:
  assumes "fast_log_prob st" and "log_prob ops st A value = Inr res"
  shows "\<exists>lc diff diff' cov' r.
            lazy_covariance_matrix A = Inr lc \<and> tsub value (loc A) = Inr diff
            \<and> reconcile diff lc = Inr (diff', cov')
            \<and> inv_quad_logdet ops cov' (unsqueeze_last diff') = Inr r
            \<and> shape res = lazy_batch_shape cov'"
proof -
  from assms obtain lc diff diff' cov' iq ld d s where
    lc: "lazy_covariance_matrix A = Inr lc" and diff: "tsub value (loc A) = Inr diff"
    and rc: "reconcile diff lc = Inr (diff', cov')"
    and iql: "inv_quad_logdet ops cov' (unsqueeze_last diff') = Inr (iq, ld)"
    and d: "size_at (shape diff') (- 1) = Inr d"
    and s: "tadd (tmap (\<lambda>x. x) iq) ld = Inr s"
    and res: "res = tmap ((*) (- (1 / 2))) (tmap (\<lambda>x. x + real d * ln (2 * pi)) s)"
    by (auto simp: log_prob_def ebind_eq_Inr split: if_splits)
  from log_prob_fast[OF assms] obtain lc2 diff2 diff2' cov2 where
    "lazy_covariance_matrix A = Inr lc2" "tsub value (loc A) = Inr diff2"
    "reconcile diff2 lc2 = Inr (diff2', cov2)"
    "res = Tensor (lazy_batch_shape cov2)
                 (map (\<lambda>i. - 0.5 * (fst (inv_quad_logdet_at ops (evaluate cov2) (unsqueeze_last diff2') i)
                                  + snd (inv_quad_logdet_at ops (evaluate cov2) (unsqueeze_last diff2') i)
                                  + real (last (shape diff2')) * ln (2 * pi)))
                    [0..<prod_list (lazy_batch_shape cov2)])"
    by blast
  then have "shape res = lazy_batch_shape cov'"
    using lc diff rc by simp
  then show ?thesis using lc diff rc iql by blast
qed

lemma log_prob_returns_iff:
  assumes "fast_log_prob st"
    and "validate_args A \<longrightarrow> torch_validate_sample ops (batch_shape A) (event_shape A) value"
    and "lazy_covariance_matrix A = Inr lc" and "lazy_shape lc = cb @ [d, d]"
    and "broadcast_shape (shape value) (shape (loc A)) = Inr (db @ [d])"
  shows "(\<exists>res. log_prob ops st A value = Inr res) \<longleftrightarrow>
           db = cb
           \<or> (length db < length cb \<and> expandable db cb)
           \<or> (length cb \<le> length db \<and> 0 \<notin> set cb
                \<and> list_all2 (\<lambda>x c. c dvd x) db (replicate (length db - length cb) 1 @ cb))"
    and "log_prob ops st A value = Inr res \<Longrightarrow> shape res = (if length db < length cb then cb else db)"
proof -
  let ?p = "replicate (length db - length cb) 1 @ cb"
  obtain diff where diff: "tsub value (loc A) = Inr diff" and sd: "shape diff = db @ [d]"
    unfolding tsub_def using tbinop_ok[OF assms(5)] by blast
  have bdb: "butlast (shape diff) = db" by (simp add: sd butlast_append)
  have bs: "lazy_batch_shape lc = cb"
    using assms(4) by (simp add: lazy_batch_shape_def butlast_append)
  note ok = log_prob_fused_ok[OF assms(1,2,3) diff]
  note steps = log_prob_fast_steps[OF assms(1)]
  have fused: "\<exists>r. inv_quad_logdet ops c (unsqueeze_last t) = Inr r"
    if "lazy_shape c = mb @ [d, d]" "shape t = mb @ [d]" for c t mb
    using inv_quad_logdet_ok[OF that(1), of "unsqueeze_last t" 1 ops] that(2)
    by (auto simp: unsqueeze_last_def)
  consider (same) "db = cb" | (grow) "db \<noteq> cb" "length db < length cb"
    | (tile) "db \<noteq> cb" "length cb \<le> length db"
    by fastforce
  then have "((\<exists>res. log_prob ops st A value = Inr res) \<longleftrightarrow>
           db = cb
           \<or> (length db < length cb \<and> expandable db cb)
           \<or> (length cb \<le> length db \<and> 0 \<notin> set cb \<and> list_all2 (\<lambda>x c. c dvd x) db ?p))
       \<and> (\<forall>res. log_prob ops st A value = Inr res \<longrightarrow> shape res = (if length db < length cb then cb else db))"
  proof cases
    case same
    have rc: "reconcile diff lc = Inr (diff, lc)"
      using reconcile_same[of diff lc] bdb bs same by simp
    obtain r where "inv_quad_logdet ops lc (unsqueeze_last diff) = Inr r"
      using fused[OF assms(4)[folded same] sd] by blast
    from ok[OF rc this] have ex: "\<exists>res. log_prob ops st A value = Inr res" by (simp add: sd)
    have "shape res = (if length db < length cb then cb else db)"
      if "log_prob ops st A value = Inr res" for res
      using steps[OF that] diff rc bs same assms(3) by auto
    then show ?thesis using ex same by blast
  next
    case grow
    have rcd: "reconcile diff lc = ebind (tensor_expand diff (cb @ [d])) (\<lambda>diff'. Inr (diff', lc))"
      using reconcile_expand[OF assms(4), of diff] grow bdb by simp
    have ex: "expandable (shape diff) (cb @ [d]) \<longleftrightarrow> expandable db cb"
      unfolding sd by (rule expandable_snoc)
    show ?thesis
    proof (cases "expandable db cb")
      case True
      then obtain diff' where te: "tensor_expand diff (cb @ [d]) = Inr diff'" and sh: "shape diff' = cb @ [d]"
        using ex by (auto simp: tensor_expand_def)
      have rc: "reconcile diff lc = Inr (diff', lc)" by (simp add: rcd te)
      obtain r where "inv_quad_logdet ops lc (unsqueeze_last diff') = Inr r"
        using fused[OF assms(4) sh] by blast
      from ok[OF rc this] have e: "\<exists>res. log_prob ops st A value = Inr res" by (simp add: sh)
      have "shape res = (if length db < length cb then cb else db)"
        if "log_prob ops st A value = Inr res" for res
        using steps[OF that] diff rc bs grow assms(3) by auto
      then show ?thesis using e True grow by blast
    next
      case False
      then have "tensor_expand diff (cb @ [d]) = Inl (RuntimeError InvalidShape)"
        using ex by (simp add: tensor_expand_def)
      then have "reconcile diff lc = Inl (RuntimeError InvalidShape)" by (simp add: rcd)
      from log_prob_reconcile_error[OF assms(1,2,3) diff this]
      have "\<nexists>res. log_prob ops st A value = Inr res" by simp
      then show ?thesis using False grow by auto
    qed
  next
    case tile
    note rt = reconcile_tile[OF assms(4) bdb tile]
    have lp: "length db = length ?p" using tile(2) by simp
    have dbne: "db \<noteq> []" using tile by (cases db) auto
    show ?thesis
    proof (cases "0 \<in> set cb")
      case True
      from log_prob_reconcile_error[OF assms(1,2,3) diff rt(1)[OF True]]
      have "\<nexists>res. log_prob ops st A value = Inr res" by simp
      then show ?thesis using True tile by auto
    next
      case False
      from rt(2)[OF False] obtain cov' where rc: "reconcile diff lc = Inr (diff, cov')"
        and sh: "lazy_shape cov' = map2 (\<lambda>d c. d div c * c) db ?p @ [d, d]"
        by blast
      have b': "lazy_batch_shape cov' = map2 (\<lambda>d c. d div c * c) db ?p"
        unfolding lazy_batch_shape_def sh by (simp add: butlast_append)
      have iff: "lazy_batch_shape cov' = db \<longleftrightarrow> list_all2 (\<lambda>x c. c dvd x) db ?p"
        unfolding b' using lp by (rule map2_div_mult_eq_iff)
      show ?thesis
      proof (cases "list_all2 (\<lambda>x c. c dvd x) db ?p")
        case True
        then have "lazy_shape cov' = db @ [d, d]"
          using iff b' sh by simp
        then obtain r where "inv_quad_logdet ops cov' (unsqueeze_last diff) = Inr r"
          using fused[OF _ sd] by blast
        from ok[OF rc this] have e: "\<exists>res. log_prob ops st A value = Inr res" by (simp add: sd)
        have "shape res = (if length db < length cb then cb else db)"
          if "log_prob ops st A value = Inr res" for res
          using steps[OF that] diff rc iff True tile assms(3) by auto
        then show ?thesis using e True False tile by blast
      next
        case nd: False
        have "\<nexists>res. log_prob ops st A value = Inr res"
        proof
          assume "\<exists>res. log_prob ops st A value = Inr res"
          then obtain res where "log_prob ops st A value = Inr res" by blast
          from steps[OF this] obtain r where
            r: "inv_quad_logdet ops cov' (unsqueeze_last diff) = Inr r"
            using diff rc assms(3) by auto
          have "3 \<le> ndim (unsqueeze_last diff)" using dbne sd
            by (cases db) (simp_all add: unsqueeze_last_def ndim_def)
          from inv_quad_logdet_batch[OF r this]
          have "lazy_batch_shape cov' = db"
            by (simp add: unsqueeze_last_def sd butlast_append)
          then show False using iff nd by simp
        qed
        then show ?thesis using nd tile by auto
      qed
    qed
  qed
  then show "(\<exists>res. log_prob ops st A value = Inr res) \<longleftrightarrow>
           db = cb
           \<or> (length db < length cb \<and> expandable db cb)
           \<or> (length cb \<le> length db \<and> 0 \<notin> set cb \<and> list_all2 (\<lambda>x c. c dvd x) db ?p)"
    and "log_prob ops st A value = Inr res \<Longrightarrow> shape res = (if length db < length cb then cb else db)"
    by blast+
qed

lemma paired_mvn_init:
  "mvn_init unit_numerics (Tensor [2] [0, 0]) (LazyCovariance paired_covar) False = Inr paired_mvn"
  by code_simp

subsection \<open>KL divergence\<close>

lemma cat_last_shape:
  "cat_last a b = Inr t \<Longrightarrow>
     butlast (shape a) = butlast (shape b) \<and> shape a \<noteq> []
     \<and> shape t = butlast (shape a) @ [last (shape a) + last (shape b)]"
  by (auto simp: cat_last_def Let_def ndim_def split: if_splits)

lemma tadd3_upt:
  assumes "tadd (tmap f (Tensor s (map a [0..<prod_list s]))) (tmap g (Tensor s (map b [0..<prod_list s]))) = Inr s1"
    and "tadd s1 (Tensor s (map c [0..<prod_list s])) = Inr s2"
  shows "s2 = Tensor s (map (\<lambda>i. f (a i) + g (b i) + c i) [0..<prod_list s])"
proof -
  have "s1 = Tensor s (map (\<lambda>i. f (a i) + g (b i)) [0..<prod_list s])"
    using assms(1) tadd_upt[of s "\<lambda>i. f (a i)" "\<lambda>i. g (b i)"]
    by (simp add: tmap_def comp_def del: upt_Suc)
  then show ?thesis
    using assms(2) tadd_upt[of s "\<lambda>i. f (a i) + g (b i)" c] by simp
qed

lemma kl_mvn_mvn_formula:
  assumes "kl_mvn_mvn ops p q = Inr res"
  shows "\<exists>output_shape p' q' pc qc mean_diffs rhs.
           mul_broadcast_shape (batch_shape p) (batch_shape q) = Inr output_shape
           \<and> (if output_shape \<noteq> batch_shape p then expand ops p output_shape else Inr p) = Inr p'
           \<and> (if output_shape \<noteq> batch_shape q then expand ops q output_shape else Inr q) = Inr q'
           \<and> lazy_covariance_matrix p' = Inr pc \<and> lazy_covariance_matrix q' = Inr qc
           \<and> tsub (loc p') (loc q') = Inr mean_diffs
           \<and> cat_last (unsqueeze_last mean_diffs) (evaluate (root_decomposition ops pc)) = Inr rhs
           \<and> lazy_batch_shape pc = lazy_batch_shape qc
           \<and> res = Tensor (lazy_batch_shape qc)
                (map (\<lambda>i. 0.5 * (snd (inv_quad_logdet_at ops (evaluate qc) rhs i)
                                 - logdet_at ops (evaluate pc) i
                                 + fst (inv_quad_logdet_at ops (evaluate qc) rhs i)
                                 - real (last (shape mean_diffs))))
                   [0..<prod_list (lazy_batch_shape qc)])"
proof -
  from assms obtain os p' q' qc pc md rhs tq ldq d s1 s2 where
    os: "mul_broadcast_shape (batch_shape p) (batch_shape q) = Inr os"
    and p': "(if os \<noteq> batch_shape p then expand ops p os else Inr p) = Inr p'"
    and q': "(if os \<noteq> batch_shape q then expand ops q os else Inr q) = Inr q'"
    and qc: "lazy_covariance_matrix q' = Inr qc" and pc: "lazy_covariance_matrix p' = Inr pc"
    and md: "tsub (loc p') (loc q') = Inr md"
    and rhs: "cat_last (unsqueeze_last md) (evaluate (root_decomposition ops pc)) = Inr rhs"
    and iql: "inv_quad_logdet ops qc rhs = Inr (tq, ldq)"
    and d: "size_at (shape md) (- 1) = Inr d"
    and s1: "tadd (tmap (\<lambda>x. x) ldq) (tmap (\<lambda>x. - x) (logdet ops pc)) = Inr s1"
    and s2: "tadd s1 tq = Inr s2"
    and res: "res = tmap ((*) (1 / 2)) (tmap (\<lambda>x. x - real d) s2)"
    unfolding kl_mvn_mvn_def Let_def ebind_eq_Inr
    by (auto simp: ebind_eq_Inr)
  let ?bs = "lazy_batch_shape qc"
  let ?q = "inv_quad_logdet_at ops (evaluate qc) rhs"
  note iq = inv_quad_logdet_Inr[OF iql]
  have dl: "shape md \<noteq> []" "d = last (shape md)" using size_at_minus_one[OF d] by simp_all
  have rs: "shape rhs = shape md @ [1 + last (lazy_shape (root_decomposition ops pc))]"
    and bl: "shape md = butlast (lazy_shape (root_decomposition ops pc))"
    using cat_last_shape[OF rhs] by (simp_all add: unsqueeze_last_def lazy_shape_def)
  have "2 \<le> ndim rhs" using dl(1) rs by (cases "shape md") (simp_all add: ndim_def)
  then have "?bs = butlast (butlast (shape rhs))"
    using iql by (auto simp: inv_quad_logdet_def Let_def split: if_splits)
  then have bq: "?bs = butlast (shape md)" by (simp add: rs butlast_append)
  have "butlast (lazy_shape (root_decomposition ops pc)) = butlast (lazy_shape pc)"
    by (simp add: root_decomposition_def Let_def lazy_shape_def)
  then have bp: "lazy_batch_shape pc = ?bs"
    using bl bq by (simp add: lazy_batch_shape_def)
  have lp: "logdet ops pc = Tensor ?bs (map (logdet_at ops (evaluate pc)) [0..<prod_list ?bs])"
    by (simp add: logdet_def bp)
  have "s2 = Tensor ?bs (map (\<lambda>i. snd (?q i) + - logdet_at ops (evaluate pc) i + fst (?q i)) [0..<prod_list ?bs])"
    using s1 s2 unfolding lp
    by (subst (asm) iq(2), subst (asm) iq(1)) (rule tadd3_upt)
  then have "res = Tensor ?bs
      (map (\<lambda>i. 0.5 * (snd (?q i) - logdet_at ops (evaluate pc) i + fst (?q i) - real (last (shape md))))
         [0..<prod_list ?bs])"
    by (simp add: res dl(2) tmap_def comp_def del: upt_Suc)
  with os p' q' pc qc md rhs bp show ?thesis by blast
qed

lemma indices_1d: "indices [k] = map (\<lambda>i. [i]) [0..<k]"
  by (simp add: concat_map_singleton del: upt_Suc)

lemma indices_row: "indices [Suc 0, k] = map (\<lambda>j. [0, j]) [0..<k]"
proof -
  have "indices [Suc 0, k] = map ((#) 0) (indices [k])"
    by simp
  then show ?thesis
    unfolding indices_1d by (simp add: comp_def del: upt_Suc)
qed

lemma indices_col: "indices [k, Suc 0] = map (\<lambda>j. [j, 0]) [0..<k]"
proof -
  have a: "indices [Suc 0] = [[0]]"
    by simp
  have "indices [k, Suc 0] = concat (map (\<lambda>i. map ((#) i) (indices [Suc 0])) [0..<k])"
    by (simp only: indices.simps)
  also have "\<dots> = concat (map (\<lambda>i. [[i, 0]]) [0..<k])"
    unfolding a by simp
  also have "\<dots> = map (\<lambda>j. [j, 0]) [0..<k]"
    by (simp add: concat_map_singleton)
  finally show ?thesis .
qed

lemma map_nth_upt: "length ys = k \<Longrightarrow> map (\<lambda>j. ys ! j) [0..<k] = ys"
  using map_nth[of ys] by auto

lemma entry_row: "entry (Tensor [Suc 0, k] ys) [0, j] = ys ! j"
  by (simp add: entry_def)

lemma entry_col: "entry (Tensor [k, Suc 0] ys) [j, 0] = ys ! j"
  by (simp add: entry_def)

lemma norm_dims_swap: "norm_dims (Suc (Suc 0)) [1, 0] = Some [Suc 0, 0]"
  by (simp add: norm_dims_def)

lemma position_swap: "position 0 [Suc 0, 0] = Suc 0" "position (Suc 0) [Suc 0, 0] = 0"
  by (simp_all add: position_def)

lemma transpose_row:
  assumes "length ys = k"
  shows "transpose_last (Tensor [Suc 0, k] ys) = Inr (Tensor [k, Suc 0] ys)"
proof -
  have "map (\<lambda>idx. entry (Tensor [Suc 0, k] ys) [idx ! Suc 0, idx ! 0]) (indices [k, Suc 0])
      = map (\<lambda>j. ys ! j) [0..<k]"
    unfolding indices_col by (simp add: comp_def entry_row del: upt_Suc)
  also have "\<dots> = ys" using assms by (rule map_nth_upt)
  finally have m: "map (\<lambda>idx. entry (Tensor [Suc 0, k] ys) [idx ! Suc 0, idx ! 0]) (indices [k, Suc 0]) = ys" .
  have "transpose_last (Tensor [Suc 0, k] ys)
      = Inr (Tensor [k, Suc 0]
          (map (\<lambda>idx. entry (Tensor [Suc 0, k] ys) [idx ! Suc 0, idx ! 0]) (indices [k, Suc 0])))"
    by (simp add: transpose_last_def permute_def ndim_def norm_dims_swap position_swap tabulate_def)
  then show ?thesis unfolding m .
qed

lemma matmul_row_col:
  assumes "length ys = k"
  shows "matmul (Tensor [Suc 0, k] ys) (Tensor [k, Suc 0] ys)
         = Inr (Tensor [Suc 0, Suc 0] [sum_list (map (\<lambda>x. x * x) ys)])"
proof -
  have "(\<Sum>j\<leftarrow>[0..<k]. ys ! j * ys ! j) = sum_list (map (\<lambda>x. x * x) (map (\<lambda>j. ys ! j) [0..<k]))"
    by (simp add: comp_def del: upt_Suc)
  also have "\<dots> = sum_list (map (\<lambda>x. x * x) ys)"
    unfolding map_nth_upt[OF assms] ..
  finally have s: "(\<Sum>j\<leftarrow>[0..<k]. ys ! j * ys ! j) = sum_list (map (\<lambda>x. x * x) ys)" .
  have i: "indices [Suc 0, Suc 0] = [[0, 0]]"
    by simp
  have "matmul (Tensor [Suc 0, k] ys) (Tensor [k, Suc 0] ys)
      = Inr (Tensor [Suc 0, Suc 0] [\<Sum>j\<leftarrow>[0..<k]. ys ! j * ys ! j])"
    unfolding matmul_def tabulate_def
    by (simp add: ndim_def Let_def bidx_def entry_row entry_col i del: upt_Suc indices.simps)
  then show ?thesis unfolding s .
qed

lemma is_root_unit:
  "is_root ops (LazyTensor (Tensor [1, 1] [s]))
     \<longleftrightarrow> sum_list (map (\<lambda>x. x * x)
           (map (root_at ops (Tensor [1, 1] [s])) [0..<root_rank ops (Tensor [1, 1] [s])])) = s"
  by (simp add: is_root_def root_decomposition_def lazy_shape_def Let_def transpose_row
      matmul_row_col del: upt_Suc)

lemma cat_last_row:
  assumes "length ys = k"
  shows "cat_last (Tensor [Suc 0, Suc 0] [x]) (Tensor [Suc 0, k] ys) = Inr (Tensor [Suc 0, Suc k] (x # ys))"
proof -
  let ?f = "\<lambda>idx. if last idx < Suc 0 then entry (Tensor [Suc 0, Suc 0] [x]) idx
                  else entry (Tensor [Suc 0, k] ys) (butlast idx @ [last idx - Suc 0])"
  have u: "[0..<Suc k] = 0 # map Suc [0..<k]"
    by (simp only: upt_conv_Cons zero_less_Suc map_Suc_upt)
  have "map ?f (indices [Suc 0, Suc k]) = map (\<lambda>j. ?f [0, j]) (0 # map Suc [0..<k])"
    unfolding indices_row u by (simp only: map_map comp_def)
  also have "\<dots> = ?f [0, 0] # map (\<lambda>j. ?f [0, Suc j]) [0..<k]"
    by (simp only: list.map map_map comp_def)
  also have "\<dots> = x # map (\<lambda>j. ys ! j) [0..<k]"
    by (simp add: entry_row entry_def del: upt_Suc)
  also have "\<dots> = x # ys" unfolding map_nth_upt[OF assms] ..
  finally have m: "map ?f (indices [Suc 0, Suc k]) = x # ys" .
  have "cat_last (Tensor [Suc 0, Suc 0] [x]) (Tensor [Suc 0, k] ys)
      = Inr (Tensor [Suc 0, Suc k] (map ?f (indices [Suc 0, Suc k])))"
    unfolding cat_last_def tabulate_def
    by (simp add: ndim_def Let_def del: upt_Suc indices.simps)
  then show ?thesis unfolding m .
qed

lemma tbinop_scalars: "tbinop f (Tensor [] [a]) (Tensor [] [b]) = Inr (Tensor [] [f a b])"
  by (simp add: tbinop_def tabulate_def bidx_def entry_def)

lemma tbinop_singletons: "tbinop f (Tensor [Suc 0] [a]) (Tensor [Suc 0] [b]) = Inr (Tensor [Suc 0] [f a b])"
  by (simp add: tbinop_def tabulate_def bidx_def entry_def)

lemma tensor_expand_unit_matrix:
  "tensor_expand (Tensor [Suc 0, Suc 0] [a]) [Suc 0, Suc 0] = Inr (Tensor [Suc 0, Suc 0] [a])"
  by (simp add: tensor_expand_def expandable_def tabulate_def bidx_def entry_def)

lemma tensor_expand_unit_vector:
  "tensor_expand (Tensor [Suc 0] [a]) [Suc 0] = Inr (Tensor [Suc 0] [a])"
  by (simp add: tensor_expand_def expandable_def tabulate_def bidx_def entry_def)

lemma unit_instance:
  assumes "mvn_init ops (Tensor [1] [x]) cv va = Inr p"
    and "cv = DenseCovariance (Tensor [1, 1] [1]) \<or> cv = LazyCovariance (LazyTensor (Tensor [1, 1] [1]))"
  shows "loc p = Tensor [1] [x] \<and> batch_shape p = []
         \<and> lazy_covariance_matrix p = Inr (LazyTensor (Tensor [1, 1] [1]))"
  using assms
  by (auto simp: mvn_init_def torch_mvn_init_def ebind_eq_Inr mul_broadcast_shape_def
      broadcast_shape_def lazy_shape_def py_suffix_def ndim_def lazy_covariance_matrix_def
      get_covar_def torch_covariance_def lazify_def tensor_expand_unit_matrix
      tensor_expand_unit_vector split: if_splits)

lemma kl_unit_scenario:
  assumes p: "loc p = Tensor [1] [0]" "batch_shape p = []"
      "lazy_covariance_matrix p = Inr (LazyTensor (Tensor [1, 1] [1]))"
    and q: "loc q = Tensor [1] [1]" "batch_shape q = []"
      "lazy_covariance_matrix q = Inr (LazyTensor (Tensor [1, 1] [1]))"
    and root: "is_root ops (LazyTensor (Tensor [1, 1] [1]))"
    and exact: "exact_at_identity ops (Tensor [1, 1] [1])"
  shows "kl_mvn_mvn ops p q = Inr (scalar 0.5)"
proof -
  let ?i = "Tensor [Suc 0, Suc 0] [1]"
  let ?r = "map (root_at ops ?i) [0..<root_rank ops ?i]"
  have sq: "sum_list (map (\<lambda>x. x * x) ?r) = 1"
    using root is_root_unit[of ops 1] by (simp add: comp_def del: upt_Suc)
  have rt: "evaluate (root_decomposition ops (LazyTensor ?i)) = Tensor [Suc 0, root_rank ops ?i] ?r"
    by (simp add: root_decomposition_def lazy_shape_def Let_def)
  have md: "tsub (Tensor [Suc 0] [0]) (Tensor [Suc 0] [1]) = Inr (Tensor [Suc 0] [- 1])"
    by (simp add: tsub_def tbinop_singletons)
  have rhs: "cat_last (unsqueeze_last (Tensor [Suc 0] [- 1])) (Tensor [Suc 0, root_rank ops ?i] ?r)
      = Inr (Tensor [Suc 0, Suc (root_rank ops ?i)] (- 1 # ?r))"
    using cat_last_row[of ?r "root_rank ops ?i" "- 1"] by (simp add: unsqueeze_last_def)
  have iq: "inv_quad_logdet_at ops ?i (Tensor [Suc 0, Suc (root_rank ops ?i)] (- 1 # ?r)) 0 = (2, 0)"
    using exact sq by (simp add: exact_at_identity_def del: upt_Suc)
  have ld: "logdet_at ops ?i 0 = 0"
    using exact by (simp add: exact_at_identity_def)
  have u1: "[0..<Suc 0] = [0]"
    by simp
  have iql: "inv_quad_logdet ops (LazyTensor ?i) (Tensor [Suc 0, Suc (root_rank ops ?i)] (- 1 # ?r))
      = Inr (Tensor [] [2], Tensor [] [0])"
    using iq by (simp add: inv_quad_logdet_def lazy_shape_def lazy_batch_shape_def ndim_def Let_def u1
        del: upt_Suc)
  have lp: "logdet ops (LazyTensor ?i) = Tensor [] [0]"
    using ld by (simp add: logdet_def lazy_batch_shape_def lazy_shape_def)
  show ?thesis
    unfolding kl_mvn_mvn_def
    by (simp add: p q mul_broadcast_shape_def rt md rhs iql lp size_at_def tadd_def tmap_def
        tbinop_scalars scalar_def u1 del: upt_Suc)
qed

lemma bc_rev_expandable:
  "bc_rev xs ys = Some r \<Longrightarrow>
     length xs \<le> length r \<and> list_all2 (\<lambda>n m. n = m \<or> n = Suc 0) xs (take (length xs) r)
     \<and> length ys \<le> length r \<and> list_all2 (\<lambda>n m. n = m \<or> n = Suc 0) ys (take (length ys) r)"
proof (induction xs ys arbitrary: r rule: bc_rev.induct)
  case (1 ys)
  then show ?case by (simp add: list_all2_same)
next
  case (2 x xs)
  then show ?case by (simp add: list_all2_same)
next
  case (3 x xs y ys)
  then show ?case by (auto split: if_splits)
qed

lemma list_all2_rev_take:
  assumes "length a \<le> length s"
  shows "list_all2 P a (drop (length s - length a) s) \<longleftrightarrow> list_all2 P (rev a) (take (length a) (rev s))"
proof -
  have "take (length a) (rev s) = rev (drop (length s - length a) s)"
    by (simp add: take_rev)
  then show ?thesis by (simp add: list_all2_rev1)
qed

lemma broadcast_expandable:
  assumes "broadcast_shape a b = Inr s"
  shows "expandable a s" and "expandable b s"
proof -
  obtain r where r: "bc_rev (rev a) (rev b) = Some r" and s: "s = rev r"
    using assms by (auto simp: broadcast_shape_def split: option.splits)
  note e = bc_rev_expandable[OF r]
  have la: "length a \<le> length s" and lb: "length b \<le> length s" using e s by simp_all
  show "expandable a s"
    unfolding expandable_def using la list_all2_rev_take[OF la, of "\<lambda>n m. n = m \<or> n = 1"] e s
    by simp
  show "expandable b s"
    unfolding expandable_def using lb list_all2_rev_take[OF lb, of "\<lambda>n m. n = m \<or> n = 1"] e s
    by simp
qed

lemma expand_batch_shape:
  assumes "expand ops p os = Inr p'" and "shape (loc p) \<noteq> []"
    and "\<forall>c. covar p = Some c \<longrightarrow> 2 \<le> length (lazy_shape c)"
  shows "batch_shape p' = os"
proof -
  obtain c nl nc where c: "covar p = Some c"
    and nl: "tensor_expand (loc p) (os @ py_suffix 1 (shape (loc p))) = Inr nl"
    and nc: "tensor_expand (evaluate c) (os @ py_suffix 2 (lazy_shape c)) = Inr nc"
    and init: "mvn_init ops nl (LazyCovariance (LazyTensor nc)) False = Inr p'"
    using assms(1)
    by (auto simp: expand_def ebind_eq_Inr get_covar_def lazy_expand_def split: option.splits)
  have "shape nl = os @ py_suffix 1 (shape (loc p))" using nl by (rule tensor_expand_shape)
  then have b1: "butlast (shape nl) = os"
    using butlast_append_py_suffix_1[OF assms(2)] by simp
  have "length (py_suffix 2 (lazy_shape c)) = 2"
    using assms(3) c by (simp add: py_suffix_2_length)
  moreover have "shape nc = os @ py_suffix 2 (lazy_shape c)" using nc by (rule tensor_expand_shape)
  ultimately have b2: "butlast (butlast (shape nc)) = os"
    by (simp add: butlast2_append)
  show ?thesis
    using init by (auto simp: mvn_init_def ebind_eq_Inr mul_broadcast_shape_def lazy_shape_def b1 b2)
qed

lemma expand_carries:
  assumes "covar p = Some pc" and "shape (loc p) = bp @ [d]" and "lazy_shape pc = bp @ [d, d]"
    and "expandable bp os"
  shows "\<exists>p' pc'. expand ops p os = Inr p' \<and> lazy_covariance_matrix p' = Inr pc'
           \<and> shape (loc p') = os @ [d] \<and> lazy_shape pc' = os @ [d, d]"
proof -
  have p1: "py_suffix (Suc 0) (shape (loc p)) = [d]" and p2: "py_suffix 2 (lazy_shape pc) = [d, d]"
    using assms(2,3) by (simp_all add: py_suffix_def)
  have e1: "expandable (shape (loc p)) (os @ [d])"
    using assms(2,4) by (simp add: expandable_snoc)
  have e2: "expandable (shape (evaluate pc)) (os @ [d, d])"
    using assms(3,4) by (simp add: expandable_snoc2 lazy_shape_def)
  have ex: "expand ops p os =
      mvn_init ops (tabulate (os @ [d]) (\<lambda>idx. entry (loc p) (bidx (shape (loc p)) idx)))
        (LazyCovariance (LazyTensor (tabulate (os @ [d, d])
           (\<lambda>idx. entry (evaluate pc) (bidx (shape (evaluate pc)) idx))))) False"
    using assms(1)
    by (simp add: expand_def p1 p2 tensor_expand_def lazy_expand_def e1 e2 get_covar_def)
  have init: "mvn_init ops (tabulate (os @ [d]) f) (LazyCovariance (LazyTensor (tabulate (os @ [d, d]) g))) False
      = Inr \<lparr>islazy = True, loc = tabulate (os @ [d]) f,
              covar = Some (LazyTensor (tabulate (os @ [d, d]) g)),
              torch_covariance_matrix = None, validate_args = False,
              batch_shape = os, event_shape = [d]\<rparr>" for f g
    by (simp add: mvn_init_def mul_broadcast_shape_def lazy_shape_def butlast_append py_suffix_def)
  show ?thesis
    unfolding ex init
    by (simp add: lazy_covariance_matrix_def get_covar_def lazy_shape_def)
qed

lemma kl_core_returns:
  assumes "lazy_covariance_matrix p = Inr pc" and "shape (loc p) = os @ [d]"
    and "lazy_shape pc = os @ [d, d]"
    and "lazy_covariance_matrix q = Inr qc" and "shape (loc q) = os @ [d]"
    and "lazy_shape qc = os @ [d, d]"
  shows "\<exists>res.
     ebind (lazy_covariance_matrix q) (\<lambda>q_covar.
     ebind (lazy_covariance_matrix p) (\<lambda>p_covar.
     (let root_p_covar = evaluate (root_decomposition ops p_covar)
      in ebind (tsub (loc p) (loc q)) (\<lambda>mean_diffs.
         ebind (cat_last (unsqueeze_last mean_diffs) root_p_covar) (\<lambda>inv_quad_rhs.
         (let logdet_p_covar = logdet ops p_covar
          in ebind (inv_quad_logdet ops q_covar inv_quad_rhs) (\<lambda>(trace_plus_inv_quad_form, logdet_q_covar).
             ebind (size_at (shape mean_diffs) (- 1)) (\<lambda>d.
             ebind (tadd (tmap (\<lambda>x. x + 0) logdet_q_covar) (tmap (\<lambda>x. x * (- 1)) logdet_p_covar)) (\<lambda>s1.
             ebind (tadd s1 trace_plus_inv_quad_form) (\<lambda>s2.
               Inr (tmap (\<lambda>x. 0.5 * x) (tmap (\<lambda>x. x + (- real d)) s2)))))))))))) = Inr res"
proof -
  let ?r = "root_rank ops (evaluate pc)"
  have "broadcast_shape (shape (loc p)) (shape (loc q)) = Inr (os @ [d])"
    using assms(2,5) by simp
  then obtain md where md: "tsub (loc p) (loc q) = Inr md" "shape md = os @ [d]"
    unfolding tsub_def using tbinop_ok by blast
  have rt: "shape (evaluate (root_decomposition ops pc)) = os @ [d, ?r]"
    using assms(3) by (simp add: root_decomposition_def Let_def lazy_shape_def butlast_append)
  obtain rhs where rhs: "cat_last (unsqueeze_last md) (evaluate (root_decomposition ops pc)) = Inr rhs"
    "shape rhs = os @ [d, Suc ?r]"
    using md(2) rt by (simp add: cat_last_def unsqueeze_last_def ndim_def Let_def butlast_append)
  obtain tq ldq where iql: "inv_quad_logdet ops qc rhs = Inr (tq, ldq)"
    using inv_quad_logdet_ok[OF assms(6) rhs(2)] by blast
  note iq = inv_quad_logdet_Inr[OF iql]
  have bq: "lazy_batch_shape qc = os" and bp: "lazy_batch_shape pc = os"
    using assms(3,6) by (simp_all add: lazy_batch_shape_def butlast_append)
  have d: "size_at (shape md) (- 1) = Inr d"
    by (simp add: md(2) size_at_last)
  have "shape (tmap (\<lambda>x. x + 0) ldq) = os" "shape (tmap (\<lambda>x. x * (- 1)) (logdet ops pc)) = os"
    by (subst iq(2), simp add: bq) (simp add: logdet_def bp)
  then have "broadcast_shape (shape (tmap (\<lambda>x. x + 0) ldq)) (shape (tmap (\<lambda>x. x * (- 1)) (logdet ops pc))) = Inr os"
    by simp
  then obtain s1 where s1: "tadd (tmap (\<lambda>x. x + 0) ldq) (tmap (\<lambda>x. x * (- 1)) (logdet ops pc)) = Inr s1"
    "shape s1 = os"
    unfolding tadd_def using tbinop_ok by blast
  have "shape tq = os" by (subst iq(1)) (simp add: bq)
  then have "broadcast_shape (shape s1) (shape tq) = Inr os" using s1(2) by simp
  then obtain s2 where s2: "tadd s1 tq = Inr s2"
    unfolding tadd_def using tbinop_ok by blast
  show ?thesis
    using assms(1,4) md(1) rhs(1) iql d s1(1) s2 by (simp add: Let_def)
qed

lemma expand_or_keep:
  assumes "lazy_covariance_matrix p = Inr pc" and "shape (loc p) = bp @ [d]"
    and "lazy_shape pc = bp @ [d, d]" and "expandable bp os"
    and "os \<noteq> bp \<longrightarrow> covar p = Some pc"
  shows "\<exists>p' pc'. (if os \<noteq> bp then expand ops p os else Inr p) = Inr p'
           \<and> lazy_covariance_matrix p' = Inr pc'
           \<and> shape (loc p') = os @ [d] \<and> lazy_shape pc' = os @ [d, d]"
proof (cases "os = bp")
  case True
  then show ?thesis using assms(1,2,3) by simp
next
  case False
  then have "covar p = Some pc" using assms(5) by simp
  from expand_carries[OF this assms(2,3,4), of ops] False show ?thesis by simp
qed

lemma kl_returns:
  assumes p: "lazy_covariance_matrix p = Inr pc" "shape (loc p) = bp @ [d]"
      "lazy_shape pc = bp @ [d, d]" "batch_shape p = bp"
    and q: "lazy_covariance_matrix q = Inr qc" "shape (loc q) = bq @ [d]"
      "lazy_shape qc = bq @ [d, d]" "batch_shape q = bq"
    and os: "mul_broadcast_shape bp bq = Inr os"
    and ep: "os \<noteq> bp \<longrightarrow> covar p = Some pc" and eq: "os \<noteq> bq \<longrightarrow> covar q = Some qc"
  shows "\<exists>res. kl_mvn_mvn ops p q = Inr res"
proof -
  have e: "expandable bp os" "expandable bq os"
    using broadcast_expandable[of bp bq os] os by (simp_all add: mul_broadcast_shape_def)
  obtain p' pc' where p': "(if os \<noteq> bp then expand ops p os else Inr p) = Inr p'"
    "lazy_covariance_matrix p' = Inr pc'" "shape (loc p') = os @ [d]" "lazy_shape pc' = os @ [d, d]"
    using expand_or_keep[OF p(1,2,3) e(1) ep, of ops] by blast
  obtain q' qc' where q': "(if os \<noteq> bq then expand ops q os else Inr q) = Inr q'"
    "lazy_covariance_matrix q' = Inr qc'" "shape (loc q') = os @ [d]" "lazy_shape qc' = os @ [d, d]"
    using expand_or_keep[OF q(1,2,3) e(2) eq, of ops] by blast
  show ?thesis
    unfolding kl_mvn_mvn_def p(4) q(4) os ebind_Inr p'(1) q'(1)
    by (rule kl_core_returns[OF p'(2,3,4) q'(2,3,4)])
qed

text \<open>
  What holds of \<open>kl_mvn_mvn\<close>. Whenever it returns, both arguments were expanded to
  the broadcast of their batch shapes where they differed from it, and the value at
  every batch index is \<open>0.5 * (logdet_q - logdet_p + trace_plus_inv_quad_form - d)\<close>,
  where \<open>trace_plus_inv_quad_form\<close> and \<open>logdet_q\<close> are the two results of one fused
  call against the operator of \<open>q\<close> with the right-hand side \<open>[mean_diffs, R_p]\<close>,
  \<open>R_p\<close> the materialized root of the operator of \<open>p\<close>. It does return when mean and
  operator of each argument carry its batch shape, the event sizes agree, the batch
  shapes broadcast, and an argument that has to be expanded is in structured mode. For
  \<open>p = N([0], [[1]])\<close> and \<open>q = N([1], [[1]])\<close>, in either mode, the result is exactly
  0.5 whenever the primitives meet their contract at the identity of size one.
\<close>

lemma kl_mvn_mvn_value:
  "(\<forall>res. kl_mvn_mvn ops p q = Inr res \<longrightarrow>
      (\<exists>output_shape p' q' pc qc mean_diffs rhs.
           mul_broadcast_shape (batch_shape p) (batch_shape q) = Inr output_shape
           \<and> (if output_shape \<noteq> batch_shape p then expand ops p output_shape else Inr p) = Inr p'
           \<and> (if output_shape \<noteq> batch_shape q then expand ops q output_shape else Inr q) = Inr q'
           \<and> lazy_covariance_matrix p' = Inr pc \<and> lazy_covariance_matrix q' = Inr qc
           \<and> tsub (loc p') (loc q') = Inr mean_diffs
           \<and> cat_last (unsqueeze_last mean_diffs) (evaluate (root_decomposition ops pc)) = Inr rhs
           \<and> lazy_batch_shape pc = lazy_batch_shape qc
           \<and> res = Tensor (lazy_batch_shape qc)
                (map (\<lambda>i. 0.5 * (snd (inv_quad_logdet_at ops (evaluate qc) rhs i)
                                 - logdet_at ops (evaluate pc) i
                                 + fst (inv_quad_logdet_at ops (evaluate qc) rhs i)
                                 - real (last (shape mean_diffs))))
                   [0..<prod_list (lazy_batch_shape qc)])
           \<and> (shape (loc p) \<noteq> [] \<and> (\<forall>c. covar p = Some c \<longrightarrow> 2 \<le> length (lazy_shape c))
                \<longrightarrow> batch_shape p' = output_shape)
           \<and> (shape (loc q) \<noteq> [] \<and> (\<forall>c. covar q = Some c \<longrightarrow> 2 \<le> length (lazy_shape c))
                \<longrightarrow> batch_shape q' = output_shape)))
   \<and> (\<forall>pc qc bp bq d os.
         lazy_covariance_matrix p = Inr pc \<and> shape (loc p) = bp @ [d]
         \<and> lazy_shape pc = bp @ [d, d] \<and> batch_shape p = bp
         \<and> lazy_covariance_matrix q = Inr qc \<and> shape (loc q) = bq @ [d]
         \<and> lazy_shape qc = bq @ [d, d] \<and> batch_shape q = bq
         \<and> mul_broadcast_shape bp bq = Inr os
         \<and> (os \<noteq> bp \<longrightarrow> covar p = Some pc) \<and> (os \<noteq> bq \<longrightarrow> covar q = Some qc)
         \<longrightarrow> (\<exists>res. kl_mvn_mvn ops p q = Inr res))
   \<and> (\<forall>cp cq va vb p0 q1.
         mvn_init ops (Tensor [1] [0]) cp va = Inr p0 \<and> mvn_init ops (Tensor [1] [1]) cq vb = Inr q1
         \<and> (cp = DenseCovariance (Tensor [1, 1] [1]) \<or> cp = LazyCovariance (LazyTensor (Tensor [1, 1] [1])))
         \<and> (cq = DenseCovariance (Tensor [1, 1] [1]) \<or> cq = LazyCovariance (LazyTensor (Tensor [1, 1] [1])))
         \<and> is_root ops (LazyTensor (Tensor [1, 1] [1]))
         \<and> exact_at_identity ops (Tensor [1, 1] [1])
         \<longrightarrow> kl_mvn_mvn ops p0 q1 = Inr (scalar 0.5))"
proof (intro conjI allI impI)
  fix res assume r: "kl_mvn_mvn ops p q = Inr res"
  from kl_mvn_mvn_formula[OF r] obtain os p' q' pc qc md rhs where
    f: "mul_broadcast_shape (batch_shape p) (batch_shape q) = Inr os"
      "(if os \<noteq> batch_shape p then expand ops p os else Inr p) = Inr p'"
      "(if os \<noteq> batch_shape q then expand ops q os else Inr q) = Inr q'"
      "lazy_covariance_matrix p' = Inr pc" "lazy_covariance_matrix q' = Inr qc"
      "tsub (loc p') (loc q') = Inr md"
      "cat_last (unsqueeze_last md) (evaluate (root_decomposition ops pc)) = Inr rhs"
      "lazy_batch_shape pc = lazy_batch_shape qc"
      "res = Tensor (lazy_batch_shape qc)
                (map (\<lambda>i. 0.5 * (snd (inv_quad_logdet_at ops (evaluate qc) rhs i)
                                 - logdet_at ops (evaluate pc) i
                                 + fst (inv_quad_logdet_at ops (evaluate qc) rhs i)
                                 - real (last (shape md))))
                   [0..<prod_list (lazy_batch_shape qc)])"
    by blast
  have bp: "batch_shape p' = os"
    if "shape (loc p) \<noteq> [] \<and> (\<forall>c. covar p = Some c \<longrightarrow> 2 \<le> length (lazy_shape c))"
    using f(2) that expand_batch_shape[of ops p os p'] by (auto split: if_splits)
  have bq: "batch_shape q' = os"
    if "shape (loc q) \<noteq> [] \<and> (\<forall>c. covar q = Some c \<longrightarrow> 2 \<le> length (lazy_shape c))"
    using f(3) that expand_batch_shape[of ops q os q'] by (auto split: if_splits)
  show "\<exists>output_shape p' q' pc qc mean_diffs rhs.
           mul_broadcast_shape (batch_shape p) (batch_shape q) = Inr output_shape
           \<and> (if output_shape \<noteq> batch_shape p then expand ops p output_shape else Inr p) = Inr p'
           \<and> (if output_shape \<noteq> batch_shape q then expand ops q output_shape else Inr q) = Inr q'
           \<and> lazy_covariance_matrix p' = Inr pc \<and> lazy_covariance_matrix q' = Inr qc
           \<and> tsub (loc p') (loc q') = Inr mean_diffs
           \<and> cat_last (unsqueeze_last mean_diffs) (evaluate (root_decomposition ops pc)) = Inr rhs
           \<and> lazy_batch_shape pc = lazy_batch_shape qc
           \<and> res = Tensor (lazy_batch_shape qc)
                (map (\<lambda>i. 0.5 * (snd (inv_quad_logdet_at ops (evaluate qc) rhs i)
                                 - logdet_at ops (evaluate pc) i
                                 + fst (inv_quad_logdet_at ops (evaluate qc) rhs i)
                                 - real (last (shape mean_diffs))))
                   [0..<prod_list (lazy_batch_shape qc)])
           \<and> (shape (loc p) \<noteq> [] \<and> (\<forall>c. covar p = Some c \<longrightarrow> 2 \<le> length (lazy_shape c))
                \<longrightarrow> batch_shape p' = output_shape)
           \<and> (shape (loc q) \<noteq> [] \<and> (\<forall>c. covar q = Some c \<longrightarrow> 2 \<le> length (lazy_shape c))
                \<longrightarrow> batch_shape q' = output_shape)"
    using f bp bq by blast
next
  fix pc qc bp bq d os
  assume "lazy_covariance_matrix p = Inr pc \<and> shape (loc p) = bp @ [d]
         \<and> lazy_shape pc = bp @ [d, d] \<and> batch_shape p = bp
         \<and> lazy_covariance_matrix q = Inr qc \<and> shape (loc q) = bq @ [d]
         \<and> lazy_shape qc = bq @ [d, d] \<and> batch_shape q = bq
         \<and> mul_broadcast_shape bp bq = Inr os
         \<and> (os \<noteq> bp \<longrightarrow> covar p = Some pc) \<and> (os \<noteq> bq \<longrightarrow> covar q = Some qc)"
  then show "\<exists>res. kl_mvn_mvn ops p q = Inr res"
    using kl_returns[of p pc bp d q qc bq os ops] by blast
next
  fix cp cq va vb p0 q1
  assume h: "mvn_init ops (Tensor [1] [0]) cp va = Inr p0 \<and> mvn_init ops (Tensor [1] [1]) cq vb = Inr q1
         \<and> (cp = DenseCovariance (Tensor [1, 1] [1]) \<or> cp = LazyCovariance (LazyTensor (Tensor [1, 1] [1])))
         \<and> (cq = DenseCovariance (Tensor [1, 1] [1]) \<or> cq = LazyCovariance (LazyTensor (Tensor [1, 1] [1])))
         \<and> is_root ops (LazyTensor (Tensor [1, 1] [1]))
         \<and> exact_at_identity ops (Tensor [1, 1] [1])"
  have p: "loc p0 = Tensor [1] [0] \<and> batch_shape p0 = []
         \<and> lazy_covariance_matrix p0 = Inr (LazyTensor (Tensor [1, 1] [1]))"
    using h unit_instance[of ops 0 cp va p0] by blast
  have q: "loc q1 = Tensor [1] [1] \<and> batch_shape q1 = []
         \<and> lazy_covariance_matrix q1 = Inr (LazyTensor (Tensor [1, 1] [1]))"
    using h unit_instance[of ops 1 cq vb q1] by blast
  show "kl_mvn_mvn ops p0 q1 = Inr (scalar 0.5)"
    using kl_unit_scenario[of p0 q1 ops] p q h by blast
qed

lemma kl_unit_example:
  "mvn_init unit_numerics (Tensor [1] [0]) (DenseCovariance (Tensor [1, 1] [1])) False
     = Inr (dense_normal 0)
   \<and> mvn_init unit_numerics (Tensor [1] [1]) (DenseCovariance (Tensor [1, 1] [1])) False
     = Inr (dense_normal 1)
   \<and> is_root unit_numerics (LazyTensor (Tensor [1, 1] [1]))
   \<and> exact_at_identity unit_numerics (Tensor [1, 1] [1])
   \<and> kl_mvn_mvn unit_numerics (dense_normal 0) (dense_normal 1) = Inr (scalar 0.5)"
proof -
  have a: "mvn_init unit_numerics (Tensor [1] [0]) (DenseCovariance (Tensor [1, 1] [1])) False
     = Inr (dense_normal 0)"
    by code_simp
  have b: "mvn_init unit_numerics (Tensor [1] [1]) (DenseCovariance (Tensor [1, 1] [1])) False
     = Inr (dense_normal 1)"
    by code_simp
  have r: "is_root unit_numerics (LazyTensor (Tensor [1, 1] [1]))"
    by code_simp
  have e: "exact_at_identity unit_numerics (Tensor [1, 1] [1])"
    by (simp add: exact_at_identity_def unit_numerics_def)
  have "kl_mvn_mvn unit_numerics (dense_normal 0) (dense_normal 1) = Inr (scalar 0.5)"
    using kl_mvn_mvn_value[of unit_numerics unit_mvn unit_mvn] a b r e by blast
  then show ?thesis using a b r e by blast
qed

section \<open>Claims\<close>

text \<open>
  Claim C1, as the code has it. With the fast path off, \<open>log_prob\<close> is the dense
  formula of the base class. With the fast path on, whenever \<open>log_prob\<close> returns, its
  value at every batch index \<open>i\<close> is \<open>-0.5 * (inv_quad + logdet + d * log(2 * pi))\<close>,
  where \<open>inv_quad\<close> and \<open>logdet\<close> are the two results at \<open>i\<close> of the one fused call
  against the reconciled covariance operator with right-hand side \<open>diff.unsqueeze(-1)\<close>,
  \<open>diff = value - mean\<close>, and \<open>d\<close> is the last size of \<open>diff\<close>. A value that fails the
  sample validation (if that is enabled) raises \<open>ValueError\<close>. Otherwise, for an
  operator of shape \<open>cb + (d, d)\<close> and a value for which \<open>value - mean\<close> has the shape
  \<open>db + (d,)\<close>, \<open>log_prob\<close> returns exactly when \<open>db\<close> is \<open>cb\<close>; or \<open>db\<close> has fewer
  dimensions than \<open>cb\<close> and can be expanded to \<open>cb\<close>; or \<open>db\<close> has at least the
  dimensions of \<open>cb\<close>, no size of \<open>cb\<close> is 0 and every size of \<open>db\<close> is a multiple of
  the size of \<open>cb\<close>, padded with ones on the left, at its place. The result then has
  the shape \<open>cb\<close> in the second case and \<open>db\<close> otherwise.
\<close>

theorem log_prob_formula:
  assumes "mvn_init ops m cv va = Inr A"
  shows "(\<not> fast_log_prob st \<longrightarrow> log_prob ops st A value = base_log_prob ops A value)
       \<and> (fast_log_prob st \<longrightarrow>
            (\<forall>res. log_prob ops st A value = Inr res \<longrightarrow>
               (\<exists>lc diff diff' cov'.
                   lazy_covariance_matrix A = Inr lc \<and> tsub value (loc A) = Inr diff
                   \<and> reconcile diff lc = Inr (diff', cov')
                   \<and> res = Tensor (lazy_batch_shape cov')
                        (map (\<lambda>i. - 0.5 * (fst (inv_quad_logdet_at ops (evaluate cov') (unsqueeze_last diff') i)
                                         + snd (inv_quad_logdet_at ops (evaluate cov') (unsqueeze_last diff') i)
                                         + real (last (shape diff')) * ln (2 * pi)))
                           [0..<prod_list (lazy_batch_shape cov')]))))
       \<and> (fast_log_prob st \<and> validate_args A
            \<and> \<not> torch_validate_sample ops (batch_shape A) (event_shape A) value
            \<longrightarrow> log_prob ops st A value = Inl ValueError)
       \<and> (\<forall>lc cb d db.
            fast_log_prob st
            \<and> (validate_args A \<longrightarrow> torch_validate_sample ops (batch_shape A) (event_shape A) value)
            \<and> lazy_covariance_matrix A = Inr lc \<and> lazy_shape lc = cb @ [d, d]
            \<and> broadcast_shape (shape value) (shape (loc A)) = Inr (db @ [d])
            \<longrightarrow> ((\<exists>res. log_prob ops st A value = Inr res) \<longleftrightarrow>
                    db = cb
                    \<or> (length db < length cb \<and> expandable db cb)
                    \<or> (length cb \<le> length db \<and> 0 \<notin> set cb
                         \<and> list_all2 (\<lambda>x c. c dvd x) db (replicate (length db - length cb) 1 @ cb)))
                 \<and> (\<forall>res. log_prob ops st A value = Inr res \<longrightarrow>
                        shape res = (if length db < length cb then cb else db)))"
proof (intro conjI impI allI)
  assume "\<not> fast_log_prob st"
  then show "log_prob ops st A value = base_log_prob ops A value"
    by (simp add: log_prob_def)
next
  fix res assume "fast_log_prob st" and "log_prob ops st A value = Inr res"
  then show "\<exists>lc diff diff' cov'.
                   lazy_covariance_matrix A = Inr lc \<and> tsub value (loc A) = Inr diff
                   \<and> reconcile diff lc = Inr (diff', cov')
                   \<and> res = Tensor (lazy_batch_shape cov')
                        (map (\<lambda>i. - 0.5 * (fst (inv_quad_logdet_at ops (evaluate cov') (unsqueeze_last diff') i)
                                         + snd (inv_quad_logdet_at ops (evaluate cov') (unsqueeze_last diff') i)
                                         + real (last (shape diff')) * ln (2 * pi)))
                           [0..<prod_list (lazy_batch_shape cov')])"
    by (rule log_prob_fast)
next
  assume "fast_log_prob st \<and> validate_args A
            \<and> \<not> torch_validate_sample ops (batch_shape A) (event_shape A) value"
  then show "log_prob ops st A value = Inl ValueError"
    by (simp add: log_prob_def)
next
  fix lc cb d db
  assume h: "fast_log_prob st
            \<and> (validate_args A \<longrightarrow> torch_validate_sample ops (batch_shape A) (event_shape A) value)
            \<and> lazy_covariance_matrix A = Inr lc \<and> lazy_shape lc = cb @ [d, d]
            \<and> broadcast_shape (shape value) (shape (loc A)) = Inr (db @ [d])"
  then have f: "fast_log_prob st"
    and v: "validate_args A \<longrightarrow> torch_validate_sample ops (batch_shape A) (event_shape A) value"
    and lc: "lazy_covariance_matrix A = Inr lc" and ls: "lazy_shape lc = cb @ [d, d]"
    and b: "broadcast_shape (shape value) (shape (loc A)) = Inr (db @ [d])"
    by simp_all
  show "(\<exists>res. log_prob ops st A value = Inr res) \<longleftrightarrow>
                    db = cb
                    \<or> (length db < length cb \<and> expandable db cb)
                    \<or> (length cb \<le> length db \<and> 0 \<notin> set cb
                         \<and> list_all2 (\<lambda>x c. c dvd x) db (replicate (length db - length cb) 1 @ cb))"
    by (rule log_prob_returns_iff(1)[OF f v lc ls b])
  fix res assume "log_prob ops st A value = Inr res"
  then show "shape res = (if length db < length cb then cb else db)"
    by (rule log_prob_returns_iff(2)[OF f v lc ls b])
qed

text \<open>
  The first example is the scenario of the specification: mean \<open>[0, 0]\<close>, identity
  covariance, value \<open>[0, 0]\<close>, log-density \<open>- log(2 * pi)\<close>. In the second the operator
  has two matrices and the value four rows, so the operator is tiled twice; in the third
  the value is one row, which is expanded to two.
\<close>

theorem log_prob_formula_witness:
  "mvn_init unit_numerics (Tensor [2] [0, 0]) (LazyCovariance example_covar) False = Inr origin_mvn
   \<and> fast_log_prob \<lparr>fast_log_prob = True\<rparr>
   \<and> \<not> validate_args origin_mvn
   \<and> lazy_covariance_matrix origin_mvn = Inr example_covar
   \<and> lazy_shape example_covar = [] @ [2, 2]
   \<and> broadcast_shape (shape (Tensor [2] [0, 0])) (shape (loc origin_mvn)) = Inr ([] @ [2])
   \<and> log_prob unit_numerics \<lparr>fast_log_prob = True\<rparr> origin_mvn (Tensor [2] [0, 0])
        = Inr (scalar (- ln (2 * pi)))
   \<and> log_prob unit_numerics \<lparr>fast_log_prob = False\<rparr> origin_mvn (Tensor [2] [0, 0])
        = base_log_prob unit_numerics origin_mvn (Tensor [2] [0, 0])
   \<and> mvn_init unit_numerics (Tensor [2] [0, 0]) (LazyCovariance paired_covar) False = Inr paired_mvn
   \<and> \<not> validate_args paired_mvn
   \<and> lazy_covariance_matrix paired_mvn = Inr paired_covar
   \<and> lazy_shape paired_covar = [2] @ [2, 2]
   \<and> broadcast_shape (shape four_diffs) (shape (loc paired_mvn)) = Inr ([4] @ [2])
   \<and> length [2::nat] \<le> length [4::nat] \<and> 0 \<notin> set [2::nat]
   \<and> list_all2 (\<lambda>x c. c dvd x) [4::nat] (replicate (length [4::nat] - length [2::nat]) 1 @ [2])
   \<and> (\<exists>res. log_prob unit_numerics \<lparr>fast_log_prob = True\<rparr> paired_mvn four_diffs = Inr res
          \<and> shape res = [4])
   \<and> broadcast_shape (shape pair_diff) (shape (loc paired_mvn)) = Inr ([] @ [2])
   \<and> length ([]::nat list) < length [2::nat] \<and> expandable [] [2]
   \<and> (\<exists>res. log_prob unit_numerics \<lparr>fast_log_prob = True\<rparr> paired_mvn pair_diff = Inr res
          \<and> shape res = [2])"
proof -
  let ?st = "\<lparr>fast_log_prob = True\<rparr>" and ?v = "Tensor [2] [0, 0]"
  note t = log_prob_formula[OF origin_mvn_init]
  have f: "fast_log_prob ?st" by simp
  have nv: "\<not> validate_args origin_mvn" by code_simp
  have lc: "lazy_covariance_matrix origin_mvn = Inr example_covar" by code_simp
  have sh: "lazy_shape example_covar = [] @ [2, 2]"
    "broadcast_shape (shape ?v) (shape (loc origin_mvn)) = Inr ([] @ [2])" by code_simp+
  have diff: "tsub ?v (loc origin_mvn) = Inr ?v" by code_simp
  have rc: "reconcile ?v example_covar = Inr (?v, example_covar)" by code_simp
  have "(\<exists>res. log_prob unit_numerics ?st origin_mvn ?v = Inr res) \<longleftrightarrow>
          ([]::nat list) = []
          \<or> (length ([]::nat list) < length ([]::nat list) \<and> expandable [] [])
          \<or> (length ([]::nat list) \<le> length ([]::nat list) \<and> 0 \<notin> set ([]::nat list)
               \<and> list_all2 (\<lambda>x c. c dvd x) [] (replicate (length ([]::nat list) - length ([]::nat list)) 1 @ []))"
    using t[of ?st ?v] f nv lc sh by blast
  then obtain res where res: "log_prob unit_numerics ?st origin_mvn ?v = Inr res"
    by blast
  then obtain lc' diff' diff'' cov' where
    "lazy_covariance_matrix origin_mvn = Inr lc'" "tsub ?v (loc origin_mvn) = Inr diff'"
    "reconcile diff' lc' = Inr (diff'', cov')"
    and r: "res = Tensor (lazy_batch_shape cov')
        (map (\<lambda>i. - 0.5 * (fst (inv_quad_logdet_at unit_numerics (evaluate cov') (unsqueeze_last diff'') i)
                         + snd (inv_quad_logdet_at unit_numerics (evaluate cov') (unsqueeze_last diff'') i)
                         + real (last (shape diff'')) * ln (2 * pi)))
           [0..<prod_list (lazy_batch_shape cov')])"
    using t[of ?st ?v] f by blast
  then have "diff'' = ?v" "cov' = example_covar"
    using lc diff rc by simp_all
  then have "res = scalar (- ln (2 * pi))"
    unfolding r
    by (simp add: lazy_batch_shape_def lazy_shape_def example_covar_def unit_numerics_def
        unsqueeze_last_def scalar_def)
  then have a: "log_prob unit_numerics ?st origin_mvn ?v = Inr (scalar (- ln (2 * pi)))"
    using res by simp
  have b: "log_prob unit_numerics \<lparr>fast_log_prob = False\<rparr> origin_mvn ?v
        = base_log_prob unit_numerics origin_mvn ?v"
    using t[of "\<lparr>fast_log_prob = False\<rparr>" ?v] by simp
  note u = log_prob_formula[OF paired_mvn_init]
  have nv2: "\<not> validate_args paired_mvn" by code_simp
  have lc2: "lazy_covariance_matrix paired_mvn = Inr paired_covar" by code_simp
  have sh2: "lazy_shape paired_covar = [2] @ [2, 2]"
    "broadcast_shape (shape four_diffs) (shape (loc paired_mvn)) = Inr ([4] @ [2])"
    "broadcast_shape (shape pair_diff) (shape (loc paired_mvn)) = Inr ([] @ [2])"
    by code_simp+
  have c4: "length [2::nat] \<le> length [4::nat]" "0 \<notin> set [2::nat]"
    "list_all2 (\<lambda>x c. c dvd x) [4::nat] (replicate (length [4::nat] - length [2::nat]) 1 @ [2])"
    by simp_all
  have c2: "length ([]::nat list) < length [2::nat]" "expandable [] [2]"
    by (simp_all add: expandable_def)
  have tile: "\<exists>res. log_prob unit_numerics ?st paired_mvn four_diffs = Inr res \<and> shape res = [4]"
  proof -
    have h: "fast_log_prob ?st
            \<and> (validate_args paired_mvn \<longrightarrow> torch_validate_sample unit_numerics (batch_shape paired_mvn) (event_shape paired_mvn) four_diffs)
            \<and> lazy_covariance_matrix paired_mvn = Inr paired_covar \<and> lazy_shape paired_covar = [2] @ [2, 2]
            \<and> broadcast_shape (shape four_diffs) (shape (loc paired_mvn)) = Inr ([4] @ [2])"
      using f nv2 lc2 sh2 by simp
    from u[of ?st four_diffs] h
    have i: "(\<exists>res. log_prob unit_numerics ?st paired_mvn four_diffs = Inr res) \<longleftrightarrow>
                    [4::nat] = [2]
                    \<or> (length [4::nat] < length [2::nat] \<and> expandable [4] [2])
                    \<or> (length [2::nat] \<le> length [4::nat] \<and> 0 \<notin> set [2::nat]
                         \<and> list_all2 (\<lambda>x c. c dvd x) [4::nat] (replicate (length [4::nat] - length [2::nat]) 1 @ [2]))"
      and s: "\<forall>res. log_prob unit_numerics ?st paired_mvn four_diffs = Inr res \<longrightarrow>
                        shape res = (if length [4::nat] < length [2::nat] then [2] else [4])"
      by blast+
    from i c4 obtain res where "log_prob unit_numerics ?st paired_mvn four_diffs = Inr res" by blast
    then show ?thesis using s by auto
  qed
  have grow: "\<exists>res. log_prob unit_numerics ?st paired_mvn pair_diff = Inr res \<and> shape res = [2]"
  proof -
    have h: "fast_log_prob ?st
            \<and> (validate_args paired_mvn \<longrightarrow> torch_validate_sample unit_numerics (batch_shape paired_mvn) (event_shape paired_mvn) pair_diff)
            \<and> lazy_covariance_matrix paired_mvn = Inr paired_covar \<and> lazy_shape paired_covar = [2] @ [2, 2]
            \<and> broadcast_shape (shape pair_diff) (shape (loc paired_mvn)) = Inr ([] @ [2])"
      using f nv2 lc2 sh2 by simp
    from u[of ?st pair_diff] h
    have i: "(\<exists>res. log_prob unit_numerics ?st paired_mvn pair_diff = Inr res) \<longleftrightarrow>
                    ([]::nat list) = [2]
                    \<or> (length ([]::nat list) < length [2::nat] \<and> expandable [] [2])
                    \<or> (length [2::nat] \<le> length ([]::nat list) \<and> 0 \<notin> set [2::nat]
                         \<and> list_all2 (\<lambda>x c. c dvd x) [] (replicate (length ([]::nat list) - length [2::nat]) 1 @ [2]))"
      and s: "\<forall>res. log_prob unit_numerics ?st paired_mvn pair_diff = Inr res \<longrightarrow>
                        shape res = (if length ([]::nat list) < length [2::nat] then [2] else [])"
      by blast+
    from i c2 obtain res where "log_prob unit_numerics ?st paired_mvn pair_diff = Inr res" by blast
    then show ?thesis using s by auto
  qed
  show ?thesis
    using origin_mvn_init f nv lc sh a b paired_mvn_init nv2 lc2 sh2 c4 tile c2 grow by blast
qed

text \<open>
  The claim as stated promises the value for every value of a compatible shape. With a
  mean of shape \<open>[1, 2]\<close> and an operator of shape \<open>[2, 2, 2]\<close> the batch shape is
  \<open>[2]\<close>; for a value of the shape of the mean, \<open>diff\<close> has the batch shape \<open>[1]\<close>, of
  the rank of the operator's, so the operator is repeated \<open>1 // 2 = 0\<close> times and the
  fused call refuses the empty operator.
\<close>

theorem log_prob_compatible_value_counterexample:
  "mvn_init unit_numerics (Tensor [1, 2] [0, 0]) (LazyCovariance paired_covar) False = Inr row_mvn
   \<and> fast_log_prob \<lparr>fast_log_prob = True\<rparr>
   \<and> shape (Tensor [1, 2] [0, 0]) = shape (loc row_mvn)
   \<and> broadcast_shape (shape (Tensor [1, 2] [0, 0])) (batch_shape row_mvn @ event_shape row_mvn)
        = Inr (batch_shape row_mvn @ event_shape row_mvn)
   \<and> log_prob unit_numerics \<lparr>fast_log_prob = True\<rparr> row_mvn (Tensor [1, 2] [0, 0])
        = Inl (RuntimeError InvalidShape)"
proof -
  let ?v = "Tensor [1, 2] [0, 0]"
  have i: "mvn_init unit_numerics ?v (LazyCovariance paired_covar) False = Inr row_mvn"
    by code_simp
  have s: "shape ?v = shape (loc row_mvn)"
    "broadcast_shape (shape ?v) (batch_shape row_mvn @ event_shape row_mvn)
        = Inr (batch_shape row_mvn @ event_shape row_mvn)"
    by code_simp+
  have nv: "validate_args row_mvn \<longrightarrow> torch_validate_sample unit_numerics (batch_shape row_mvn) (event_shape row_mvn) ?v"
    by (simp add: row_mvn_def)
  have lc: "lazy_covariance_matrix row_mvn = Inr paired_covar" by code_simp
  have d: "tsub ?v (loc row_mvn) = Inr ?v" by code_simp
  have rc: "reconcile ?v paired_covar = Inr (?v, LazyTensor (Tensor [0, 2, 2] []))" by code_simp
  have q: "inv_quad_logdet unit_numerics (LazyTensor (Tensor [0, 2, 2] [])) (unsqueeze_last ?v)
      = Inl (RuntimeError InvalidShape)"
    by code_simp
  have "log_prob unit_numerics \<lparr>fast_log_prob = True\<rparr> row_mvn ?v = Inl (RuntimeError InvalidShape)"
    by (rule log_prob_fused_error[OF _ nv lc d rc q]) simp
  then show ?thesis using i s by simp
qed

text \<open>
  Claim C2. The divergence is claimed for every pair of Gaussians with
  broadcast-compatible batch shapes. \<open>kl_mvn_mvn\<close> expands an argument whose batch shape
  is not the common one with \<open>expand\<close>, which reads \<open>self._covar\<close>; the dense branch of
  the constructor never assigns it (the defect of claim C8). With \<open>p = N([0], [[1]])\<close>
  of batch shape \<open>[]\<close> and \<open>q\<close> of batch shape \<open>[2]\<close>, both in dense mode, the batch
  shapes broadcast to \<open>[2]\<close>, \<open>p\<close> has to be expanded and the call raises
  \<open>AttributeError\<close>. For the same pair in structured mode \<open>p\<close> is expanded and the
  call returns a divergence of shape \<open>[2]\<close>. Where no dense-mode argument has to be
  expanded the claim holds (\<open>kl_mvn_mvn_value\<close>, with the scenario \<open>kl_unit_example\<close>).
\<close>

theorem kl_dense_expansion_attribute_error:
  "mvn_init unit_numerics (Tensor [1] [0]) (DenseCovariance (Tensor [1, 1] [1])) False
     = Inr (dense_normal 0)
   \<and> mvn_init unit_numerics (Tensor [2, 1] [1, 1]) (DenseCovariance (Tensor [2, 1, 1] [1, 1])) False
     = Inr dense_pair
   \<and> mul_broadcast_shape (batch_shape (dense_normal 0)) (batch_shape dense_pair) = Inr [2]
   \<and> expand unit_numerics (dense_normal 0) [2] = Inl AttributeError
   \<and> kl_mvn_mvn unit_numerics (dense_normal 0) dense_pair = Inl AttributeError
   \<and> mvn_init unit_numerics (Tensor [1] [0]) (LazyCovariance (LazyTensor (Tensor [1, 1] [1]))) False
     = Inr unit_mvn
   \<and> mvn_init unit_numerics (Tensor [2, 1] [1, 1]) (LazyCovariance batched_covar) False
     = Inr lazy_pair
   \<and> evaluate batched_covar = Tensor [2, 1, 1] [1, 1]
   \<and> ebind (kl_mvn_mvn unit_numerics unit_mvn lazy_pair) (\<lambda>res. Inr (shape res)) = Inr [2]"
  by code_simp

text \<open>
  Claim C3. The combined objective is claimed to be the signed sum of the uncombined
  terms. The uncombined branch divides the prior term by \<open>num_data\<close> once more than the
  combined branch (\<open>forward_shared_terms\<close>): with \<open>num_data = 2\<close>, one prior of log
  probability 4 and likelihood and KL terms 0, the combined value is 2 while the
  uncombined terms are 0, 0 and 1. The tuple has three entries without added loss terms
  and four with them (\<open>forward_uncombined_length\<close>).
\<close>

theorem forward_terms_do_not_sum_to_combined:
  "forward unit_numerics (example_mll True) unit_mvn (scalar 0) = Inr (Combined (scalar 2))
   \<and> forward unit_numerics (example_mll False) unit_mvn (scalar 0)
       = Inr (Terms [scalar 0, scalar 0, scalar 1])"
  by code_simp

text \<open>
  Claim C4, as the code has it. With explicit \<open>base_samples\<close>, \<open>rsample\<close> fails with
  the size error, which carries the expected shape \<open>loc.shape\<close> and the actual shape of
  \<open>base_samples\<close>, exactly when the trailing \<open>loc.dim()\<close> dimensions of \<open>base_samples\<close>
  differ from the whole shape of the mean (its batch dimensions included, not only the
  event shape). When \<open>rsample\<close> returns, they agree and the leading dimensions are the
  sample shape of the result.
\<close>

theorem rsample_base_samples_check:
  assumes "mvn_init ops m cv va = Inr A"
  shows "(rsample ops A S (Some bs) = Inl (RuntimeError (BaseSamplesSize (shape (loc A)) (shape bs)))
            \<longleftrightarrow> py_suffix (ndim (loc A)) (shape bs) \<noteq> shape (loc A))
       \<and> (\<forall>e a. rsample ops A S (Some bs) = Inl (RuntimeError (BaseSamplesSize e a))
              \<longrightarrow> e = shape (loc A) \<and> a = shape bs)
       \<and> (\<forall>t. rsample ops A S (Some bs) = Inr t \<longrightarrow>
              py_suffix (ndim (loc A)) (shape bs) = shape (loc A)
              \<and> shape t = py_prefix (int (ndim bs) - int (ndim (loc A))) (shape bs) @ shape (loc A))"
proof -
  obtain lc where lc: "lazy_covariance_matrix A = Inr lc"
    using mvn_init_covariance[OF assms] by auto
  show ?thesis
  proof (cases "shape (loc A) = py_suffix (ndim (loc A)) (shape bs)")
    case False
    then show ?thesis by (auto simp: rsample_base_samples[OF lc])
  next
    case True
    have no: "\<And>e a. rsample ops A S (Some bs) \<noteq> Inl (RuntimeError (BaseSamplesSize e a))"
      by (rule rsample_base_samples_not_size_error[OF lc True])
    have sh: "\<And>t. rsample ops A S (Some bs) = Inr t \<Longrightarrow>
        shape t = py_prefix (int (ndim bs) - int (ndim (loc A))) (shape bs) @ shape (loc A)"
      using True by (auto simp: rsample_base_samples[OF lc] ebind_eq_Inr dest: reparameterize_shape)
    show ?thesis using True no sh by auto
  qed
qed

theorem rsample_base_samples_check_witness:
  "mvn_init unit_numerics example_mean (LazyCovariance example_covar) False = Inr example_mvn
   \<and> py_suffix (ndim (loc example_mvn)) (shape (Tensor [3] [1, 2, 3])) \<noteq> shape (loc example_mvn)
   \<and> rsample unit_numerics example_mvn [] (Some (Tensor [3] [1, 2, 3]))
        = Inl (RuntimeError (BaseSamplesSize [2] [3]))
   \<and> rsample unit_numerics example_mvn [] (Some (Tensor [3, 2] [1, 2, 3, 4, 5, 6]))
        = Inr (Tensor [3, 2] [11, 21, 13, 23, 15, 25])
   \<and> py_suffix (ndim (loc example_mvn)) (shape (Tensor [3, 2] [1, 2, 3, 4, 5, 6]))
        = shape (loc example_mvn)"
proof -
  note t = rsample_base_samples_check[OF example_mvn_init, of "[]"]
  have a: "py_suffix (ndim (loc example_mvn)) (shape (Tensor [3] [1, 2, 3])) \<noteq> shape (loc example_mvn)"
    by (simp add: tensor_eval example_mvn_def example_mean_def)
  have "rsample unit_numerics example_mvn [] (Some (Tensor [3] [1, 2, 3]))
        = Inl (RuntimeError (BaseSamplesSize (shape (loc example_mvn)) (shape (Tensor [3] [1, 2, 3]))))"
    using t[of "Tensor [3] [1, 2, 3]"] a by blast
  then have b: "rsample unit_numerics example_mvn [] (Some (Tensor [3] [1, 2, 3]))
        = Inl (RuntimeError (BaseSamplesSize [2] [3]))"
    by (simp add: example_mvn_def example_mean_def)
  have c: "py_suffix (ndim (loc example_mvn)) (shape (Tensor [3, 2] [1, 2, 3, 4, 5, 6]))
        = shape (loc example_mvn)"
    using t[of "Tensor [3, 2] [1, 2, 3, 4, 5, 6]"] rsample_example_value by blast
  show ?thesis
    using example_mvn_init a b c rsample_example_value by blast
qed

text \<open>
  The claim as stated compares with \<open>event_shape\<close>. For a mean with a batch dimension
  the two differ: base samples whose trailing dimension is the event shape are refused.
\<close>

theorem rsample_event_shape_counterexample:
  "mvn_init unit_numerics batched_mean (LazyCovariance batched_covar) False = Inr batched_mvn
   \<and> py_suffix (length (event_shape batched_mvn)) (shape (Tensor [3, 1] [0, 0, 0]))
        = event_shape batched_mvn
   \<and> rsample unit_numerics batched_mvn [] (Some (Tensor [3, 1] [0, 0, 0]))
        = Inl (RuntimeError (BaseSamplesSize [2, 1] [3, 1]))"
  by (simp add: batched_mvn_init)
     (simp add: mvn_eval tensor_eval batched_mvn_def batched_mean_def batched_covar_def)

text \<open>
  Claim C5. With base samples whose trailing dimensions are the shape of the mean (a
  mean with at least one dimension and no empty one), the samples are viewed and
  permuted to the shape \<open>loc.shape + (n,)\<close>, whose rows (dimension -2) number the event
  size. If the rank of the root factor is smaller, \<open>rsample\<close> is the reparameterization
  of the first \<open>rank\<close> rows alone (the other rows do not occur in the result) and does
  not fail with the dimension error; if the rank is larger, \<open>rsample\<close> fails with
  "Incompatible dimension of `base_samples`".
\<close>

theorem rsample_root_rank:
  assumes "mvn_init ops m cv va = Inr A" and "lazy_covariance_matrix A = Inr lc"
    and "shape bs = S' @ shape (loc A)" and "shape (loc A) \<noteq> []" and "0 < numel (loc A)"
  shows "\<exists>bs2. ebind (view_infer bs (shape (loc A)))
                 (\<lambda>bs1. permute bs1 (map int [1..<ndim (loc A) + 1] @ [0])) = Inr bs2
           \<and> shape bs2 = shape (loc A) @ [prod_list S']
           \<and> (root_rank ops (evaluate lc) < last (shape (loc A)) \<longrightarrow>
                rsample ops A S (Some bs)
                  = reparameterize A S' (root_decomposition ops lc)
                      (tabulate (butlast (shape (loc A)) @ [root_rank ops (evaluate lc), prod_list S'])
                         (entry bs2))
                \<and> rsample ops A S (Some bs) \<noteq> Inl (RuntimeError IncompatibleDimension))
           \<and> (last (shape (loc A)) < root_rank ops (evaluate lc) \<longrightarrow>
                rsample ops A S (Some bs) = Inl (RuntimeError IncompatibleDimension))"
proof -
  let ?s = "shape (loc A)"
  let ?bs1 = "Tensor (prod_list S' # ?s) (elems bs)"
  have v: "view_infer bs ?s = Inr ?bs1"
    using assms(3,5) by (simp add: view_infer_append numel_def)
  obtain bs2 where p: "permute ?bs1 (map int [1..<ndim (loc A) + 1] @ [0]) = Inr bs2"
    and sh: "shape bs2 = ?s @ [prod_list S']"
    using permute_rotate[of ?bs1 "prod_list S'" ?s] by (simp add: ndim_def)
  have chk: "py_suffix (ndim (loc A)) (shape bs) = ?s"
    using assms(3,4) by (simp add: py_suffix_def ndim_def)
  have pre: "py_prefix (int (ndim bs) - int (ndim (loc A))) (shape bs) = S'"
    using py_prefix_append[of S' ?s] assms(3) by (simp add: ndim_def)
  have rs: "rsample ops A S (Some bs) =
      ebind (adjust_rank (root_decomposition ops lc) bs2)
        (\<lambda>bs3. reparameterize A S' (root_decomposition ops lc) bs3)"
    using chk pre v p by (simp add: rsample_base_samples[OF assms(2)])
  note ar = adjust_rank_cases[OF sh assms(4), of ops lc]
  have small: "root_rank ops (evaluate lc) < last ?s \<Longrightarrow>
      rsample ops A S (Some bs)
        = reparameterize A S' (root_decomposition ops lc)
            (tabulate (butlast ?s @ [root_rank ops (evaluate lc), prod_list S']) (entry bs2))"
    by (simp add: rs ar Let_def)
  have small_err: "root_rank ops (evaluate lc) < last ?s \<Longrightarrow>
      rsample ops A S (Some bs) \<noteq> Inl (RuntimeError IncompatibleDimension)"
    using reparameterize_error[of A S' "root_decomposition ops lc"] by (auto simp: small)
  have large: "last ?s < root_rank ops (evaluate lc) \<Longrightarrow>
      rsample ops A S (Some bs) = Inl (RuntimeError IncompatibleDimension)"
    by (simp add: rs ar Let_def)
  show ?thesis
    using v p sh small small_err large by (intro exI[of _ bs2]) simp
qed

theorem rsample_root_rank_witness:
  "mvn_init unit_numerics example_mean (LazyCovariance example_covar) False = Inr example_mvn
   \<and> lazy_covariance_matrix example_mvn = Inr example_covar
   \<and> shape (Tensor [3, 2] [1, 2, 3, 4, 5, 6]) = [3] @ shape (loc example_mvn)
   \<and> shape (loc example_mvn) \<noteq> [] \<and> 0 < numel (loc example_mvn)
   \<and> root_rank unit_numerics (evaluate example_covar) < last (shape (loc example_mvn))
   \<and> rsample unit_numerics example_mvn [] (Some (Tensor [3, 2] [1, 2, 3, 4, 5, 6]))
        \<noteq> Inl (RuntimeError IncompatibleDimension)
   \<and> rsample unit_numerics example_mvn [] (Some (Tensor [3, 2] [1, 2, 3, 4, 5, 6]))
        = Inr (Tensor [3, 2] [11, 21, 13, 23, 15, 25])
   \<and> mvn_init wide_numerics example_mean (LazyCovariance example_covar) False = Inr example_mvn
   \<and> last (shape (loc example_mvn)) < root_rank wide_numerics (evaluate example_covar)
   \<and> rsample wide_numerics example_mvn [] (Some (Tensor [3, 2] [1, 2, 3, 4, 5, 6]))
        = Inl (RuntimeError IncompatibleDimension)"
proof -
  have lc: "lazy_covariance_matrix example_mvn = Inr example_covar"
    by (simp add: mvn_eval example_mvn_def)
  have sh: "shape (Tensor [3, 2] [1, 2, 3, 4, 5, 6]) = [3] @ shape (loc example_mvn)"
    by (simp add: example_mvn_def example_mean_def)
  have ne: "shape (loc example_mvn) \<noteq> []" and pos: "0 < numel (loc example_mvn)"
    by (simp_all add: example_mvn_def example_mean_def numel_def)
  have small: "root_rank unit_numerics (evaluate example_covar) < last (shape (loc example_mvn))"
    by (simp add: unit_numerics_def example_mvn_def example_mean_def)
  have large: "last (shape (loc example_mvn)) < root_rank wide_numerics (evaluate example_covar)"
    by (simp add: wide_numerics_def unit_numerics_def example_mvn_def example_mean_def)
  have a: "rsample unit_numerics example_mvn [] (Some (Tensor [3, 2] [1, 2, 3, 4, 5, 6]))
        \<noteq> Inl (RuntimeError IncompatibleDimension)"
    using rsample_root_rank[OF example_mvn_init lc sh ne pos, of "[]"] small by blast
  have b: "rsample wide_numerics example_mvn [] (Some (Tensor [3, 2] [1, 2, 3, 4, 5, 6]))
        = Inl (RuntimeError IncompatibleDimension)"
    using rsample_root_rank[OF wide_example_mvn_init lc sh ne pos, of "[]"] large by blast
  show ?thesis
    using example_mvn_init wide_example_mvn_init lc sh ne pos small large a b rsample_example_value
    by blast
qed

text \<open>
  Claim C6. Lines 117-126 of \<open>log_prob\<close>. With \<open>diff\<close> of batch shape \<open>diff.shape[:-1]\<close>
  and an operator of shape \<open>cb + (n, n')\<close>: equal batch shapes change nothing. If they
  differ and the operator has the larger batch rank, \<open>diff\<close> is expanded to
  \<open>covar.shape[:-1]\<close>: the step returns exactly when the shape of \<open>diff\<close> can be
  expanded to it, the result has that shape, and each of its entries is the entry of
  \<open>diff\<close> that broadcasting reads. Otherwise the operator is repeated with the factors
  \<open>diff_size // covar_size\<close> against its batch shape padded with ones, and 1, 1 for the
  matrix dimensions: the step returns exactly when no batch size of the operator is 0
  (it raises \<open>ZeroDivisionError\<close> otherwise), the result has the sizes
  \<open>(diff_size // covar_size) * covar_size\<close>, and each of its entries is the entry of
  the operator at the index taken modulo the operator's sizes. The repeated operator
  has the batch shape of \<open>diff\<close> exactly when every padded size divides the size of
  \<open>diff\<close>, which the fused call then requires. Every entry of the reconciled \<open>diff\<close>
  and operator is an entry of the original.
\<close>

theorem reconcile_batch_shapes:
  assumes "wf_tensor diff" and "wf_tensor (evaluate cov)" and "lazy_shape cov = cb @ [n, n']"
  shows "(butlast (shape diff) = cb \<longrightarrow> reconcile diff cov = Inr (diff, cov))
       \<and> (butlast (shape diff) \<noteq> cb \<and> length (butlast (shape diff)) < length cb \<longrightarrow>
             ((\<exists>r. reconcile diff cov = Inr r) \<longleftrightarrow> expandable (shape diff) (cb @ [n]))
             \<and> (\<forall>diff' cov'. reconcile diff cov = Inr (diff', cov') \<longrightarrow>
                   cov' = cov \<and> shape diff' = cb @ [n] \<and> wf_tensor diff'
                   \<and> (\<forall>idx. list_all2 (<) idx (cb @ [n]) \<longrightarrow>
                          entry diff' idx = entry diff (bidx (shape diff) idx))))
       \<and> (butlast (shape diff) \<noteq> cb \<and> length cb \<le> length (butlast (shape diff)) \<longrightarrow>
             padded_batch_shape diff cov = replicate (length (butlast (shape diff)) - length cb) 1 @ cb
             \<and> ((\<exists>r. reconcile diff cov = Inr r) \<longleftrightarrow> 0 \<notin> set cb)
             \<and> (0 \<in> set cb \<longrightarrow> reconcile diff cov = Inl ZeroDivisionError)
             \<and> (\<forall>diff' cov'. reconcile diff cov = Inr (diff', cov') \<longrightarrow>
                   diff' = diff
                   \<and> lazy_repeat cov
                        (map2 (div) (butlast (shape diff)) (padded_batch_shape diff cov) @ [1, 1]) = Inr cov'
                   \<and> lazy_shape cov'
                        = map2 (\<lambda>d c. d div c * c) (butlast (shape diff)) (padded_batch_shape diff cov) @ [n, n']
                   \<and> wf_tensor (evaluate cov')
                   \<and> (\<forall>idx. list_all2 (<) idx (lazy_shape cov') \<longrightarrow>
                          entry (evaluate cov') idx
                            = entry (evaluate cov)
                                (drop (length (butlast (shape diff)) - length cb)
                                   (map2 (\<lambda>i c. i mod c) idx (padded_batch_shape diff cov @ [n, n']))))
                   \<and> (lazy_batch_shape cov' = butlast (shape diff)
                        \<longleftrightarrow> list_all2 (\<lambda>d c. c dvd d) (butlast (shape diff)) (padded_batch_shape diff cov))
                   \<and> (\<forall>ops r. inv_quad_logdet ops cov' (unsqueeze_last diff') = Inr r \<longrightarrow>
                          list_all2 (\<lambda>d c. c dvd d) (butlast (shape diff)) (padded_batch_shape diff cov))))
       \<and> (\<forall>diff' cov'. reconcile diff cov = Inr (diff', cov') \<longrightarrow>
             set (elems diff') \<subseteq> set (elems diff)
             \<and> set (elems (evaluate cov')) \<subseteq> set (elems (evaluate cov)))"
proof -
  let ?db = "butlast (shape diff)"
  let ?p = "padded_batch_shape diff cov"
  let ?k = "length ?db - length cb"
  have bs: "lazy_batch_shape cov = cb" and bl: "butlast (lazy_shape cov) = cb @ [n]"
    using assms(3) by (simp_all add: lazy_batch_shape_def butlast_append)
  have same: "reconcile diff cov = Inr (diff, cov)" if "?db = cb"
    using that by (simp add: reconcile_def bs)
  have grow_iff: "(\<exists>r. reconcile diff cov = Inr r) \<longleftrightarrow> expandable (shape diff) (cb @ [n])"
    if "?db \<noteq> cb" "length ?db < length cb"
    using that by (simp add: reconcile_def bs bl tensor_expand_def)
  have grow: "cov' = cov \<and> shape diff' = cb @ [n] \<and> wf_tensor diff'
      \<and> (\<forall>idx. list_all2 (<) idx (cb @ [n]) \<longrightarrow> entry diff' idx = entry diff (bidx (shape diff) idx))
      \<and> set (elems diff') \<subseteq> set (elems diff)"
    if "?db \<noteq> cb" "length ?db < length cb" and r: "reconcile diff cov = Inr (diff', cov')"
    for diff' cov'
  proof -
    have te: "tensor_expand diff (cb @ [n]) = Inr diff'" and c: "cov' = cov"
      using r that(1,2) by (auto simp: reconcile_def bs bl ebind_eq_Inr)
    then have d: "diff' = tabulate (cb @ [n]) (\<lambda>idx. entry diff (bidx (shape diff) idx))"
      by (auto simp: tensor_expand_def split: if_splits)
    have "entry diff' idx = entry diff (bidx (shape diff) idx)" if "list_all2 (<) idx (cb @ [n])" for idx
      unfolding d using that by (rule entry_tabulate)
    moreover have "shape diff' = cb @ [n]" "wf_tensor diff'" unfolding d by simp_all
    ultimately show ?thesis using c tensor_expand_elems[OF assms(1) te] by blast
  qed
  have pad: "?p = replicate ?k 1 @ cb" and dbne: "?db \<noteq> []" and nd: "ndim diff = Suc (length ?db)"
    and lp: "length ?p = length ?db"
    if ne: "?db \<noteq> cb" and le: "length cb \<le> length ?db"
  proof -
    show dbne: "?db \<noteq> []"
    proof
      assume e: "?db = []"
      have "cb = []" using le unfolding e by simp
      then show False using ne e by simp
    qed
    then show nd: "ndim diff = Suc (length ?db)"
      by (cases "shape diff") (simp_all add: ndim_def)
    show p: "?p = replicate ?k 1 @ cb"
      using assms(3) le by (simp add: padded_batch_shape_def nd bs nat_diff_distrib')
    show "length ?p = length ?db" using le by (simp add: p)
  qed
  have zero: "reconcile diff cov = Inl ZeroDivisionError"
    if ne: "?db \<noteq> cb" and le: "length cb \<le> length ?db" and z: "0 \<in> set cb"
  proof -
    have "0 \<in> set (map snd (zip ?db ?p))"
      using z pad(1)[OF ne le] lp[OF ne le] by (simp add: map_snd_zip)
    then have "\<nexists>qs. floordivs (zip ?db ?p) = Inr qs"
      by (simp add: floordivs_Inr)
    moreover have "floordivs ps = Inl e \<Longrightarrow> e = ZeroDivisionError" for ps e
      by (induction ps) (auto simp: ebind_eq_Inl split: if_splits)
    ultimately have "floordivs (zip ?db ?p) = Inl ZeroDivisionError"
      by (cases "floordivs (zip ?db ?p)") auto
    then show ?thesis using ne le by (simp add: reconcile_def bs)
  qed
  have tile_ex: "\<exists>r. reconcile diff cov = Inr r"
    if ne: "?db \<noteq> cb" and le: "length cb \<le> length ?db" and z: "0 \<notin> set cb"
  proof -
    let ?reps = "map2 (div) ?db ?p"
    have "0 \<notin> set (map snd (zip ?db ?p))"
      using z pad(1)[OF ne le] lp[OF ne le] by (simp add: map_snd_zip)
    then have fd: "floordivs (zip ?db ?p) = Inr ?reps"
      by (simp add: floordivs_Inr)
    have lr: "length ?reps = length ?db" using lp[OF ne le] by simp
    have "0 < length ?db" using dbne[OF ne le] by (simp del: length_butlast)
    then have a: "\<not> (length (?reps @ [1, 1]) < 3 \<or> py_suffix 2 (?reps @ [1, 1]) \<noteq> [1, 1])"
      using lr by (simp add: py_suffix_def)
    have b: "\<not> length (?reps @ [1, 1]) < ndim (evaluate cov)"
      using assms(3) le lr by (simp add: ndim_def lazy_shape_def)
    have "\<exists>c. lazy_repeat cov (?reps @ [1, 1]) = Inr c"
      unfolding lazy_repeat_def tensor_repeat_def Let_def
      by (simp only: a b if_False ebind_Inr) blast
    then show ?thesis using ne le fd by (auto simp: reconcile_def bs)
  qed
  have tile: "diff' = diff
      \<and> lazy_repeat cov (map2 (div) ?db ?p @ [1, 1]) = Inr cov'
      \<and> lazy_shape cov' = map2 (\<lambda>d c. d div c * c) ?db ?p @ [n, n']
      \<and> wf_tensor (evaluate cov')
      \<and> (\<forall>idx. list_all2 (<) idx (lazy_shape cov') \<longrightarrow>
             entry (evaluate cov') idx
               = entry (evaluate cov) (drop ?k (map2 (\<lambda>i c. i mod c) idx (?p @ [n, n']))))
      \<and> (lazy_batch_shape cov' = ?db \<longleftrightarrow> list_all2 (\<lambda>d c. c dvd d) ?db ?p)
      \<and> (\<forall>ops r. inv_quad_logdet ops cov' (unsqueeze_last diff') = Inr r \<longrightarrow>
             list_all2 (\<lambda>d c. c dvd d) ?db ?p)
      \<and> 0 \<notin> set cb
      \<and> set (elems (evaluate cov')) \<subseteq> set (elems (evaluate cov))"
    if ne: "?db \<noteq> cb" and le: "length cb \<le> length ?db" and r: "reconcile diff cov = Inr (diff', cov')"
    for diff' cov'
  proof -
    note p = pad(1)[OF ne le] and lp = lp[OF ne le] and nd = nd[OF ne le] and dbne = dbne[OF ne le]
    obtain reps where fd: "floordivs (zip ?db ?p) = Inr reps"
      and rp: "lazy_repeat cov (reps @ [1, 1]) = Inr cov'" and d: "diff' = diff"
      using r ne le by (auto simp: reconcile_def bs ebind_eq_Inr)
    have z: "0 \<notin> set ?p" and reps: "reps = map2 (div) ?db ?p"
      using fd lp by (simp_all add: floordivs_Inr)
    have zc: "0 \<notin> set cb" using z unfolding p by simp
    have lr: "length reps = length ?db" using lp by (simp add: reps)
    have k: "length (reps @ [1, 1]) - ndim (evaluate cov) = ?k"
      using assms(3) by (simp add: lr ndim_def lazy_shape_def)
    have ps: "replicate ?k 1 @ shape (evaluate cov) = ?p @ [n, n']"
      using assms(3) by (simp add: p lazy_shape_def)
    have ev: "evaluate cov' = tabulate (map2 (*) (reps @ [1, 1]) (?p @ [n, n']))
                (\<lambda>idx. entry (evaluate cov) (drop ?k (map2 (\<lambda>i n. i mod n) idx (?p @ [n, n']))))"
      using tensor_repeat_Inr[OF lazy_repeat_Inr[OF rp]] unfolding k ps .
    have "map2 (*) (reps @ [1, 1]) (?p @ [n, n']) = map2 (*) reps ?p @ [n, n']"
      using lr lp by simp
    also have "\<dots> = map2 (\<lambda>d c. d div c * c) ?db ?p @ [n, n']"
      unfolding reps by (simp only: map2_mult_div)
    finally have sizes: "map2 (*) (reps @ [1, 1]) (?p @ [n, n']) = map2 (\<lambda>d c. d div c * c) ?db ?p @ [n, n']" .
    have sh: "lazy_shape cov' = map2 (\<lambda>d c. d div c * c) ?db ?p @ [n, n']"
      unfolding lazy_shape_def ev shape_tabulate by (rule sizes)
    have wf: "wf_tensor (evaluate cov')" unfolding ev by simp
    have en: "entry (evaluate cov') idx
               = entry (evaluate cov) (drop ?k (map2 (\<lambda>i c. i mod c) idx (?p @ [n, n'])))"
      if "list_all2 (<) idx (lazy_shape cov')" for idx
    proof -
      have "list_all2 (<) idx (map2 (*) (reps @ [1, 1]) (?p @ [n, n']))"
        using that unfolding sh sizes .
      then show ?thesis unfolding ev by (rule entry_tabulate)
    qed
    have b': "lazy_batch_shape cov' = map2 (\<lambda>d c. d div c * c) ?db ?p"
      unfolding lazy_batch_shape_def sh by (simp add: butlast_append)
    have iff: "lazy_batch_shape cov' = ?db \<longleftrightarrow> list_all2 (\<lambda>d c. c dvd d) ?db ?p"
      unfolding b' using lp[symmetric] by (rule map2_div_mult_eq_iff)
    have req: "list_all2 (\<lambda>d c. c dvd d) ?db ?p"
      if "inv_quad_logdet ops cov' (unsqueeze_last diff') = Inr r" for ops r
    proof -
      have "3 \<le> ndim (unsqueeze_last diff')" using dbne d nd
        by (cases ?db) (simp_all add: unsqueeze_last_def ndim_def)
      from inv_quad_logdet_batch[OF that this]
      have "lazy_batch_shape cov' = ?db"
        by (simp add: unsqueeze_last_def d)
      then show ?thesis using iff by simp
    qed
    have el: "set (elems (evaluate cov')) \<subseteq> set (elems (evaluate cov))"
      using tensor_repeat_elems[OF assms(2) lazy_repeat_Inr[OF rp]] .
    have rp': "lazy_repeat cov (map2 (div) ?db ?p @ [1, 1]) = Inr cov'"
      using rp reps by simp
    show ?thesis using d rp' sh wf en iff req zc el by blast
  qed
  have tile_iff: "(\<exists>r. reconcile diff cov = Inr r) \<longleftrightarrow> 0 \<notin> set cb"
    if ne: "?db \<noteq> cb" and le: "length cb \<le> length ?db"
    using tile_ex[OF ne le] zero[OF ne le] by auto
  have elems: "set (elems diff') \<subseteq> set (elems diff) \<and> set (elems (evaluate cov')) \<subseteq> set (elems (evaluate cov))"
    if r: "reconcile diff cov = Inr (diff', cov')" for diff' cov'
  proof (cases "?db = cb")
    case True
    then show ?thesis using same r by simp
  next
    case ne: False
    show ?thesis
    proof (cases "length ?db < length cb")
      case True
      then show ?thesis using grow[OF ne True r] by simp
    next
      case False
      then have "length cb \<le> length ?db" by simp
      from tile[OF ne this r] show ?thesis by simp
    qed
  qed
  show ?thesis
  proof (intro conjI impI allI)
    assume "?db = cb" then show "reconcile diff cov = Inr (diff, cov)" by (rule same)
  next
    assume h: "?db \<noteq> cb \<and> length ?db < length cb"
    then show "(\<exists>r. reconcile diff cov = Inr r) \<longleftrightarrow> expandable (shape diff) (cb @ [n])"
      using grow_iff by blast
  next
    fix diff' cov'
    assume h: "?db \<noteq> cb \<and> length ?db < length cb" and r: "reconcile diff cov = Inr (diff', cov')"
    from h have a: "?db \<noteq> cb" and b: "length ?db < length cb" by simp_all
    note g = grow[OF a b r]
    show "cov' = cov" using g by simp
    show "shape diff' = cb @ [n]" using g by simp
    show "wf_tensor diff'" using g by simp
    fix idx assume "list_all2 (<) idx (cb @ [n])"
    then show "entry diff' idx = entry diff (bidx (shape diff) idx)" using g by simp
  next
    assume h: "?db \<noteq> cb \<and> length cb \<le> length ?db"
    then show "?p = replicate ?k 1 @ cb" using pad(1) by blast
    from h show "(\<exists>r. reconcile diff cov = Inr r) \<longleftrightarrow> 0 \<notin> set cb" using tile_iff by blast
  next
    assume h: "?db \<noteq> cb \<and> length cb \<le> length ?db" and "0 \<in> set cb"
    then show "reconcile diff cov = Inl ZeroDivisionError" using zero by blast
  next
    fix diff' cov'
    assume h: "?db \<noteq> cb \<and> length cb \<le> length ?db" and r: "reconcile diff cov = Inr (diff', cov')"
    from h have a: "?db \<noteq> cb" and b: "length cb \<le> length ?db" by simp_all
    note t = tile[OF a b r]
    show "diff' = diff" using t by simp
    show "lazy_repeat cov (map2 (div) ?db ?p @ [1, 1]) = Inr cov'" using t by simp
    show "lazy_shape cov' = map2 (\<lambda>d c. d div c * c) ?db ?p @ [n, n']" using t by simp
    show "wf_tensor (evaluate cov')" using t by simp
    show "(lazy_batch_shape cov' = ?db) = list_all2 (\<lambda>d c. c dvd d) ?db ?p" using t by blast
    {
      fix idx assume "list_all2 (<) idx (lazy_shape cov')"
      then show "entry (evaluate cov') idx
               = entry (evaluate cov) (drop ?k (map2 (\<lambda>i c. i mod c) idx (?p @ [n, n'])))"
        using t by blast
    }
    fix ops r' assume "inv_quad_logdet ops cov' (unsqueeze_last diff') = Inr r'"
    then show "list_all2 (\<lambda>d c. c dvd d) ?db ?p" using t by blast
  next
    fix diff' cov' assume r: "reconcile diff cov = Inr (diff', cov')"
    show "set (elems diff') \<subseteq> set (elems diff)" using elems[OF r] by simp
    show "set (elems (evaluate cov')) \<subseteq> set (elems (evaluate cov))" using elems[OF r] by simp
  qed
qed

text \<open>
  Both directions on examples: four differences against two matrices (the operator is
  tiled twice), and one difference against two matrices (the difference is expanded to
  two rows).
\<close>

theorem reconcile_batch_shapes_witness:
  "wf_tensor four_diffs \<and> wf_tensor (evaluate paired_covar)
   \<and> lazy_shape paired_covar = [2] @ [2, 2]
   \<and> butlast (shape four_diffs) \<noteq> [2] \<and> length [2::nat] \<le> length (butlast (shape four_diffs))
   \<and> 0 \<notin> set [2::nat]
   \<and> reconcile four_diffs paired_covar = Inr (four_diffs, tiled_covar)
   \<and> padded_batch_shape four_diffs paired_covar = [2]
   \<and> lazy_repeat paired_covar [2, 1, 1] = Inr tiled_covar
   \<and> lazy_shape tiled_covar = [4, 2, 2]
   \<and> entry (evaluate tiled_covar) [3, 0, 0] = entry (evaluate paired_covar) [1, 0, 0]
   \<and> lazy_batch_shape tiled_covar = butlast (shape four_diffs)
   \<and> list_all2 (\<lambda>d c. c dvd d) (butlast (shape four_diffs)) (padded_batch_shape four_diffs paired_covar)
   \<and> set (elems (evaluate tiled_covar)) \<subseteq> set (elems (evaluate paired_covar))
   \<and> wf_tensor pair_diff
   \<and> butlast (shape pair_diff) \<noteq> [2] \<and> length (butlast (shape pair_diff)) < length [2::nat]
   \<and> expandable (shape pair_diff) ([2] @ [2])
   \<and> reconcile pair_diff paired_covar = Inr (Tensor [2, 2] [1, 2, 1, 2], paired_covar)
   \<and> shape (Tensor [2, 2] [1, 2, 1, 2]) = [2] @ [2]
   \<and> entry (Tensor [2, 2] [1, 2, 1, 2]) [1, 0] = entry pair_diff [0]
   \<and> set (elems (Tensor [2, 2] [1, 2, 1, 2])) \<subseteq> set (elems pair_diff)"
proof -
  have h: "wf_tensor four_diffs" "wf_tensor (evaluate paired_covar)"
    "lazy_shape paired_covar = [2] @ [2, 2]"
    by code_simp+
  have c: "butlast (shape four_diffs) \<noteq> [2]" "length [2::nat] \<le> length (butlast (shape four_diffs))"
    by code_simp+
  have z: "0 \<notin> set [2::nat]" by simp
  have r1: "reconcile four_diffs paired_covar = Inr (four_diffs, tiled_covar)"
    by code_simp
  have p: "padded_batch_shape four_diffs paired_covar = [2]"
    by code_simp
  have q: "map2 (div) (butlast (shape four_diffs)) [2] @ [1, 1] = [2, 1, 1::nat]"
    "map2 (\<lambda>d c. d div c * c) (butlast (shape four_diffs)) [2] @ [2, 2] = [4, 2, 2::nat]"
    by code_simp+
  have b: "lazy_batch_shape tiled_covar = butlast (shape four_diffs)"
    by code_simp
  have i: "list_all2 (<) [3, 0, 0] [4, 2, 2::nat]"
    "drop (length (butlast (shape four_diffs)) - length [2::nat])
        (map2 (\<lambda>i c. i mod c) [3, 0, 0] ([2] @ [2, 2::nat])) = [1, 0, 0]"
    by code_simp+
  note t = reconcile_batch_shapes[OF h, unfolded p]
  have rp: "lazy_repeat paired_covar [2, 1, 1] = Inr tiled_covar"
    using t c r1 q(1) by simp
  have sh: "lazy_shape tiled_covar = [4, 2, 2]"
    using t c r1 q(2) by simp
  have en: "entry (evaluate tiled_covar) [3, 0, 0] = entry (evaluate paired_covar) [1, 0, 0]"
  proof -
    have "\<forall>idx. list_all2 (<) idx (lazy_shape tiled_covar) \<longrightarrow>
            entry (evaluate tiled_covar) idx
              = entry (evaluate paired_covar)
                  (drop (length (butlast (shape four_diffs)) - length [2::nat])
                     (map2 (\<lambda>i c. i mod c) idx ([2] @ [2, 2])))"
      using t c r1 by blast
    then show ?thesis using i unfolding sh by metis
  qed
  have d: "list_all2 (\<lambda>d c. c dvd d) (butlast (shape four_diffs)) [2]"
    using t c r1 b by blast
  have e: "set (elems (evaluate tiled_covar)) \<subseteq> set (elems (evaluate paired_covar))"
    using t r1 by blast
  have w2: "wf_tensor pair_diff" by code_simp
  have c2: "butlast (shape pair_diff) \<noteq> [2]" "length (butlast (shape pair_diff)) < length [2::nat]"
    by code_simp+
  have x: "expandable (shape pair_diff) ([2] @ [2])" by code_simp
  have r2: "reconcile pair_diff paired_covar = Inr (Tensor [2, 2] [1, 2, 1, 2], paired_covar)"
    by code_simp
  have i2: "list_all2 (<) [1, 0] ([2] @ [2::nat])" "bidx (shape pair_diff) [1, 0] = [0]"
    by code_simp+
  note u = reconcile_batch_shapes[OF w2 h(2,3)]
  have ex: "\<exists>r. reconcile pair_diff paired_covar = Inr r"
    using u c2 x by blast
  have s2: "shape (Tensor [2, 2] [1, 2, 1, 2]) = [2] @ [2]"
    using u c2 r2 by blast
  have en2: "entry (Tensor [2, 2] [1, 2, 1, 2]) [1, 0] = entry pair_diff [0]"
  proof -
    have "\<forall>idx. list_all2 (<) idx ([2] @ [2]) \<longrightarrow>
            entry (Tensor [2, 2] [1, 2, 1, 2]) idx = entry pair_diff (bidx (shape pair_diff) idx)"
      using u c2 r2 by blast
    then show ?thesis using i2 by metis
  qed
  have e2: "set (elems (Tensor [2, 2] [1, 2, 1, 2])) \<subseteq> set (elems pair_diff)"
    using u r2 by blast
  show ?thesis
    using h c z r1 p rp sh en b d e w2 c2 x r2 s2 en2 e2 unfolding p by blast
qed

text \<open>
  Claim C7, as the code has it. \<open>sample(S)\<close> returns a tensor of shape \<open>S + loc.shape\<close>,
  and \<open>rsample\<close> with explicit base samples of shape \<open>S + loc.shape\<close> returns a tensor of
  shape \<open>S + loc.shape\<close>, where \<open>loc.shape\<close> is the shape of the mean: its batch
  dimensions followed by the event shape. Both do return when the covariance has the
  batch dimensions and the event size of the mean; for \<open>sample\<close>, when \<open>S\<close> has no zero
  entry; for \<open>rsample\<close>, when the mean has a dimension and no empty one and the rank of
  the root factor is at most the event size.
\<close>

theorem sample_shapes:
  assumes "mvn_init ops m cv va = Inr A" and "lazy_covariance_matrix A = Inr lc"
  shows "(\<forall>t. sample ops A S None = Inr t \<longrightarrow> shape t = S @ shape (loc A))
       \<and> (\<forall>bs t. shape bs = S @ shape (loc A) \<longrightarrow> rsample ops A S0 (Some bs) = Inr t
             \<longrightarrow> shape t = S @ shape (loc A))
       \<and> (butlast (lazy_shape lc) = shape (loc A) \<and> 0 < prod_list S
             \<longrightarrow> (\<exists>t. sample ops A S None = Inr t))
       \<and> (butlast (lazy_shape lc) = shape (loc A) \<and> shape (loc A) \<noteq> [] \<and> 0 < numel (loc A)
            \<and> root_rank ops (evaluate lc) \<le> last (shape (loc A))
             \<longrightarrow> (\<forall>bs. shape bs = S @ shape (loc A) \<longrightarrow> (\<exists>t. rsample ops A S0 (Some bs) = Inr t)))"
proof (intro conjI allI impI)
  fix t assume "sample ops A S None = Inr t"
  then show "shape t = S @ shape (loc A)"
    by (auto simp: sample_none[OF assms(2)] ebind_eq_Inr dest: view_shape)
next
  fix bs t assume bs: "shape bs = S @ shape (loc A)" and r: "rsample ops A S0 (Some bs) = Inr t"
  have "shape t = py_prefix (int (ndim bs) - int (ndim (loc A))) (shape bs) @ shape (loc A)"
    using r by (auto simp: rsample_base_samples[OF assms(2)] ebind_eq_Inr
        dest: reparameterize_shape split: if_splits)
  then show "shape t = S @ shape (loc A)"
    using py_prefix_append[of S "shape (loc A)"] bs by (simp add: ndim_def)
next
  assume h: "butlast (lazy_shape lc) = shape (loc A) \<and> 0 < prod_list S"
  let ?z = "zero_mean_mvn_samples ops lc (prod_list S)"
  have sz: "shape ?z = prod_list S # shape (loc A)"
    using h by (simp add: zero_mean_mvn_samples_def Let_def)
  have "broadcast_shape (shape ?z) (shape (unsqueeze_first (loc A))) = Inr (prod_list S # shape (loc A))"
    by (simp add: sz unsqueeze_first_def broadcast_shape_Cons_one)
  then obtain res where res: "tadd ?z (unsqueeze_first (loc A)) = Inr res"
    "shape res = prod_list S # shape (loc A)"
    unfolding tadd_def using tbinop_ok by blast
  have "\<exists>t. view res (S @ shape (loc A)) = Inr t"
    using res(2) by (simp add: view_def numel_def)
  then show "\<exists>t. sample ops A S None = Inr t"
    using h res by (auto simp: sample_none[OF assms(2)])
next
  fix bs
  assume h: "butlast (lazy_shape lc) = shape (loc A) \<and> shape (loc A) \<noteq> [] \<and> 0 < numel (loc A)
            \<and> root_rank ops (evaluate lc) \<le> last (shape (loc A))"
    and bs: "shape bs = S @ shape (loc A)"
  let ?s = "shape (loc A)" and ?r = "root_rank ops (evaluate lc)"
  let ?rt = "root_decomposition ops lc"
  obtain mb d where s: "?s = mb @ [d]" using h by (cases ?s rule: rev_cases) auto
  obtain bs2 where sh: "shape bs2 = ?s @ [prod_list S]"
    and rs: "rsample ops A S0 (Some bs) = ebind (adjust_rank ?rt bs2) (reparameterize A S ?rt)"
  proof -
    have "shape (loc A) \<noteq> []" and "0 < numel (loc A)" using h by simp_all
    from rsample_valid[OF assms(2) bs this, of ops S0] that show ?thesis by auto
  qed
  have rt: "lazy_shape ?rt = mb @ [d, ?r]"
    using h s by (simp add: root_decomposition_def Let_def lazy_shape_def)
  have le: "?r \<le> d" using h s by simp
  have ne: "?s \<noteq> []" using h by simp
  obtain bs3 where a: "adjust_rank ?rt bs2 = Inr bs3" and sh3: "shape bs3 = mb @ [?r, prod_list S]"
  proof (cases "?r < d")
    case True
    then show ?thesis using that adjust_rank_cases[OF sh ne, of ops lc] s
      by (simp add: Let_def)
  next
    case False
    then have "?r = d" using le by simp
    then show ?thesis using that adjust_rank_cases[OF sh ne, of ops lc] s sh
      by (simp add: Let_def)
  qed
  obtain t where "reparameterize A S ?rt bs3 = Inr t"
    using reparameterize_ok[OF rt sh3 s refl] by blast
  then show "\<exists>t. rsample ops A S0 (Some bs) = Inr t"
    by (simp add: rs a)
qed

theorem sample_shapes_witness:
  "mvn_init unit_numerics example_mean (LazyCovariance example_covar) False = Inr example_mvn
   \<and> lazy_covariance_matrix example_mvn = Inr example_covar
   \<and> butlast (lazy_shape example_covar) = shape (loc example_mvn) \<and> 0 < prod_list [3::nat]
   \<and> shape (loc example_mvn) \<noteq> [] \<and> 0 < numel (loc example_mvn)
   \<and> root_rank unit_numerics (evaluate example_covar) \<le> last (shape (loc example_mvn))
   \<and> shape (Tensor [3, 2] [1, 2, 3, 4, 5, 6]) = [3] @ shape (loc example_mvn)
   \<and> (\<exists>t. sample unit_numerics example_mvn [3] None = Inr t \<and> shape t = [3, 2])
   \<and> (\<exists>t. rsample unit_numerics example_mvn [] (Some (Tensor [3, 2] [1, 2, 3, 4, 5, 6])) = Inr t
          \<and> shape t = [3, 2])"
proof -
  have lc: "lazy_covariance_matrix example_mvn = Inr example_covar"
    by code_simp
  have h1: "butlast (lazy_shape example_covar) = shape (loc example_mvn)" and h2: "0 < prod_list [3::nat]"
    and h3: "shape (loc example_mvn) \<noteq> []" and h4: "0 < numel (loc example_mvn)"
    and h5: "root_rank unit_numerics (evaluate example_covar) \<le> last (shape (loc example_mvn))"
    and h6: "shape (Tensor [3, 2] [1, 2, 3, 4, 5, 6]) = [3] @ shape (loc example_mvn)"
    by code_simp+
  have s: "[3] @ shape (loc example_mvn) = [3, 2]"
    by code_simp
  note t = sample_shapes[OF example_mvn_init lc, of "[3]" "[]", unfolded s]
  have a: "\<exists>t. sample unit_numerics example_mvn [3] None = Inr t \<and> shape t = [3, 2]"
    using t h1 h2 by blast
  have b: "\<exists>t. rsample unit_numerics example_mvn [] (Some (Tensor [3, 2] [1, 2, 3, 4, 5, 6])) = Inr t
          \<and> shape t = [3, 2]"
    using t h1 h3 h4 h5 h6[unfolded s] by blast
  show ?thesis
    using example_mvn_init lc h1 h2 h3 h4 h5 h6 a b by blast
qed

text \<open>
  The claim as stated gives the shape \<open>S + event_shape\<close>. A mean with a batch dimension
  shows the difference: with the empty sample shape the result has the shape \<open>[2, 1]\<close>
  of the mean, not the event shape \<open>[1]\<close>.
\<close>

theorem sample_shape_counterexample:
  "mvn_init unit_numerics batched_mean (LazyCovariance batched_covar) False = Inr batched_mvn
   \<and> sample unit_numerics batched_mvn [] None = Inr (Tensor [2, 1] [0, 0])
   \<and> shape (Tensor [2, 1] [0, 0]) \<noteq> [] @ event_shape batched_mvn"
  by code_simp

text \<open>
  Claim C8. \<open>expand\<close> is claimed to return the expanded instance for dense-mode and
  structured-mode instances alike. For a structured-mode instance it does
  (\<open>expand_structured\<close>). It reads \<open>self._covar\<close>, though, which the dense branch of the
  constructor never assigns: on the dense-mode instance with mean \<open>[10, 20]\<close> and the
  identity covariance, \<open>expand\<close> to the batch shape \<open>[3]\<close> raises \<open>AttributeError\<close>.
\<close>

theorem expand_dense_attribute_error:
  "mvn_init unit_numerics example_mean (DenseCovariance (Tensor [2, 2] [1, 0, 0, 1])) False
     = Inr dense_mvn
   \<and> expand unit_numerics dense_mvn [3] = Inl AttributeError"
  by (simp add: mvn_init_def torch_mvn_init_def expand_def dense_mvn_def example_mean_def
      unit_numerics_def get_covar_def tensor_expand_def expandable_def tensor_eval indices.simps)

text \<open>
  Claim C9, as the code has it. For a Gaussian \<open>A\<close> and a scalar \<open>c\<close> within range,
  \<open>A * c\<close> has the mean of \<open>A\<close> scaled by \<open>c\<close> and the covariance of \<open>A\<close> scaled by
  \<open>c\<close> squared. Within range is: an int that the tensor library takes as a scalar and
  whose square the operator takes as a factor; a float whose square is not out of the
  range of floats. Another float raises \<open>OverflowError\<close> at \<open>other ** 2\<close>, another int
  the overflow error of the tensor library. \<open>A / c\<close>, for \<open>c\<close> other than 0, is
  \<open>A * (1.0 / c)\<close> when \<open>1.0 / c\<close> is a float: \<open>c\<close> is an int within the range of
  floats, or a float whose reciprocal is. Multiplying \<open>A\<close> by an operand that is not a
  scalar fails with the "Can only multiply by scalars" error. The product is the one
  the class defines, \<open>__mul__\<close>, with the scalar on the right.
\<close>

theorem scalar_multiplication:
  assumes "mvn_init ops m cv va = Inr A" and "self < length st" and "st ! self = A"
  shows "(\<forall>i. torch_accepts_int ops i \<and> lazy_accepts_int ops (i ^ 2) \<longrightarrow>
            (\<exists>st' r cov. mvn_mul ops st self (IntOperand i) = Inr (st', r) \<and> r < length st'
               \<and> mean (st' ! r) = tmap (\<lambda>x. x * real_of_int i) (mean A)
               \<and> covariance_matrix A = Inr cov
               \<and> covariance_matrix (st' ! r) = Inr (tmap (\<lambda>x. x * (real_of_int i) ^ 2) cov)))
       \<and> (\<forall>c. \<not> float_overflows (c ^ 2) \<longrightarrow>
            (\<exists>st' r cov. mvn_mul ops st self (FloatOperand c) = Inr (st', r) \<and> r < length st'
               \<and> mean (st' ! r) = tmap (\<lambda>x. x * c) (mean A)
               \<and> covariance_matrix A = Inr cov
               \<and> covariance_matrix (st' ! r) = Inr (tmap (\<lambda>x. x * c ^ 2) cov)))
       \<and> (\<forall>c. c \<noteq> 1 \<and> float_overflows (c ^ 2) \<longrightarrow>
            mvn_mul ops st self (FloatOperand c) = Inl OverflowError)
       \<and> (\<forall>i. i \<noteq> 1 \<and> \<not> torch_accepts_int ops i \<longrightarrow>
            mvn_mul ops st self (IntOperand i) = Inl (RuntimeError ScalarOverflow))
       \<and> (\<forall>i. i \<noteq> 0 \<and> \<not> float_overflows (real_of_int i) \<longrightarrow>
            mvn_truediv ops st self (IntOperand i)
              = mvn_mul ops st self (FloatOperand (1 / real_of_int i)))
       \<and> (\<forall>c. c \<noteq> 0 \<and> \<not> float_overflows (1 / c) \<longrightarrow>
            mvn_truediv ops st self (FloatOperand c) = mvn_mul ops st self (FloatOperand (1 / c)))
       \<and> (\<forall>other. scalar_of other = None \<longrightarrow>
            mvn_mul ops st self other = Inl (RuntimeError OnlyScalars))"
proof -
  obtain lc where lc: "lazy_covariance_matrix A = Inr lc" "covariance_matrix A = Inr (evaluate lc)"
    using mvn_init_covariance[OF assms(1)] by auto
  have scaled: "\<exists>B. mvn_init ops (tmap (\<lambda>x. x * c) (mean A)) (LazyCovariance (lazy_mul_scalar lc (c ^ 2))) False = Inr B
        \<and> mean B = tmap (\<lambda>x. x * c) (mean A)
        \<and> covariance_matrix B = Inr (tmap (\<lambda>x. x * c ^ 2) (evaluate lc))" for c :: real
    using mvn_init_scaled[OF assms(1) lc(1)] by blast
  have ints: "\<exists>st' r cov. mvn_mul ops st self (IntOperand i) = Inr (st', r) \<and> r < length st'
               \<and> mean (st' ! r) = tmap (\<lambda>x. x * real_of_int i) (mean A)
               \<and> covariance_matrix A = Inr cov
               \<and> covariance_matrix (st' ! r) = Inr (tmap (\<lambda>x. x * (real_of_int i) ^ 2) cov)"
    if "torch_accepts_int ops i" "lazy_accepts_int ops (i ^ 2)" for i
  proof (cases "i = 1")
    case True
    then show ?thesis using assms lc by (simp add: mvn_mul_def tmap_ident)
  next
    case False
    from scaled[of "real_of_int i"] obtain B where
      "mvn_init ops (tmap (\<lambda>x. x * real_of_int i) (mean A))
          (LazyCovariance (lazy_mul_scalar lc ((real_of_int i) ^ 2))) False = Inr B"
      "mean B = tmap (\<lambda>x. x * real_of_int i) (mean A)"
      "covariance_matrix B = Inr (tmap (\<lambda>x. x * (real_of_int i) ^ 2) (evaluate lc))"
      by blast
    then show ?thesis using False that assms lc
      by (simp add: mvn_mul_def construct_def)
  qed
  have floats: "\<exists>st' r cov. mvn_mul ops st self (FloatOperand c) = Inr (st', r) \<and> r < length st'
               \<and> mean (st' ! r) = tmap (\<lambda>x. x * c) (mean A)
               \<and> covariance_matrix A = Inr cov
               \<and> covariance_matrix (st' ! r) = Inr (tmap (\<lambda>x. x * c ^ 2) cov)"
    if "\<not> float_overflows (c ^ 2)" for c
  proof (cases "c = 1")
    case True
    then show ?thesis using assms lc by (simp add: mvn_mul_def tmap_ident)
  next
    case False
    from scaled[of c] obtain B where
      "mvn_init ops (tmap (\<lambda>x. x * c) (mean A)) (LazyCovariance (lazy_mul_scalar lc (c ^ 2))) False = Inr B"
      "mean B = tmap (\<lambda>x. x * c) (mean A)"
      "covariance_matrix B = Inr (tmap (\<lambda>x. x * c ^ 2) (evaluate lc))"
      by blast
    then show ?thesis using False that assms lc
      by (simp add: mvn_mul_def construct_def)
  qed
  have over: "mvn_mul ops st self (FloatOperand c) = Inl OverflowError"
    if "c \<noteq> 1" "float_overflows (c ^ 2)" for c
    using that assms(3) lc(1) by (simp add: mvn_mul_def)
  have big: "mvn_mul ops st self (IntOperand i) = Inl (RuntimeError ScalarOverflow)"
    if "i \<noteq> 1" "\<not> torch_accepts_int ops i" for i
    using that by (simp add: mvn_mul_def)
  have di: "mvn_truediv ops st self (IntOperand i) = mvn_mul ops st self (FloatOperand (1 / real_of_int i))"
    if "i \<noteq> 0" "\<not> float_overflows (real_of_int i)" for i
    using that by (simp add: mvn_truediv_def)
  have df: "mvn_truediv ops st self (FloatOperand c) = mvn_mul ops st self (FloatOperand (1 / c))"
    if "c \<noteq> 0" "\<not> float_overflows (1 / c)" for c
    using that by (simp add: mvn_truediv_def)
  have ns: "mvn_mul ops st self other = Inl (RuntimeError OnlyScalars)"
    if "scalar_of other = None" for other
    using that by (cases other) (simp_all add: mvn_mul_def scalar_of_def)
  show ?thesis
    by (intro conjI allI impI; (elim conjE)?; (rule ints floats over big di df ns; assumption))
qed

theorem scalar_multiplication_witness:
  "mvn_init unit_numerics example_mean (LazyCovariance example_covar) False = Inr example_mvn
   \<and> (0::nat) < length [example_mvn] \<and> [example_mvn] ! 0 = example_mvn
   \<and> torch_accepts_int unit_numerics 2 \<and> lazy_accepts_int unit_numerics (2 ^ 2)
   \<and> (\<exists>st' r. mvn_mul unit_numerics [example_mvn] 0 (IntOperand 2) = Inr (st', r) \<and> r < length st'
         \<and> mean (st' ! r) = Tensor [2] [20, 40]
         \<and> covariance_matrix (st' ! r) = Inr (Tensor [2, 2] [4, 0, 0, 4]))
   \<and> \<not> float_overflows ((1 / 2) ^ 2)
   \<and> (\<exists>st' r. mvn_mul unit_numerics [example_mvn] 0 (FloatOperand (1 / 2)) = Inr (st', r)
         \<and> r < length st'
         \<and> mean (st' ! r) = Tensor [2] [5, 10]
         \<and> covariance_matrix (st' ! r) = Inr (Tensor [2, 2] [1 / 4, 0, 0, 1 / 4]))
   \<and> (2::int) \<noteq> 0 \<and> \<not> float_overflows (real_of_int 2)
   \<and> mvn_truediv unit_numerics [example_mvn] 0 (IntOperand 2)
       = mvn_mul unit_numerics [example_mvn] 0 (FloatOperand (1 / 2))
   \<and> (4::real) \<noteq> 0 \<and> \<not> float_overflows (1 / 4)
   \<and> mvn_truediv unit_numerics [example_mvn] 0 (FloatOperand 4)
       = mvn_mul unit_numerics [example_mvn] 0 (FloatOperand (1 / 4))
   \<and> (2 ^ 600 :: real) \<noteq> 1 \<and> float_overflows ((2 ^ 600) ^ 2)
   \<and> mvn_mul unit_numerics [example_mvn] 0 (FloatOperand (2 ^ 600)) = Inl OverflowError
   \<and> (2 ^ 64 :: int) \<noteq> 1 \<and> \<not> torch_accepts_int unit_numerics (2 ^ 64)
   \<and> mvn_mul unit_numerics [example_mvn] 0 (IntOperand (2 ^ 64)) = Inl (RuntimeError ScalarOverflow)
   \<and> scalar_of (TensorOperand (scalar 2)) = None
   \<and> mvn_mul unit_numerics [example_mvn] 0 (TensorOperand (scalar 2)) = Inl (RuntimeError OnlyScalars)"
proof -
  have h: "(0::nat) < length [example_mvn]" "[example_mvn] ! 0 = example_mvn" by simp_all
  have a: "torch_accepts_int unit_numerics 2" "lazy_accepts_int unit_numerics (2 ^ 2)"
    by (simp_all add: unit_numerics_def)
  have f: "\<not> float_overflows ((1 / 2) ^ 2)" "\<not> float_overflows (real_of_int 2)"
    "\<not> float_overflows (1 / 4)" "float_overflows ((2 ^ 600) ^ 2)"
    by (simp_all add: float_overflows_def power2_eq_square)
  have n: "(2 ^ 600 :: real) \<noteq> 1" "(2 ^ 64 :: int) \<noteq> 1" "\<not> torch_accepts_int unit_numerics (2 ^ 64)"
    by (simp_all add: unit_numerics_def)
  have s: "scalar_of (TensorOperand (scalar 2)) = None"
    by (simp add: scalar_of_def)
  have c: "covariance_matrix example_mvn = Inr (Tensor [2, 2] [1, 0, 0, 1])"
    by (simp add: covariance_matrix_def example_mvn_def get_covar_def example_covar_def)
  have m: "mean example_mvn = Tensor [2] [10, 20]"
    by (simp add: mean_def example_mvn_def example_mean_def)
  note t = scalar_multiplication[OF example_mvn_init h]
  have i2: "\<exists>st' r. mvn_mul unit_numerics [example_mvn] 0 (IntOperand 2) = Inr (st', r) \<and> r < length st'
         \<and> mean (st' ! r) = Tensor [2] [20, 40]
         \<and> covariance_matrix (st' ! r) = Inr (Tensor [2, 2] [4, 0, 0, 4])"
  proof -
    from t a obtain st' r cov where
      "mvn_mul unit_numerics [example_mvn] 0 (IntOperand 2) = Inr (st', r)" "r < length st'"
      "mean (st' ! r) = tmap (\<lambda>x. x * real_of_int 2) (mean example_mvn)"
      "covariance_matrix example_mvn = Inr cov"
      "covariance_matrix (st' ! r) = Inr (tmap (\<lambda>x. x * (real_of_int 2) ^ 2) cov)"
      by blast
    then show ?thesis using c m by (auto simp: tmap_def)
  qed
  have f2: "\<exists>st' r. mvn_mul unit_numerics [example_mvn] 0 (FloatOperand (1 / 2)) = Inr (st', r)
         \<and> r < length st'
         \<and> mean (st' ! r) = Tensor [2] [5, 10]
         \<and> covariance_matrix (st' ! r) = Inr (Tensor [2, 2] [1 / 4, 0, 0, 1 / 4])"
  proof -
    from t f(1) obtain st' r cov where
      "mvn_mul unit_numerics [example_mvn] 0 (FloatOperand (1 / 2)) = Inr (st', r)" "r < length st'"
      "mean (st' ! r) = tmap (\<lambda>x. x * (1 / 2)) (mean example_mvn)"
      "covariance_matrix example_mvn = Inr cov"
      "covariance_matrix (st' ! r) = Inr (tmap (\<lambda>x. x * (1 / 2) ^ 2) cov)"
      by blast
    then show ?thesis using c m by (auto simp: tmap_def power2_eq_square)
  qed
  have d1: "mvn_truediv unit_numerics [example_mvn] 0 (IntOperand 2)
       = mvn_mul unit_numerics [example_mvn] 0 (FloatOperand (1 / 2))"
    using t f(2) by fastforce
  have d2: "mvn_truediv unit_numerics [example_mvn] 0 (FloatOperand 4)
       = mvn_mul unit_numerics [example_mvn] 0 (FloatOperand (1 / 4))"
    using t f(3) by fastforce
  have o: "mvn_mul unit_numerics [example_mvn] 0 (FloatOperand (2 ^ 600)) = Inl OverflowError"
    using t f(4) n(1) by blast
  have b: "mvn_mul unit_numerics [example_mvn] 0 (IntOperand (2 ^ 64)) = Inl (RuntimeError ScalarOverflow)"
    using t n(2,3) by blast
  have ns: "mvn_mul unit_numerics [example_mvn] 0 (TensorOperand (scalar 2)) = Inl (RuntimeError OnlyScalars)"
    using t s by blast
  have z: "(2::int) \<noteq> 0" "(4::real) \<noteq> 0" by simp_all
  show ?thesis
    using example_mvn_init h a i2 f f2 z d1 d2 n o b s ns by blast
qed

text \<open>
  The claim as stated promises the scaled Gaussian for every scalar, with the scalar
  on the left. The float \<open>1e200\<close> is a scalar, and \<open>A * 1e200\<close> raises \<open>OverflowError\<close>;
  with the scalar 2 on the left, \<open>2 * A\<close> raises \<open>TypeError\<close>.
\<close>

theorem scalar_multiplication_counterexample:
  "mvn_init unit_numerics example_mean (LazyCovariance example_covar) False = Inr example_mvn
   \<and> scalar_of (FloatOperand (10 ^ 200)) = Some (10 ^ 200)
   \<and> mvn_mul unit_numerics [example_mvn] 0 (FloatOperand (10 ^ 200)) = Inl OverflowError
   \<and> scalar_of (IntOperand 2) = Some 2
   \<and> mvn_rmul unit_numerics [example_mvn] (IntOperand 2) 0 = Inl TypeError"
  by (simp add: example_mvn_init scalar_of_def mvn_mul_def mvn_rmul_def example_mvn_def
      lazy_covariance_matrix_def get_covar_def float_overflows_def)

text \<open>
  Claim C10. \<open>A * 1\<close> and \<open>0 + A\<close> return the instance \<open>A\<close> itself: the reference that
  comes back is the reference of \<open>A\<close> and the store is the one before the call, so no
  instance was constructed and no field changed. The scalars 1 and 0 may be ints or
  floats.
\<close>

theorem identity_operands_return_self:
  "mvn_mul ops st self (IntOperand 1) = Inr (st, self)
   \<and> mvn_mul ops st self (FloatOperand 1) = Inr (st, self)
   \<and> mvn_radd ops st self (IntOperand 0) = Inr (st, self)
   \<and> mvn_radd ops st self (FloatOperand 0) = Inr (st, self)"
  by (simp add: mvn_mul_def mvn_radd_def)

text \<open>By contrast, any other scalar constructs an instance: the reference is fresh.\<close>

lemma mvn_mul_fresh:
  assumes "scalar_of other = Some c" and "c \<noteq> 1" and "mvn_mul ops st self other = Inr (st', r)"
  shows "r = length st \<and> length st' = Suc (length st) \<and> take (length st) st' = st"
  using assms
  by (cases other) (auto simp: mvn_mul_def scalar_of_def construct_def ebind_eq_Inr split: if_splits)

end
